(* ===== verification/Go_Base.thy ===== *)
theory Go_Base
  imports Main "HOL-Library.Word" "HOL-Library.Log_Nat" "HOL-Library.Char_ord"
    "HOL-Library.Multiset"
begin

text \<open>
  The part of the Go language the worker's sources rest on: 64-bit integers and durations,
  finite float64 values, decimal printing and parsing, maps and the order in which a
  \<^verbatim>\<open>range\<close> statement visits them. Strings are byte strings, as in Go: a HOL \<open>char\<close> is
  a byte, \<open>length\<close> is Go's \<^verbatim>\<open>len\<close>. Byte-string functions are in \<open>Go_Strings\<close>.
\<close>

section \<open>Fact collections and type names\<close>

named_theorems i64_simps \<open>signed reading of int64 arithmetic that does not wrap\<close>
named_theorems go_str \<open>facts on the byte-string functions of the standard library\<close>

type_synonym i64 = "64 word"
type_synonym duration = i64
type_synonym go_error = string

section \<open>int64\<close>

definition fits_i64 :: "int \<Rightarrow> bool" where
  "fits_i64 x \<longleftrightarrow> - (2 ^ 63) \<le> x \<and> x < 2 ^ 63"

lemma fits_sint [simp]: "fits_i64 (sint (w :: i64))"
  using sint_range_size [of w] by (simp add: fits_i64_def word_size)

lemma sint_word_of_int_fits [i64_simps]:
  "fits_i64 x \<Longrightarrow> sint (word_of_int x :: i64) = x"
  by (simp add: fits_i64_def sint_sbintrunc' signed_take_bit_int_eq_self)

lemma sint_mult_fits [i64_simps]:
  "fits_i64 (sint a * sint b) \<Longrightarrow> sint (a * b :: i64) = sint a * sint b"
  by (simp add: fits_i64_def sint_word_ariths signed_take_bit_int_eq_self)

lemma sint_diff_fits [i64_simps]:
  "fits_i64 (sint a - sint b) \<Longrightarrow> sint (a - b :: i64) = sint a - sint b"
  by (simp add: fits_i64_def sint_word_ariths signed_take_bit_int_eq_self)

lemma fits_between: "fits_i64 a \<Longrightarrow> a \<le> x \<Longrightarrow> x \<le> b \<Longrightarrow> fits_i64 b \<Longrightarrow> fits_i64 x"
  by (simp add: fits_i64_def)

lemma i64_less_iff [i64_simps]: "(a :: i64) <s b \<longleftrightarrow> sint a < sint b"
  by (rule word_sless_alt)

lemma i64_le_iff [i64_simps]: "(a :: i64) \<le>s b \<longleftrightarrow> sint a \<le> sint b"
  by (rule word_sle_eq)

lemma i64_eq_sint: "(a :: i64) = b \<longleftrightarrow> sint a = sint b"
  by (auto intro: signed_word_eqI)

text \<open>Go's integer division and int64 saturation, as \<^verbatim>\<open>time.Time.Sub\<close> uses it.\<close>

definition go_quot :: "int \<Rightarrow> int \<Rightarrow> int" where
  "go_quot a b = sgn a * sgn b * (\<bar>a\<bar> div \<bar>b\<bar>)"

definition sat_i64 :: "int \<Rightarrow> i64" where
  "sat_i64 x = word_of_int (max (- (2 ^ 63)) (min (2 ^ 63 - 1) x))"

lemma sint_sat_i64: "sint (sat_i64 x) = max (- (2 ^ 63)) (min (2 ^ 63 - 1) x)"
  by (simp add: sat_i64_def sint_word_of_int_fits fits_i64_def)

section \<open>Durations\<close>

text \<open>\<^verbatim>\<open>time.Duration\<close> is an int64 count of nanoseconds.\<close>

definition second :: duration where
  "second = 1000000000"

definition millisecond :: duration where
  "millisecond = 1000000"

lemma sint_second [simp]: "sint second = 1000000000"
  by (simp add: second_def)

lemma sint_millisecond [simp]: "sint millisecond = 1000000"
  by (simp add: millisecond_def)

lemma sint_times_second:
  assumes "\<bar>sint t\<bar> \<le> 9223372036"
  shows "sint (t * second) = sint t * 1000000000"
proof -
  have "fits_i64 (sint t * sint second)"
    using assms by (auto simp: fits_i64_def abs_le_iff)
  then show ?thesis by (simp add: sint_mult_fits)
qed

text \<open>The product of two int64 in general: the remainder of the exact one in the signed range.\<close>

definition wrap_i64 :: "int \<Rightarrow> int" where
  "wrap_i64 x = (x + 2 ^ 63) mod 2 ^ 64 - 2 ^ 63"

lemma sint_mult_wrap: "sint (a * b :: i64) = wrap_i64 (sint a * sint b)"
  by (simp add: wrap_i64_def sint_word_ariths signed_take_bit_eq_take_bit_shift take_bit_eq_mod)

lemma wrap_i64_fits: "fits_i64 x \<Longrightarrow> wrap_i64 x = x"
  by (simp add: wrap_i64_def fits_i64_def)

text \<open>\<^verbatim>\<open>d.Milliseconds()\<close> and \<^verbatim>\<open>int(d.Seconds())\<close> for a duration.\<close>

definition Milliseconds :: "duration \<Rightarrow> i64" where
  "Milliseconds d = word_of_int (go_quot (sint d) (sint millisecond))"

definition whole_seconds :: "duration \<Rightarrow> i64" where
  "whole_seconds d = word_of_int (go_quot (sint d) (sint second))"

text \<open>\<^verbatim>\<open>time.Since(start)\<close> at a clock reading, both in nanoseconds.\<close>

definition time_since :: "int \<Rightarrow> int \<Rightarrow> duration" where
  "time_since now start = sat_i64 (now - start)"

lemma div_le_self_int: "0 \<le> (a :: int) \<Longrightarrow> 0 < b \<Longrightarrow> a div b \<le> a"
  by (metis div_by_1 int_one_le_iff_zero_less zdiv_mono2 zero_less_one)

lemma Milliseconds_since_nonneg:
  assumes "start \<le> now"
  shows "0 \<le> sint (Milliseconds (time_since now start))"
proof -
  let ?d = "sint (time_since now start)"
  have d: "0 \<le> ?d" "?d \<le> 2 ^ 63 - 1"
    using assms by (auto simp: time_since_def sint_sat_i64)
  have q: "go_quot ?d 1000000 = ?d div 1000000"
    using d by (cases "?d = 0") (simp_all add: go_quot_def)
  have "0 \<le> ?d div 1000000" "?d div 1000000 \<le> ?d"
    using d(1) by (simp_all add: pos_imp_zdiv_nonneg_iff div_le_self_int)
  then have "fits_i64 (?d div 1000000)"
    using d(2) by (simp add: fits_i64_def)
  then show ?thesis
    using d by (simp add: Milliseconds_def q sint_word_of_int_fits)
qed

section \<open>Finite float64 values\<close>

text \<open>
  A finite float64 is \<open>mant * 2 ^ expo\<close> with a mantissa of at most 53 bits. A product is
  rounded to the nearest 53-bit mantissa, ties to even; overflow to infinity and subnormal
  results do not occur in the range the validator accepts and are left out.
\<close>

datatype f64 = F64 (mant: int) (expo: int)

definition f64_wf :: "f64 \<Rightarrow> bool" where
  "f64_wf x \<longleftrightarrow> \<bar>mant x\<bar> < 2 ^ 53"

fun f64_less :: "f64 \<Rightarrow> f64 \<Rightarrow> bool" where
  "f64_less (F64 m e) (F64 n f) \<longleftrightarrow>
     m * 2 ^ nat (e - min e f) < n * 2 ^ nat (f - min e f)"

definition f64_round :: "int \<Rightarrow> int \<Rightarrow> f64" where
  "f64_round m e =
     (let k = nat (bitlen \<bar>m\<bar> - 53);
          q = \<bar>m\<bar> div 2 ^ k;
          r = \<bar>m\<bar> mod 2 ^ k
      in if k = 0 then F64 m e
         else F64 (sgn m * (if 2 * r > 2 ^ k \<or> (2 * r = 2 ^ k \<and> odd q) then q + 1 else q))
                  (e + int k))"

fun f64_mult :: "f64 \<Rightarrow> f64 \<Rightarrow> f64" where
  "f64_mult (F64 m e) (F64 n f) = f64_round (m * n) (e + f)"

text \<open>The conversion \<^verbatim>\<open>int64(x)\<close>, which truncates towards zero.\<close>

fun f64_to_i64 :: "f64 \<Rightarrow> i64" where
  "f64_to_i64 (F64 m e) =
     word_of_int (if 0 \<le> e then m * 2 ^ nat e else sgn m * (\<bar>m\<bar> div 2 ^ nat (- e)))"

text \<open>The float64 constants \<^verbatim>\<open>0.1\<close>, \<^verbatim>\<open>1.0\<close>, \<^verbatim>\<open>4.0\<close> and \<^verbatim>\<open>1e9\<close>.\<close>

definition f64_0_1 :: f64 where
  "f64_0_1 = F64 3602879701896397 (-55)"

definition f64_1_0 :: f64 where
  "f64_1_0 = F64 1 0"

definition f64_4_0 :: f64 where
  "f64_4_0 = F64 4 0"

definition f64_1e9 :: f64 where
  "f64_1e9 = F64 1000000000 0"

lemma f64_0_1_scaled: "f64_to_i64 (f64_mult f64_0_1 f64_1e9) = 100000000"
  by code_simp

lemma f64_1_0_scaled: "f64_to_i64 (f64_mult f64_1_0 f64_1e9) = 1000000000"
  by code_simp

lemma f64_4_0_scaled: "f64_to_i64 (f64_mult f64_4_0 f64_1e9) = 4000000000"
  by code_simp

section \<open>Maps\<close>

text \<open>
  A Go map is a partial function. A \<^verbatim>\<open>range\<close> statement visits its keys in an order the
  language leaves open, which may differ from one statement to the next: the order is an
  argument, any list that holds each key once.
\<close>

definition iteration_order :: "('k \<rightharpoonup> 'v) \<Rightarrow> 'k list \<Rightarrow> bool" where
  "iteration_order m ks \<longleftrightarrow> distinct ks \<and> set ks = dom m"

definition range_map :: "('k \<rightharpoonup> 'v) \<Rightarrow> 'k list \<Rightarrow> ('k \<times> 'v) list" where
  "range_map m ks = List.map_filter (\<lambda>k. map_option (Pair k) (m k)) ks"

definition len_map :: "('k \<rightharpoonup> 'v) \<Rightarrow> nat" where
  "len_map m = card (dom m)"

lemma range_map_simps [simp]:
  "range_map m [] = []"
  "range_map m (k # ks) =
     (case m k of None \<Rightarrow> range_map m ks | Some v \<Rightarrow> (k, v) # range_map m ks)"
  by (auto simp: range_map_def map_filter_simps split: option.splits)

lemma set_range_map: "set (range_map m ks) = {(k, v). k \<in> set ks \<and> m k = Some v}"
  by (induction ks) (auto split: option.splits)

lemma set_range_map_order:
  "iteration_order m ks \<Longrightarrow> set (range_map m ks) = {(k, v). m k = Some v}"
  by (auto simp: set_range_map iteration_order_def)

lemma distinct_range_map: "distinct ks \<Longrightarrow> distinct (range_map m ks)"
  by (induction ks) (auto simp: set_range_map split: option.splits)

lemma length_range_map:
  assumes "iteration_order m ks"
  shows "length (range_map m ks) = len_map m"
proof -
  have "ks = map fst (range_map m ks)"
    using assms unfolding iteration_order_def
  proof -
    have "set ks \<subseteq> dom m \<Longrightarrow> ks = map fst (range_map m ks)"
      by (induction ks) (auto split: option.splits)
    then show ?thesis using assms by (simp add: iteration_order_def)
  qed
  then have "length (range_map m ks) = length ks" by (metis length_map)
  also have "\<dots> = card (dom m)"
    using assms by (metis iteration_order_def distinct_card)
  finally show ?thesis by (simp add: len_map_def)
qed

lemma iteration_order_empty [simp]: "iteration_order Map.empty ks \<longleftrightarrow> ks = []"
  by (auto simp: iteration_order_def)

lemma len_map_empty [simp]: "len_map Map.empty = 0"
  by (simp add: len_map_def)

section \<open>Decimal numbers\<close>

definition digit_char :: "nat \<Rightarrow> char" where
  "digit_char d = char_of (48 + d)"

fun show_nat :: "nat \<Rightarrow> string" where
  "show_nat n =
     (if n < 10 then [digit_char n] else show_nat (n div 10) @ [digit_char (n mod 10)])"

declare show_nat.simps [simp del]

definition show_int :: "int \<Rightarrow> string" where
  "show_int x = (if x < 0 then CHR ''-'' # show_nat (nat (- x)) else show_nat (nat x))"

definition digit_val :: "char \<Rightarrow> nat option" where
  "digit_val c = (let b = of_char c in if 48 \<le> b \<and> b \<le> 57 then Some (b - 48) else None)"

fun parse_digits :: "nat \<Rightarrow> string \<Rightarrow> nat option" where
  "parse_digits acc [] = Some acc"
| "parse_digits acc (c # cs) =
     (case digit_val c of None \<Rightarrow> None | Some d \<Rightarrow> parse_digits (acc * 10 + d) cs)"

definition parse_uint :: "string \<Rightarrow> nat option" where
  "parse_uint s = (if s = [] then None else parse_digits 0 s)"

text \<open>
  \<^verbatim>\<open>strconv.ParseInt(s, 10, 64)\<close>: an optional sign, at least one digit, nothing else,
  and a value in the int64 range. Every kind of error is \<open>None\<close>.
\<close>

definition ParseInt :: "string \<Rightarrow> i64 option" where
  "ParseInt s =
     (case s of
        [] \<Rightarrow> None
      | c # cs \<Rightarrow>
          (if c = CHR ''-''
           then (case parse_uint cs of
                   None \<Rightarrow> None
                 | Some n \<Rightarrow> if n > 2 ^ 63 then None else Some (word_of_int (- int n)))
           else (case parse_uint (if c = CHR ''+'' then cs else s) of
                   None \<Rightarrow> None
                 | Some n \<Rightarrow> if n \<ge> 2 ^ 63 then None else Some (word_of_int (int n)))))"

lemma digit_char_simps [simp]:
  "digit_char 0 = CHR ''0''" "digit_char (Suc 0) = CHR ''1''" "digit_char 1 = CHR ''1''"
  "digit_char 2 = CHR ''2''" "digit_char 3 = CHR ''3''" "digit_char 4 = CHR ''4''"
  "digit_char 5 = CHR ''5''" "digit_char 6 = CHR ''6''" "digit_char 7 = CHR ''7''"
  "digit_char 8 = CHR ''8''" "digit_char 9 = CHR ''9''"
  by code_simp+

lemma digit_val_digit_char: "d < 10 \<Longrightarrow> digit_val (digit_char d) = Some d"
  by (simp add: digit_val_def digit_char_def)

lemma parse_digits_append:
  "parse_digits acc (s @ t) =
     (case parse_digits acc s of None \<Rightarrow> None | Some n \<Rightarrow> parse_digits n t)"
  by (induction s arbitrary: acc) (auto split: option.splits)

lemma show_nat_nonempty [simp]: "show_nat n \<noteq> []"
  by (subst show_nat.simps) simp

lemma parse_digits_show_nat: "parse_digits 0 (show_nat n) = Some n"
proof (induction n rule: show_nat.induct)
  case (1 n)
  show ?case
  proof (cases "n < 10")
    case True
    then show ?thesis by (subst show_nat.simps) (simp add: digit_val_digit_char)
  next
    case False
    with 1 show ?thesis
      by (subst show_nat.simps) (simp add: digit_val_digit_char parse_digits_append)
  qed
qed

lemma parse_uint_show_nat [simp]: "parse_uint (show_nat n) = Some n"
  by (simp add: parse_uint_def parse_digits_show_nat)

lemma digit_char_neq_sign:
  "d < 10 \<Longrightarrow> digit_char d \<noteq> CHR ''-'' \<and> digit_char d \<noteq> CHR ''+''"
  using digit_val_digit_char [of d] by (auto simp: digit_val_def)

lemma hd_show_nat: "\<exists>d cs. d < 10 \<and> show_nat n = digit_char d # cs"
proof (induction n rule: show_nat.induct)
  case (1 n)
  show ?case
  proof (cases "n < 10")
    case True
    then show ?thesis by (subst show_nat.simps) auto
  next
    case False
    with 1 show ?thesis by (subst show_nat.simps) auto
  qed
qed

lemma ParseInt_show_int:
  assumes "fits_i64 x"
  shows "ParseInt (show_int x) = Some (word_of_int x)"
proof (cases "x < 0")
  case True
  then have "\<not> nat (- x) > 2 ^ 63"
    using assms by (simp add: fits_i64_def)
  with True show ?thesis by (simp add: ParseInt_def show_int_def)
next
  case False
  then have lt: "\<not> 2 ^ 63 \<le> nat x"
    using assms by (simp add: fits_i64_def)
  obtain d cs where d: "d < 10" "show_nat (nat x) = digit_char d # cs"
    using hd_show_nat by blast
  have "parse_uint (digit_char d # cs) = Some (nat x)"
    using d parse_uint_show_nat by metis
  with False d lt digit_char_neq_sign [OF d(1)] show ?thesis
    by (simp add: ParseInt_def show_int_def)
qed

section \<open>Printing a duration\<close>

text \<open>
  \<^verbatim>\<open>time.Duration.String\<close>, the verb \<^verbatim>\<open>%v\<close>: the fraction loses its trailing zeros, durations
  below a second use a smaller unit.
\<close>

definition frac_digits :: "nat \<Rightarrow> nat \<Rightarrow> string" where
  "frac_digits prec v =
     (let ds = map (\<lambda>i. digit_char (v div 10 ^ (prec - Suc i) mod 10)) [0..<prec];
          kept = rev (dropWhile (\<lambda>c. c = CHR ''0'') (rev ds))
      in if kept = [] then [] else CHR ''.'' # kept)"

definition duration_body :: "nat \<Rightarrow> string" where
  "duration_body u =
     (if u = 0 then ''0s''
      else if u < 1000 then show_nat u @ ''ns''
      else if u < 1000000
      then show_nat (u div 1000) @ frac_digits 3 u @ map char_of [0xC2 :: nat, 0xB5] @ ''s''
      else if u < 1000000000 then show_nat (u div 1000000) @ frac_digits 6 u @ ''ms''
      else (let sec = u div 1000000000; m = sec div 60; h = m div 60 in
            (if h > 0 then show_nat h @ ''h'' else [])
            @ (if m > 0 then show_nat (m mod 60) @ ''m'' else [])
            @ show_nat (sec mod 60) @ frac_digits 9 u @ ''s''))"

definition Duration_String :: "duration \<Rightarrow> string" where
  "Duration_String d =
     (if sint d < 0 then CHR ''-'' # duration_body (nat (- sint d)) else duration_body (nat (sint d)))"

lemma duration_body_120s: "duration_body 120000000000 = ''2m0s''"
  by (simp add: duration_body_def frac_digits_def Let_def show_nat.simps upt_rec)

lemma Duration_String_120s: "Duration_String (120 * second) = ''2m0s''"
  using duration_body_120s by (simp add: Duration_String_def second_def)

end
