(* ===== verification/Go_Strings.thy ===== *)
theory Go_Strings
  imports Go_Base "HOL-Library.Sublist"
begin

text \<open>
  The functions of Go's \<^verbatim>\<open>strings\<close>, \<^verbatim>\<open>strconv\<close> and \<^verbatim>\<open>fmt\<close> packages that the worker
  calls, on byte strings. Two tables of the Unicode standard are the only part that is not
  written out: which runes above 7F print, and the case-folding orbit of a rune above 7F;
  they are the fields of the record \<open>unicode\<close>, an argument of what depends on them.
\<close>

section \<open>Searching and splitting\<close>

text \<open>\<^verbatim>\<open>strings.Index\<close> and \<^verbatim>\<open>strings.LastIndex\<close> of one byte, \<open>-1\<close> when it is absent.\<close>

fun Index :: "string \<Rightarrow> char \<Rightarrow> int" where
  "Index [] c = -1"
| "Index (x # s) c = (if x = c then 0 else let i = Index s c in if i = -1 then -1 else i + 1)"

fun LastIndex :: "string \<Rightarrow> char \<Rightarrow> int" where
  "LastIndex [] c = -1"
| "LastIndex (x # s) c =
     (let i = LastIndex s c in if i \<noteq> -1 then i + 1 else if x = c then 0 else -1)"

text \<open>\<^verbatim>\<open>strings.Split\<close> at a one-byte separator: never empty.\<close>

fun Split :: "string \<Rightarrow> char \<Rightarrow> string list" where
  "Split [] c = [[]]"
| "Split (x # s) c =
     (if x = c then [] # Split s c
      else (case Split s c of [] \<Rightarrow> [[x]] | p # ps \<Rightarrow> (x # p) # ps))"

text \<open>\<^verbatim>\<open>strings.Contains\<close>.\<close>

fun Contains :: "string \<Rightarrow> string \<Rightarrow> bool" where
  "Contains [] t = (t = [])"
| "Contains (x # s) t = (prefix t (x # s) \<or> Contains s t)"

declare Contains.simps [simp del]

text \<open>
  \<^verbatim>\<open>strings.ReplaceAll\<close>: left to right, matches do not overlap. An empty pattern is never
  passed (\<open>RedactSecrets\<close> skips it); the guard below only makes the recursion total.
\<close>

function ReplaceAll :: "string \<Rightarrow> string \<Rightarrow> string \<Rightarrow> string" where
  "ReplaceAll s old new =
     (if old = [] \<or> s = [] then s
      else if prefix old s then new @ ReplaceAll (drop (length old) s) old new
      else hd s # ReplaceAll (tl s) old new)"
  by pat_completeness auto
termination
  by (relation "measure (\<lambda>(s, old, new). length s)") auto

declare ReplaceAll.simps [simp del]

lemma Index_ge: "Index s c \<noteq> -1 \<Longrightarrow> 0 \<le> Index s c"
  by (induction s) (auto simp: Let_def split: if_splits)

lemma Index_absent_iff: "Index s c = -1 \<longleftrightarrow> c \<notin> set s"
proof (induction s)
  case (Cons x s)
  with Index_ge [of s c] show ?case by (auto simp: Let_def)
qed simp

lemma LastIndex_absent_iff: "LastIndex s c = -1 \<longleftrightarrow> c \<notin> set s"
  and LastIndex_ge: "-1 \<le> LastIndex s c"
  by (induction s) (auto simp: Let_def)

lemma take_Index:
  "Index s c \<noteq> -1 \<Longrightarrow> take (nat (Index s c)) s = takeWhile (\<lambda>x. x \<noteq> c) s"
proof (induction s)
  case (Cons x s)
  show ?case
  proof (cases "x = c")
    case False
    with Cons.prems have "Index s c \<noteq> -1" by (auto simp: Let_def split: if_splits)
    with False Cons.IH Index_ge [of s c] show ?thesis
      by (auto simp: Let_def nat_add_distrib)
  qed simp
qed simp

lemma LastIndex_append:
  "LastIndex (s @ t) c =
     (if c \<in> set t then int (length s) + LastIndex t c else LastIndex s c)"
  using LastIndex_absent_iff
  by (induction s) (auto simp: Let_def LastIndex_absent_iff split: if_splits)

lemma LastIndex_less: "LastIndex s c < int (length s)"
  by (induction s) (auto simp: Let_def)

lemma Split_nonempty [simp]: "Split s c \<noteq> []"
  by (induction s) (auto split: list.splits)

lemma hd_Split: "hd (Split s c) = takeWhile (\<lambda>x. x \<noteq> c) s"
  by (induction s) (auto split: list.splits)

lemma Split_single_iff: "length (Split s c) = 1 \<longleftrightarrow> c \<notin> set s"
proof (induction s)
  case (Cons x s)
  have "Split s c \<noteq> []" by simp
  then obtain p ps where "Split s c = p # ps" by (cases "Split s c") auto
  with Cons show ?case by auto
qed simp

lemma Split_pieces: "p \<in> set (Split s c) \<Longrightarrow> c \<notin> set p"
proof (induction s arbitrary: p)
  case (Cons x s)
  obtain q qs where "Split s c = q # qs"
    using Split_nonempty by (cases "Split s c") auto
  with Cons show ?case by (auto split: if_splits)
qed simp

lemma Split_absent: "c \<notin> set s \<Longrightarrow> Split s c = [s]"
  by (induction s) auto

lemma Contains_iff [go_str]: "Contains s t \<longleftrightarrow> sublist t s"
  by (induction s) (auto simp: sublist_Cons_right Contains.simps)

section \<open>UTF-8\<close>

abbreviation byte :: "char \<Rightarrow> nat" where
  "byte c \<equiv> of_char c"

definition cont_in :: "nat \<Rightarrow> nat \<Rightarrow> char \<Rightarrow> bool" where
  "cont_in lo hi c \<longleftrightarrow> lo \<le> byte c \<and> byte c \<le> hi"

definition rune_error :: nat where
  "rune_error = 0xFFFD"

text \<open>\<^verbatim>\<open>utf8.DecodeRuneInString\<close>: the rune and its width; an invalid byte has width 1.\<close>

definition DecodeRune :: "string \<Rightarrow> nat \<times> nat" where
  "DecodeRune s =
     (case s of
        [] \<Rightarrow> (rune_error, 0)
      | c0 # r \<Rightarrow>
          (let b = byte c0; bad = (rune_error, 1) in
           if b < 0x80 then (b, 1)
           else if 0xC2 \<le> b \<and> b \<le> 0xDF then
             (case r of
                c1 # _ \<Rightarrow> if cont_in 0x80 0xBF c1
                           then ((b - 0xC0) * 64 + (byte c1 - 0x80), 2) else bad
              | _ \<Rightarrow> bad)
           else if 0xE0 \<le> b \<and> b \<le> 0xEF then
             (case r of
                c1 # c2 # _ \<Rightarrow>
                  if cont_in (if b = 0xE0 then 0xA0 else 0x80) (if b = 0xED then 0x9F else 0xBF) c1
                     \<and> cont_in 0x80 0xBF c2
                  then ((b - 0xE0) * 4096 + (byte c1 - 0x80) * 64 + (byte c2 - 0x80), 3)
                  else bad
              | _ \<Rightarrow> bad)
           else if 0xF0 \<le> b \<and> b \<le> 0xF4 then
             (case r of
                c1 # c2 # c3 # _ \<Rightarrow>
                  if cont_in (if b = 0xF0 then 0x90 else 0x80) (if b = 0xF4 then 0x8F else 0xBF) c1
                     \<and> cont_in 0x80 0xBF c2 \<and> cont_in 0x80 0xBF c3
                  then ((b - 0xF0) * 262144 + (byte c1 - 0x80) * 4096
                          + (byte c2 - 0x80) * 64 + (byte c3 - 0x80), 4)
                  else bad
              | _ \<Rightarrow> bad)
           else bad))"

lemma DecodeRune_width: "s \<noteq> [] \<Longrightarrow> 0 < snd (DecodeRune s)"
  by (auto simp: DecodeRune_def Let_def split: list.splits)

lemma DecodeRune_ascii: "byte c < 0x80 \<Longrightarrow> DecodeRune (c # s) = (byte c, 1)"
  by (simp add: DecodeRune_def)

text \<open>The runes a \<^verbatim>\<open>range\<close> over a string visits.\<close>

function runes :: "string \<Rightarrow> nat list" where
  "runes s =
     (if s = [] then []
      else fst (DecodeRune s) # runes (drop (snd (DecodeRune s)) s))"
  by pat_completeness auto
termination
  by (relation "measure length") (auto simp: DecodeRune_width)

declare runes.simps [simp del]

lemma runes_Nil [simp]: "runes [] = []"
  by (subst runes.simps) simp

lemma runes_ascii: "byte c < 0x80 \<Longrightarrow> runes (c # s) = byte c # runes s"
  by (subst runes.simps) (simp add: DecodeRune_ascii)

section \<open>Case folding and quoting\<close>

record unicode =
  uc_print :: "nat \<Rightarrow> bool"  \<comment> \<open>\<^verbatim>\<open>strconv.IsPrint\<close> above 7F\<close>
  uc_fold :: "nat \<Rightarrow> nat"  \<comment> \<open>the representative of a rune's case-folding orbit, above 7F\<close>

text \<open>An instance for evaluation: nothing above 7F prints, and only equal runes fold together.\<close>

definition plain_unicode :: unicode where
  "plain_unicode = \<lparr>uc_print = (\<lambda>_. False), uc_fold = (\<lambda>r. r)\<rparr>"

definition fold_rune :: "unicode \<Rightarrow> nat \<Rightarrow> nat" where
  "fold_rune uc r =
     (if r < 0x80 then (if 65 \<le> r \<and> r \<le> 90 then r + 32 else r) else uc_fold uc r)"

text \<open>\<^verbatim>\<open>strings.EqualFold\<close>.\<close>

definition EqualFold :: "unicode \<Rightarrow> string \<Rightarrow> string \<Rightarrow> bool" where
  "EqualFold uc s t \<longleftrightarrow> map (fold_rune uc) (runes s) = map (fold_rune uc) (runes t)"

lemma EqualFold_refl [simp]: "EqualFold uc s s"
  by (simp add: EqualFold_def)

lemma EqualFold_sym: "EqualFold uc s t \<Longrightarrow> EqualFold uc t s"
  by (simp add: EqualFold_def)

lemma EqualFold_trans: "EqualFold uc s t \<Longrightarrow> EqualFold uc t u \<Longrightarrow> EqualFold uc s u"
  by (simp add: EqualFold_def)

definition hex_char :: "nat \<Rightarrow> char" where
  "hex_char d = (if d < 10 then char_of (48 + d) else char_of (87 + d))"

text \<open>The last \<open>n\<close> lower-case hexadecimal digits of a number.\<close>

fun hex_digits :: "nat \<Rightarrow> nat \<Rightarrow> string" where
  "hex_digits 0 x = []"
| "hex_digits (Suc n) x = hex_digits n (x div 16) @ [hex_char (x mod 16)]"

definition IsPrint :: "unicode \<Rightarrow> nat \<Rightarrow> bool" where
  "IsPrint uc r = (if r < 0x80 then 0x20 \<le> r \<and> r < 0x7F else uc_print uc r)"

definition backslash :: char where
  "backslash = CHR 0x5C"

definition dquote :: char where
  "dquote = CHR 0x22"

text \<open>One rune of \<^verbatim>\<open>strconv.Quote\<close>; \<open>raw\<close> is the rune's own bytes.\<close>

definition quote_rune :: "unicode \<Rightarrow> nat \<Rightarrow> string \<Rightarrow> string" where
  "quote_rune uc r raw =
     (if r = byte dquote \<or> r = byte backslash then backslash # raw
      else if IsPrint uc r then raw
      else if r = 7 then backslash # ''a''
      else if r = 8 then backslash # ''b''
      else if r = 12 then backslash # ''f''
      else if r = 10 then backslash # ''n''
      else if r = 13 then backslash # ''r''
      else if r = 9 then backslash # ''t''
      else if r = 11 then backslash # ''v''
      else if r < 0x20 \<or> r = 0x7F then backslash # CHR ''x'' # hex_digits 2 r
      else if r < 0x10000 then backslash # CHR ''u'' # hex_digits 4 r
      else backslash # CHR ''U'' # hex_digits 8 r)"

function quote_body :: "unicode \<Rightarrow> string \<Rightarrow> string" where
  "quote_body uc s =
     (if s = [] then []
      else let (r, w) = DecodeRune s in
           (if w = 1 \<and> r = rune_error
            then backslash # CHR ''x'' # hex_digits 2 (byte (hd s))
            else quote_rune uc r (take w s))
           @ quote_body uc (drop w s))"
  by pat_completeness auto
termination
proof (relation "measure (\<lambda>(uc, s). length s)")
  fix uc :: unicode and s x xa y
  assume "s \<noteq> []" and "x = DecodeRune s" and "(xa, y) = x"
  then show "((uc, drop y s), (uc, s)) \<in> measure (\<lambda>(uc, s). length s)"
    using DecodeRune_width [of s] by (cases s) (auto simp: prod_eq_iff dest: sym)
qed simp

declare quote_body.simps [simp del]

text \<open>\<^verbatim>\<open>strconv.Quote\<close>, the verb \<^verbatim>\<open>%q\<close>.\<close>

definition quote :: "unicode \<Rightarrow> string \<Rightarrow> string" where
  "quote uc s = dquote # quote_body uc s @ [dquote]"

section \<open>TrimSpace\<close>

text \<open>The UTF-8 encodings of the runes \<^verbatim>\<open>unicode.IsSpace\<close> accepts.\<close>

definition space_encodings :: "string list" where
  "space_encodings =
     map (map char_of)
       ([[9 :: nat], [10], [11], [12], [13], [32], [0xC2, 0x85], [0xC2, 0xA0],
         [0xE1, 0x9A, 0x80], [0xE2, 0x80, 0xA8], [0xE2, 0x80, 0xA9], [0xE2, 0x80, 0xAF],
         [0xE2, 0x81, 0x9F], [0xE3, 0x80, 0x80]]
        @ map (\<lambda>k. [0xE2, 0x80, 0x80 + k]) [0..<11])"

text \<open>Removes leading pieces of \<open>encs\<close> as long as there is one.\<close>

function strip :: "string list \<Rightarrow> string \<Rightarrow> string" where
  "strip encs s =
     (case List.find (\<lambda>e. e \<noteq> [] \<and> prefix e s) encs of
        None \<Rightarrow> s
      | Some e \<Rightarrow> strip encs (drop (length e) s))"
  by pat_completeness auto
termination
proof (relation "measure (\<lambda>(encs, s). length s)")
  fix encs :: "string list" and s e
  assume "List.find (\<lambda>e. e \<noteq> [] \<and> prefix e s) encs = Some e"
  then have "e \<noteq> [] \<and> prefix e s" by (auto simp: find_Some_iff)
  then show "((encs, drop (length e) s), (encs, s)) \<in> measure (\<lambda>(encs, s). length s)"
    by (auto simp: prefix_def)
qed simp

declare strip.simps [simp del]

definition TrimSpace :: "string \<Rightarrow> string" where
  "TrimSpace s = rev (strip (map rev space_encodings) (rev (strip space_encodings s)))"

lemma strip_done: "e \<in> set encs \<Longrightarrow> e \<noteq> [] \<Longrightarrow> \<not> prefix e (strip encs s)"
proof (induction encs s rule: strip.induct)
  case (1 encs s)
  show ?case
  proof (cases "List.find (\<lambda>e. e \<noteq> [] \<and> prefix e s) encs")
    case None
    then have "\<not> prefix e s" using "1.prems" by (auto simp: find_None_iff)
    with None show ?thesis by (subst strip.simps) simp
  next
    case (Some e')
    with 1 show ?thesis by (subst strip.simps) simp
  qed
qed

lemma strip_suffix: "suffix (strip encs s) s"
proof (induction encs s rule: strip.induct)
  case (1 encs s)
  show ?case
  proof (cases "List.find (\<lambda>e. e \<noteq> [] \<and> prefix e s) encs")
    case None
    then show ?thesis by (subst strip.simps) simp
  next
    case (Some e)
    with 1 have "suffix (strip encs (drop (length e) s)) (drop (length e) s)" by blast
    then have "suffix (strip encs (drop (length e) s)) s"
      by (meson suffix_drop suffix_order.trans)
    with Some show ?thesis by (subst strip.simps) simp
  qed
qed

lemma space_encodings_nonempty: "e \<in> set space_encodings \<Longrightarrow> e \<noteq> []"
  by (auto simp: space_encodings_def)

lemma TrimSpace_no_trailing:
  assumes "e \<in> set space_encodings"
  shows "\<not> suffix e (TrimSpace s)"
proof -
  let ?t = "strip (map rev space_encodings) (rev (strip space_encodings s))"
  have "\<not> prefix (rev e) ?t"
    using assms space_encodings_nonempty by (intro strip_done) auto
  then show ?thesis by (simp add: TrimSpace_def suffix_to_prefix)
qed

lemma TrimSpace_sublist: "sublist (TrimSpace s) s"
proof -
  let ?u = "strip space_encodings s"
  have "suffix (strip (map rev space_encodings) (rev ?u)) (rev ?u)" by (rule strip_suffix)
  then have "prefix (TrimSpace s) ?u"
    by (simp add: TrimSpace_def suffix_to_prefix)
  moreover have "suffix ?u s" by (rule strip_suffix)
  ultimately show ?thesis
    by (meson prefix_imp_sublist sublist_order.order_trans suffix_imp_sublist)
qed

lemma TrimSpace_no_leading:
  assumes "e \<in> set space_encodings"
  shows "\<not> prefix e (TrimSpace s)"
proof
  let ?u = "strip space_encodings s"
  assume "prefix e (TrimSpace s)"
  moreover have "prefix (TrimSpace s) ?u"
    using strip_suffix [of "map rev space_encodings" "rev ?u"]
    by (simp add: TrimSpace_def suffix_to_prefix)
  ultimately have "prefix e ?u" by (rule prefix_order.trans)
  moreover have "\<not> prefix e ?u"
    using assms space_encodings_nonempty by (intro strip_done)
  ultimately show False by contradiction
qed

end
