(* ===== verification/Job_Types.thy ===== *)
theory Job_Types
  imports Go_Strings
begin

text \<open>
  The data the components exchange: \<^verbatim>\<open>pkg/executor/types.go\<close>, \<^verbatim>\<open>pkg/runtime/types.go\<close>,
  \<^verbatim>\<open>pkg/validator/types.go\<close>, \<^verbatim>\<open>pkg/stream/types.go\<close> and \<^verbatim>\<open>pkg/health/types.go\<close>. A pointer
  field that may be nil is an option, a Go map a partial function, an \<^verbatim>\<open>int\<close> (64 bits on
  the targets of the Dockerfile) a 64-bit word.
\<close>

section \<open>Requests and results (pkg/executor/types.go)\<close>

record Secret =
  sec_Name :: string
  sec_Value :: string
  sec_FilePath :: "string option"

record RegistryAuth =
  auth_Username :: string
  auth_Password :: string

record JobRequest =
  req_Image :: string
  req_Command :: string
  req_Env :: "string \<rightharpoonup> string"
  req_Secrets :: "Secret list"
  req_TimeoutSeconds :: "i64 option"
  req_CPULimit :: "f64 option"
  req_MemoryLimitMB :: "i64 option"
  req_NetworkAccess :: bool
  req_StreamLogs :: bool
  req_RegistryAuth :: "RegistryAuth option"

record ExecutionResult =
  res_JobID :: string
  res_Status :: string
  res_ExitCode :: "i64 option"
  res_Stdout :: string
  res_Stderr :: string
  res_StdoutTruncated :: bool
  res_StderrTruncated :: bool
  res_DurationMs :: i64
  res_Error :: string

text \<open>The zero value of a struct literal that names only some fields.\<close>

definition zero_result :: ExecutionResult where
  "zero_result = \<lparr>res_JobID = [], res_Status = [], res_ExitCode = None, res_Stdout = [],
     res_Stderr = [], res_StdoutTruncated = False, res_StderrTruncated = False,
     res_DurationMs = 0, res_Error = []\<rparr>"

section \<open>Container configuration (pkg/runtime/types.go)\<close>

record Mount =
  mnt_Source :: string
  mnt_Target :: string
  mnt_ReadOnly :: bool

record ContainerConfig =
  cc_Image :: string
  cc_Command :: "string list"
  cc_Env :: "string list"
  cc_CPULimit :: f64
  cc_MemoryLimit :: i64
  cc_NetworkOff :: bool
  cc_ReadOnlyFS :: bool
  cc_User :: string
  cc_CapDrop :: "string list"
  cc_Mounts :: "Mount list"

text \<open>\<^verbatim>\<open>runtime.RegistryAuth\<close> has the same two fields as the executor's type.\<close>

record RuntimeAuth =
  rauth_Username :: string
  rauth_Password :: string

section \<open>Validation errors, log lines and status replies\<close>

record ValidationError =
  ve_Field :: string
  ve_Message :: string

record LogLine =
  ll_Timestamp :: int
  ll_Stream :: string
  ll_Data :: string

record HealthStatus =
  hs_Status :: string
  hs_Runtime :: string

record ReadinessStatus =
  rs_Status :: string
  rs_JobID :: string

text \<open>A small valid request, used to evaluate the definitions on concrete inputs.\<close>

definition sample_request :: JobRequest where
  "sample_request = \<lparr>req_Image = ''alpine'', req_Command = ''echo hi'', req_Env = Map.empty,
     req_Secrets = [], req_TimeoutSeconds = Some 30, req_CPULimit = None,
     req_MemoryLimitMB = Some 64, req_NetworkAccess = False, req_StreamLogs = True,
     req_RegistryAuth = None\<rparr>"

end
