(* ===== verification/Validator.thy ===== *)
theory Validator
  imports Job_Types
begin

text \<open>
  \<^verbatim>\<open>pkg/validator/validator.go\<close>: the checks on a job request, one definition per block of
  \<open>ValidateJobRequest\<close> in the code's order, each the list of errors the block appends. The
  bounds are the constants of lines 11 to 25.
\<close>

section \<open>Constants\<close>

definition maxImageLen :: nat where "maxImageLen = 512"
definition maxCommandLen :: nat where "maxCommandLen = 1024"
definition maxEnvVars :: nat where "maxEnvVars = 64"
definition maxEnvKeyLen :: nat where "maxEnvKeyLen = 256"
definition maxEnvValueLen :: nat where "maxEnvValueLen = 4096"
definition minTimeout :: i64 where "minTimeout = 1"
definition maxTimeout :: i64 where "maxTimeout = 3600"
definition minCPU :: f64 where "minCPU = f64_0_1"
definition maxCPU :: f64 where "maxCPU = f64_4_0"
definition minMemoryMB :: i64 where "minMemoryMB = 16"
definition maxMemoryMB :: i64 where "maxMemoryMB = 8192"
definition maxSecrets :: nat where "maxSecrets = 64"
definition maxSecretValue :: nat where "maxSecretValue = 65536"

lemmas validator_consts =
  maxImageLen_def maxCommandLen_def maxEnvVars_def maxEnvKeyLen_def maxEnvValueLen_def
  minTimeout_def maxTimeout_def minCPU_def maxCPU_def minMemoryMB_def maxMemoryMB_def
  maxSecrets_def maxSecretValue_def

abbreviation verr :: "string \<Rightarrow> string \<Rightarrow> ValidationError" where
  "verr f m \<equiv> \<lparr>ve_Field = f, ve_Message = m\<rparr>"

section \<open>Secret names\<close>

text \<open>
  The regular expression of line 29 as data: a character class, concatenation and a bounded
  repetition, matched greedily or not from the start of the text; \<open>rx_rests r s\<close> lists what
  each match leaves over. The final \<^verbatim>\<open>$\<close>, without the flag \<^verbatim>\<open>m\<close>, wants nothing left.
\<close>

datatype rx = RxClass "char \<Rightarrow> bool" | RxSeq rx rx | RxRep rx nat nat

fun rx_rests :: "rx \<Rightarrow> string \<Rightarrow> string list"
and rx_rep :: "rx \<Rightarrow> nat \<Rightarrow> nat \<Rightarrow> string \<Rightarrow> string list" where
  "rx_rests (RxClass p) [] = []"
| "rx_rests (RxClass p) (c # s) = (if p c then [s] else [])"
| "rx_rests (RxSeq r q) s = concat (map (rx_rests q) (rx_rests r s))"
| "rx_rests (RxRep r lo hi) s = rx_rep r lo hi s"
| "rx_rep r lo 0 s = (if lo = 0 then [s] else [])"
| "rx_rep r lo (Suc hi) s =
     (if lo = 0 then [s] else []) @ concat (map (rx_rep r (lo - 1) hi) (rx_rests r s))"

definition upper_or_underscore :: "char \<Rightarrow> bool" where
  "upper_or_underscore c \<longleftrightarrow> (65 \<le> byte c \<and> byte c \<le> 90) \<or> c = CHR ''_''"

definition upper_digit_underscore :: "char \<Rightarrow> bool" where
  "upper_digit_underscore c \<longleftrightarrow> upper_or_underscore c \<or> (48 \<le> byte c \<and> byte c \<le> 57)"

definition secretNameRegex :: rx where
  "secretNameRegex =
     RxSeq (RxClass upper_or_underscore) (RxRep (RxClass upper_digit_underscore) 0 255)"

definition MatchString :: "rx \<Rightarrow> string \<Rightarrow> bool" where
  "MatchString r s \<longleftrightarrow> [] \<in> set (rx_rests r s)"

definition ValidateSecretName :: "unicode \<Rightarrow> string \<Rightarrow> go_error option" where
  "ValidateSecretName uc name =
     (if \<not> MatchString secretNameRegex name
      then Some (''secret name '' @ quote uc name
                   @ '' must match pattern ^[A-Z_][A-Z0-9_]{0,255}$'')
      else None)"

text \<open>What the documentation promises of a name.\<close>

definition valid_secret_name :: "string \<Rightarrow> bool" where
  "valid_secret_name s \<longleftrightarrow>
     s \<noteq> [] \<and> length s \<le> 256 \<and> upper_or_underscore (hd s)
       \<and> list_all upper_digit_underscore (tl s)"

lemma rx_rep_class:
  "[] \<in> set (rx_rep (RxClass p) 0 n s) \<longleftrightarrow> length s \<le> n \<and> list_all p s"
proof (induction n arbitrary: s)
  case 0
  then show ?case by auto
next
  case (Suc n)
  then show ?case by (cases s) auto
qed

lemma MatchString_secretNameRegex: "MatchString secretNameRegex s \<longleftrightarrow> valid_secret_name s"
  by (cases s) (auto simp: MatchString_def secretNameRegex_def valid_secret_name_def rx_rep_class)

lemma ValidateSecretName_None_iff: "ValidateSecretName uc s = None \<longleftrightarrow> valid_secret_name s"
  by (simp add: ValidateSecretName_def MatchString_secretNameRegex)

section \<open>Registries\<close>

definition docker_io :: string where
  "docker_io = ''docker.io''"

text \<open>Lines 148 to 157: the digest and the tag removed.\<close>

definition strip_digest :: "string \<Rightarrow> string" where
  "strip_digest img =
     (let atIdx = Index img (CHR ''@'') in
      if atIdx \<noteq> -1 then take (nat atIdx) img else img)"

definition strip_tag :: "string \<Rightarrow> string" where
  "strip_tag ref =
     (let colonIdx = LastIndex ref (CHR '':'') in
      if colonIdx \<noteq> -1
      then (let slashIdx = LastIndex ref (CHR ''/'') in
            if colonIdx > slashIdx then take (nat colonIdx) ref else ref)
      else ref)"

definition extractRegistry :: "string \<Rightarrow> string" where
  "extractRegistry img =
     (let ref = strip_tag (strip_digest img);
          parts = Split ref (CHR ''/'')
      in if length parts = 1 then docker_io
         else (let first = hd parts in
               if Contains first ''.'' \<or> Contains first '':'' \<or> first = ''localhost''
               then first else docker_io))"

definition isRegistryWhitelisted :: "unicode \<Rightarrow> string \<Rightarrow> string list \<Rightarrow> bool" where
  "isRegistryWhitelisted uc registry whitelist =
     list_ex (\<lambda>allowed. EqualFold uc registry allowed) whitelist"

text \<open>The registry of a reference without any stripping of tags.\<close>

definition registry_like :: "string \<Rightarrow> bool" where
  "registry_like first \<longleftrightarrow> CHR ''.'' \<in> set first \<or> CHR '':'' \<in> set first \<or> first = ''localhost''"

definition registry_of :: "string \<Rightarrow> string" where
  "registry_of img =
     (let ref = takeWhile (\<lambda>c. c \<noteq> CHR ''@'') img;
          first = takeWhile (\<lambda>c. c \<noteq> CHR ''/'') ref
      in if CHR ''/'' \<in> set ref \<and> registry_like first then first else docker_io)"

lemma strip_digest_takeWhile: "strip_digest img = takeWhile (\<lambda>c. c \<noteq> CHR ''@'') img"
proof (cases "Index img (CHR ''@'') = -1")
  case True
  then have t: "takeWhile (\<lambda>c. c \<noteq> CHR ''@'') img = img"
    unfolding Index_absent_iff by (auto simp: takeWhile_eq_all_conv)
  show ?thesis unfolding t by (simp add: strip_digest_def True)
qed (simp add: strip_digest_def take_Index)

text \<open>A tag lies behind the last slash, so removing it keeps the first path component.\<close>

lemma strip_tag_split:
  assumes "CHR ''/'' \<in> set ref"
  shows "CHR ''/'' \<in> set (strip_tag ref)"
    and "takeWhile (\<lambda>c. c \<noteq> CHR ''/'') (strip_tag ref) = takeWhile (\<lambda>c. c \<noteq> CHR ''/'') ref"
proof -
  obtain a b where ab: "ref = a @ CHR ''/'' # b" "CHR ''/'' \<notin> set a"
    using split_list_first [OF assms] by blast
  have slash: "int (length a) \<le> LastIndex ref (CHR ''/'')"
    using LastIndex_append [of a "CHR ''/'' # b" "CHR ''/''"]
      LastIndex_ge [of b "CHR ''/''"] LastIndex_absent_iff [of b "CHR ''/''"]
    by (auto simp: ab Let_def)
  show "CHR ''/'' \<in> set (strip_tag ref)"
    and "takeWhile (\<lambda>c. c \<noteq> CHR ''/'') (strip_tag ref) = takeWhile (\<lambda>c. c \<noteq> CHR ''/'') ref"
  proof (atomize (full), cases "strip_tag ref = ref")
    case False
    then obtain i where i: "strip_tag ref = take (nat i) ref" "int (length a) < i"
      using slash by (auto simp: strip_tag_def Let_def split: if_splits)
    define n where "n = nat i - length a"
    have "nat i = length a + n" "0 < n" using i(2) by (auto simp: n_def)
    then obtain m where "strip_tag ref = a @ CHR ''/'' # take m b"
      using i(1) by (cases n) (auto simp: ab)
    with ab show "CHR ''/'' \<in> set (strip_tag ref)
      \<and> takeWhile (\<lambda>c. c \<noteq> CHR ''/'') (strip_tag ref) = takeWhile (\<lambda>c. c \<noteq> CHR ''/'') ref"
      by (auto simp: takeWhile_append)
  qed (use assms in simp)
qed

lemma strip_tag_set: "set (strip_tag ref) \<subseteq> set ref"
  by (auto simp: strip_tag_def Let_def dest: in_set_takeD)

lemma Contains_char [simp]: "Contains s [c] \<longleftrightarrow> c \<in> set s"
proof
  assume "Contains s [c]"
  then show "c \<in> set s" by (auto simp: Contains_iff sublist_def)
next
  assume "c \<in> set s"
  then show "Contains s [c]"
    by (auto simp: Contains_iff sublist_def dest!: split_list intro: exI)
qed

lemma extractRegistry_eq: "extractRegistry img = registry_of img"
proof -
  let ?r = "strip_digest img"
  show ?thesis
  proof (cases "CHR ''/'' \<in> set ?r")
    case True
    note st = strip_tag_split [OF True]
    have "length (Split (strip_tag ?r) (CHR ''/'')) \<noteq> 1"
      using st(1) Split_single_iff by blast
    then show ?thesis
      using True st(2)
      by (simp add: extractRegistry_def registry_of_def registry_like_def Let_def hd_Split
          strip_digest_takeWhile)
  next
    case False
    then have "CHR ''/'' \<notin> set (strip_tag ?r)" using strip_tag_set by blast
    then show ?thesis
      using False
      by (simp add: extractRegistry_def registry_of_def Let_def Split_absent
          strip_digest_takeWhile)
  qed
qed

section \<open>The checks of ValidateJobRequest, block by block\<close>

definition check_image :: "unicode \<Rightarrow> string list \<Rightarrow> JobRequest \<Rightarrow> ValidationError list" where
  "check_image uc whitelist req =
     (if req_Image req = [] then [verr ''image'' ''image reference is required'']
      else (if length (req_Image req) > maxImageLen
            then [verr ''image''
                   (''image reference must not exceed '' @ show_nat maxImageLen @ '' characters'')]
            else [])
        @ (if length whitelist > 0
           then (let registry = extractRegistry (req_Image req) in
                 if \<not> isRegistryWhitelisted uc registry whitelist
                 then [verr ''image''
                        (''registry '' @ quote uc registry @ '' is not in the approved whitelist'')]
                 else [])
           else []))"

definition check_command :: "JobRequest \<Rightarrow> ValidationError list" where
  "check_command req =
     (if req_Command req = [] then [verr ''command'' ''command is required'']
      else if length (req_Command req) > maxCommandLen
      then [verr ''command''
             (''command must not exceed '' @ show_nat maxCommandLen @ '' characters'')]
      else [])"

definition check_env_entry :: "unicode \<Rightarrow> string \<times> string \<Rightarrow> ValidationError list" where
  "check_env_entry uc kv =
     (case kv of (key, val) \<Rightarrow>
        (if length key > maxEnvKeyLen
         then [verr ''env'' (''environment variable key '' @ quote uc key @ '' must not exceed ''
                 @ show_nat maxEnvKeyLen @ '' characters'')]
         else [])
        @ (if length val > maxEnvValueLen
           then [verr ''env'' (''environment variable value for key '' @ quote uc key
                   @ '' must not exceed '' @ show_nat maxEnvValueLen @ '' characters'')]
           else []))"

definition check_env :: "unicode \<Rightarrow> string list \<Rightarrow> JobRequest \<Rightarrow> ValidationError list" where
  "check_env uc order req =
     (if len_map (req_Env req) > maxEnvVars
      then [verr ''env'' (''number of environment variables must not exceed '' @ show_nat maxEnvVars)]
      else concat (map (check_env_entry uc) (range_map (req_Env req) order)))"

definition check_timeout :: "JobRequest \<Rightarrow> ValidationError list" where
  "check_timeout req =
     (case req_TimeoutSeconds req of
        None \<Rightarrow> []
      | Some t \<Rightarrow>
          if t <s minTimeout \<or> maxTimeout <s t
          then [verr ''timeout_seconds'' (''must be between '' @ show_int (sint minTimeout)
                  @ '' and '' @ show_int (sint maxTimeout))]
          else [])"

definition check_cpu :: "JobRequest \<Rightarrow> ValidationError list" where
  "check_cpu req =
     (case req_CPULimit req of
        None \<Rightarrow> []
      | Some cpu \<Rightarrow>
          if f64_less cpu minCPU \<or> f64_less maxCPU cpu
          then [verr ''cpu_limit'' ''must be between 0.1 and 4.0'']
          else [])"

definition check_memory :: "JobRequest \<Rightarrow> ValidationError list" where
  "check_memory req =
     (case req_MemoryLimitMB req of
        None \<Rightarrow> []
      | Some mem \<Rightarrow>
          if mem <s minMemoryMB \<or> maxMemoryMB <s mem
          then [verr ''memory_limit_mb'' (''must be between '' @ show_int (sint minMemoryMB)
                  @ '' and '' @ show_int (sint maxMemoryMB))]
          else [])"

definition secret_field :: "nat \<Rightarrow> string \<Rightarrow> string" where
  "secret_field i part = ''secrets['' @ show_nat i @ ''].'' @ part"

text \<open>\<open>ValidateSecrets\<close>: the loop over the secrets carries the index.\<close>

fun check_secrets_from :: "unicode \<Rightarrow> nat \<Rightarrow> Secret list \<Rightarrow> ValidationError list" where
  "check_secrets_from uc i [] = []"
| "check_secrets_from uc i (s # ss) =
     (case ValidateSecretName uc (sec_Name s) of
        Some err \<Rightarrow> [verr (secret_field i ''name'') (''invalid secret name: '' @ err)]
      | None \<Rightarrow> [])
     @ (if length (sec_Value s) > maxSecretValue
        then [verr (secret_field i ''value'')
               (''secret value must not exceed '' @ show_nat maxSecretValue @ '' bytes'')]
        else [])
     @ check_secrets_from uc (Suc i) ss"

definition ValidateSecrets :: "unicode \<Rightarrow> Secret list \<Rightarrow> ValidationError list" where
  "ValidateSecrets uc secrets =
     (if length secrets > maxSecrets
      then [verr ''secrets'' (''number of secrets must not exceed '' @ show_nat maxSecrets)]
      else check_secrets_from uc 0 secrets)"

definition ValidateJobRequest ::
  "unicode \<Rightarrow> string list \<Rightarrow> JobRequest \<Rightarrow> string list \<Rightarrow> ValidationError list" where
  "ValidateJobRequest uc order req whitelist =
     check_image uc whitelist req @ check_command req @ check_env uc order req
       @ check_timeout req @ check_cpu req @ check_memory req
       @ ValidateSecrets uc (req_Secrets req)"

lemmas validator_checks =
  check_image_def check_command_def check_env_def check_env_entry_def check_timeout_def
  check_cpu_def check_memory_def ValidateSecrets_def

section \<open>The bounds of a request, all lengths in bytes\<close>

definition image_ok :: "unicode \<Rightarrow> string list \<Rightarrow> JobRequest \<Rightarrow> bool" where
  "image_ok uc whitelist req \<longleftrightarrow>
     0 < length (req_Image req) \<and> length (req_Image req) \<le> 512
     \<and> (whitelist \<noteq> [] \<longrightarrow>
          (\<exists>allowed \<in> set whitelist. EqualFold uc (registry_of (req_Image req)) allowed))"

definition command_ok :: "JobRequest \<Rightarrow> bool" where
  "command_ok req \<longleftrightarrow> 0 < length (req_Command req) \<and> length (req_Command req) \<le> 1024"

definition env_ok :: "JobRequest \<Rightarrow> bool" where
  "env_ok req \<longleftrightarrow> card (dom (req_Env req)) \<le> 64
     \<and> (\<forall>k v. req_Env req k = Some v \<longrightarrow> length k \<le> 256 \<and> length v \<le> 4096)"

definition timeout_ok :: "JobRequest \<Rightarrow> bool" where
  "timeout_ok req \<longleftrightarrow>
     (\<forall>t. req_TimeoutSeconds req = Some t \<longrightarrow> 1 \<le> sint t \<and> sint t \<le> 3600)"

definition cpu_ok :: "JobRequest \<Rightarrow> bool" where
  "cpu_ok req \<longleftrightarrow>
     (\<forall>x. req_CPULimit req = Some x \<longrightarrow> \<not> f64_less x f64_0_1 \<and> \<not> f64_less f64_4_0 x)"

definition memory_ok :: "JobRequest \<Rightarrow> bool" where
  "memory_ok req \<longleftrightarrow>
     (\<forall>m. req_MemoryLimitMB req = Some m \<longrightarrow> 16 \<le> sint m \<and> sint m \<le> 8192)"

definition secret_ok :: "Secret \<Rightarrow> bool" where
  "secret_ok s \<longleftrightarrow> valid_secret_name (sec_Name s) \<and> length (sec_Value s) \<le> 65536"

definition secrets_ok :: "JobRequest \<Rightarrow> bool" where
  "secrets_ok req \<longleftrightarrow> length (req_Secrets req) \<le> 64 \<and> (\<forall>s \<in> set (req_Secrets req). secret_ok s)"

definition valid_request :: "unicode \<Rightarrow> string list \<Rightarrow> JobRequest \<Rightarrow> bool" where
  "valid_request uc whitelist req \<longleftrightarrow>
     image_ok uc whitelist req \<and> command_ok req \<and> env_ok req \<and> timeout_ok req
       \<and> cpu_ok req \<and> memory_ok req \<and> secrets_ok req"

section \<open>The contract every check keeps\<close>

text \<open>
  A check of one field appends nothing exactly when the field is in order, and every error
  it appends names that field. \<open>pre\<close> is what the caller guarantees of the input.
\<close>

locale field_check =
  fixes check :: "'r \<Rightarrow> ValidationError list"
    and ok :: "'r \<Rightarrow> bool"
    and pre :: "'r \<Rightarrow> bool"
    and names_field :: "string \<Rightarrow> bool"
  assumes check_ok: "pre r \<Longrightarrow> check r = [] \<longleftrightarrow> ok r"
    and check_field: "e \<in> set (check r) \<Longrightarrow> names_field (ve_Field e)"
begin

lemma rejects: "pre r \<Longrightarrow> \<not> ok r \<Longrightarrow> \<exists>e \<in> set (check r). names_field (ve_Field e)"
  by (metis check_ok check_field list.set_intros(1) neq_Nil_conv)

lemma other_field: "\<not> names_field (ve_Field e) \<Longrightarrow> e \<notin> set (check r)"
  using check_field by blast

end

text \<open>A check of a single field names it if and only if the field is out of order.\<close>

locale named_check = field_check check ok pre "\<lambda>f. f = field"
  for check :: "'r \<Rightarrow> ValidationError list" and ok pre and field :: string
begin

lemma fields_eq: "pre r \<Longrightarrow> ve_Field ` set (check r) = (if ok r then {} else {field})"
proof -
  assume "pre r"
  then have "check r = [] \<longleftrightarrow> ok r" by (rule check_ok)
  moreover have "\<forall>e \<in> set (check r). ve_Field e = field" using check_field by blast
  ultimately show ?thesis by (cases "check r") auto
qed

end

text \<open>Two checks run one after the other keep the contract for both fields.\<close>

locale check_pair =
  a: field_check check_a ok_a pre_a field_a + b: field_check check_b ok_b pre_b field_b
  for check_a :: "'r \<Rightarrow> ValidationError list" and ok_a pre_a field_a
    and check_b :: "'r \<Rightarrow> ValidationError list" and ok_b pre_b field_b
begin

lemma pair_ok: "pre_a r \<Longrightarrow> pre_b r \<Longrightarrow> check_a r @ check_b r = [] \<longleftrightarrow> ok_a r \<and> ok_b r"
  by (simp add: a.check_ok b.check_ok)

lemma pair_field:
  "e \<in> set (check_a r @ check_b r) \<Longrightarrow> field_a (ve_Field e) \<or> field_b (ve_Field e)"
  using a.check_field b.check_field by auto

end

sublocale check_pair \<subseteq> field_check "\<lambda>r. check_a r @ check_b r" "\<lambda>r. ok_a r \<and> ok_b r"
  "\<lambda>r. pre_a r \<and> pre_b r" "\<lambda>f. field_a f \<or> field_b f"
  using pair_field by unfold_locales (auto simp: a.check_ok b.check_ok)

end
