(* ===== verification/Validator_Proofs.thy ===== *)
theory Validator_Proofs
  imports Validator
begin

text \<open>
  The checks of \<open>Validator\<close> keep the contract \<open>field_check\<close>; from it follow soundness and
  completeness of the whole validation, the field every error names, and which requests the
  handler of \<^verbatim>\<open>POST /jobs\<close> answers with a registry rejection.
\<close>

section \<open>Every check keeps the contract\<close>

abbreviation always :: "'r \<Rightarrow> bool" where
  "always \<equiv> \<lambda>_. True"

interpretation image_check: named_check "check_image uc wl" "image_ok uc wl" always
  "''image''" for uc wl
  by unfold_locales
    (auto simp: check_image_def image_ok_def maxImageLen_def isRegistryWhitelisted_def
      extractRegistry_eq list_ex_iff Let_def split: if_splits)

interpretation command_check: named_check check_command command_ok always
  "''command''"
  by unfold_locales
    (auto simp: check_command_def command_ok_def maxCommandLen_def split: if_splits)

lemma check_env_entry_ok:
  "check_env_entry uc (k, v) = [] \<longleftrightarrow> length k \<le> 256 \<and> length v \<le> 4096"
  by (auto simp: check_env_entry_def maxEnvKeyLen_def maxEnvValueLen_def)

interpretation env_check: named_check "check_env uc ord" env_ok
  "\<lambda>req. iteration_order (req_Env req) ord" "''env''" for uc ord
proof unfold_locales
  fix req :: JobRequest
  assume "iteration_order (req_Env req) ord"
  then have "set (range_map (req_Env req) ord) = {(k, v). req_Env req k = Some v}"
    by (rule set_range_map_order)
  then show "check_env uc ord req = [] \<longleftrightarrow> env_ok req"
    by (auto simp: check_env_def env_ok_def check_env_entry_ok len_map_def maxEnvVars_def)
next
  fix e :: ValidationError and req
  assume "e \<in> set (check_env uc ord req)"
  then show "ve_Field e = ''env''"
    by (auto simp: check_env_def check_env_entry_def split: if_splits)
qed

interpretation timeout_check: named_check check_timeout timeout_ok always
  "''timeout_seconds''"
  by unfold_locales
    (auto simp: check_timeout_def timeout_ok_def minTimeout_def maxTimeout_def i64_simps
      not_less split: option.splits if_splits)

interpretation cpu_check: named_check check_cpu cpu_ok always "''cpu_limit''"
  by unfold_locales
    (auto simp: check_cpu_def cpu_ok_def minCPU_def maxCPU_def split: option.splits if_splits)

interpretation memory_check: named_check check_memory memory_ok always
  "''memory_limit_mb''"
  by unfold_locales
    (auto simp: check_memory_def memory_ok_def minMemoryMB_def maxMemoryMB_def i64_simps
      not_less split: option.splits if_splits)

lemma case_error_Nil: "(case x of Some e \<Rightarrow> [f e] | None \<Rightarrow> []) = [] \<longleftrightarrow> x = None"
  by (cases x) auto

lemma check_secrets_from_ok:
  "check_secrets_from uc i ss = [] \<longleftrightarrow> (\<forall>s \<in> set ss. secret_ok s)"
  by (induction uc i ss rule: check_secrets_from.induct)
    (auto simp: secret_ok_def maxSecretValue_def ValidateSecretName_None_iff case_error_Nil)

lemma check_secrets_from_field:
  "e \<in> set (check_secrets_from uc i ss) \<Longrightarrow> prefix ''secrets'' (ve_Field e)"
  by (induction uc i ss rule: check_secrets_from.induct)
    (auto simp: secret_field_def split: option.splits if_splits)

interpretation secrets_check: field_check "\<lambda>req. ValidateSecrets uc (req_Secrets req)" secrets_ok
  always "\<lambda>f. prefix ''secrets'' f" for uc
  by unfold_locales
    (auto simp: ValidateSecrets_def secrets_ok_def maxSecrets_def check_secrets_from_ok
      dest: check_secrets_from_field split: if_splits)

section \<open>The whole validation, as pairs of checks\<close>

interpretation limits_check: check_pair check_cpu cpu_ok always "\<lambda>f. f = ''cpu_limit''"
  check_memory memory_ok always "\<lambda>f. f = ''memory_limit_mb''"
  by unfold_locales

interpretation required_check: check_pair "check_image uc wl" "image_ok uc wl" always
  "\<lambda>f. f = ''image''" check_command command_ok always "\<lambda>f. f = ''command''" for uc wl
  by unfold_locales

lemma ValidateJobRequest_append:
  "ValidateJobRequest uc ord req wl =
     (check_image uc wl req @ check_command req) @ check_env uc ord req @ check_timeout req
       @ (check_cpu req @ check_memory req) @ ValidateSecrets uc (req_Secrets req)"
  by (simp add: ValidateJobRequest_def)

lemma ValidateJobRequest_nil_iff:
  assumes "iteration_order (req_Env req) ord"
  shows "ValidateJobRequest uc ord req wl = [] \<longleftrightarrow> valid_request uc wl req"
  using assms limits_check.check_ok [where r = req]
    required_check.check_ok [where r = req and uc = uc and wl = wl]
    env_check.check_ok [where r = req and ord = ord and uc = uc]
    timeout_check.check_ok [where r = req]
    secrets_check.check_ok [where r = req and uc = uc]
  by (auto simp: ValidateJobRequest_append valid_request_def)

text \<open>
  C4: for a request whose environment map is visited in any order, \<open>ValidateJobRequest\<close>
  returns no error exactly when the request is within every bound, all lengths counted in
  bytes: image of 1 to 512 bytes from a whitelisted registry, command of 1 to 1024 bytes, at
  most 64 environment variables with keys up to 256 and values up to 4096 bytes, timeout, CPU
  and memory in range, at most 64 well-named secrets. (The requirements and the error messages
  give the same numbers as characters, which is another bound for text that is not ASCII:
  see \<open>command_bound_in_bytes\<close>.)
\<close>

theorem ValidateJobRequest_correct:
  assumes "iteration_order (req_Env req) ord"
  shows "ValidateJobRequest uc ord req wl = [] \<longleftrightarrow> valid_request uc wl req"
  using assms by (rule ValidateJobRequest_nil_iff)

theorem ValidateJobRequest_correct_witness:
  "iteration_order (req_Env sample_request) [] \<and>
   (ValidateJobRequest plain_unicode [] sample_request [''docker.io''] = []
      \<longleftrightarrow> valid_request plain_unicode [''docker.io''] sample_request)"
  using ValidateJobRequest_correct [of sample_request "[]" plain_unicode "[''docker.io'']"]
  by (simp add: sample_request_def)

text \<open>The lower-case e with an acute accent, one character and two bytes in UTF-8.\<close>

definition e_acute :: string where
  "e_acute = [CHR 0xC3, CHR 0xA9]"

text \<open>
  The bound on the command is one on bytes: a command of 513 such characters is rejected, one
  of 512 is not, although 1024 characters are promised.
\<close>

theorem command_bound_in_bytes:
  "check_command (req\<lparr>req_Command := concat (replicate n e_acute)\<rparr>) = [] \<longleftrightarrow> 1 \<le> n \<and> n \<le> 512"
proof -
  have "length (concat (replicate n e_acute)) = 2 * n" by (induction n) (simp_all add: e_acute_def)
  then show ?thesis
    using command_check.check_ok [of "req\<lparr>req_Command := concat (replicate n e_acute)\<rparr>"]
    by (auto simp: command_ok_def simp del: length_concat)
qed

lemma fields_of_request:
  assumes "iteration_order (req_Env req) ord"
  shows "ve_Field ` set (ValidateJobRequest uc ord req wl) =
     (if image_ok uc wl req then {} else {''image''})
     \<union> (if command_ok req then {} else {''command''})
     \<union> (if env_ok req then {} else {''env''})
     \<union> (if timeout_ok req then {} else {''timeout_seconds''})
     \<union> (if cpu_ok req then {} else {''cpu_limit''})
     \<union> (if memory_ok req then {} else {''memory_limit_mb''})
     \<union> ve_Field ` set (ValidateSecrets uc (req_Secrets req))"
  unfolding ValidateJobRequest_def set_append image_Un
  by (simp only: image_check.fields_eq command_check.fields_eq env_check.fields_eq [OF assms]
      timeout_check.fields_eq cpu_check.fields_eq memory_check.fields_eq Un_assoc)

lemma show_nat_inject [simp]: "show_nat i = show_nat j \<longleftrightarrow> i = j"
  by (metis option.inject parse_uint_show_nat)

lemma secret_field_names [simp]:
  "secret_field i ''name'' = secret_field j ''name'' \<longleftrightarrow> i = j"
  "secret_field i ''name'' \<noteq> secret_field j ''value''"
proof -
  have "rev (secret_field i ''name'') \<noteq> rev (secret_field j ''value'')"
    by (simp add: secret_field_def)
  then show "secret_field i ''name'' \<noteq> secret_field j ''value''" by metis
qed (simp add: secret_field_def)

text \<open>The fields the loop over the secrets reports, from the index it starts at.\<close>

lemma check_secrets_from_fields:
  "ve_Field ` set (check_secrets_from uc i ss) =
     (\<Union>k < length ss.
        (if valid_secret_name (sec_Name (ss ! k)) then {} else {secret_field (i + k) ''name''})
        \<union> (if length (sec_Value (ss ! k)) \<le> 65536 then {} else {secret_field (i + k) ''value''}))"
proof (induction uc i ss rule: check_secrets_from.induct)
  case (2 uc i s ss)
  have "ve_Field ` set (check_secrets_from uc i (s # ss)) =
      (if valid_secret_name (sec_Name s) then {} else {secret_field i ''name''})
      \<union> (if length (sec_Value s) \<le> 65536 then {} else {secret_field i ''value''})
      \<union> ve_Field ` set (check_secrets_from uc (Suc i) ss)"
    using ValidateSecretName_None_iff [of uc "sec_Name s"]
    by (cases "ValidateSecretName uc (sec_Name s)") (auto simp: image_Un maxSecretValue_def)
  then show ?case unfolding 2 add_Suc_shift by (simp add: lessThan_Suc_eq_insert_0 image_image)
qed simp

lemma ValidateSecrets_fields:
  "f \<in> ve_Field ` set (ValidateSecrets uc ss) \<longleftrightarrow>
     (if 64 < length ss then f = ''secrets''
      else \<exists>k < length ss.
        (f = ''secrets['' @ show_nat k @ ''].name'' \<and> \<not> valid_secret_name (sec_Name (ss ! k)))
        \<or> (f = ''secrets['' @ show_nat k @ ''].value'' \<and> 65536 < length (sec_Value (ss ! k))))"
proof (cases "64 < length ss")
  case False
  then have "ve_Field ` set (ValidateSecrets uc ss) = ve_Field ` set (check_secrets_from uc 0 ss)"
    by (simp add: ValidateSecrets_def maxSecrets_def)
  with False show ?thesis
    unfolding check_secrets_from_fields by (auto simp: secret_field_def not_le split: if_splits)
qed (simp add: ValidateSecrets_def maxSecrets_def)

text \<open>
  C24: the errors name exactly the fields that are out of order: \<open>timeout_seconds\<close> is among
  the named fields if and only if the timeout is given and not in 1 to 3600, and likewise
  for the image, the command, the environment, the CPU and the memory limit. Of more than 64
  secrets only \<open>secrets\<close> is named; otherwise \<open>secrets[k].name\<close> is named if and only if the
  name at the index \<open>k\<close>, counted from 0, is malformed, and \<open>secrets[k].value\<close> if and only if
  the value there has more than 65536 bytes. No other field is ever named.
\<close>

theorem ValidateJobRequest_fields:
  assumes "iteration_order (req_Env req) ord"
  shows "f \<in> ve_Field ` set (ValidateJobRequest uc ord req wl) \<longleftrightarrow>
      (f = ''image'' \<and> \<not> image_ok uc wl req) \<or> (f = ''command'' \<and> \<not> command_ok req)
      \<or> (f = ''env'' \<and> \<not> env_ok req) \<or> (f = ''timeout_seconds'' \<and> \<not> timeout_ok req)
      \<or> (f = ''cpu_limit'' \<and> \<not> cpu_ok req) \<or> (f = ''memory_limit_mb'' \<and> \<not> memory_ok req)
      \<or> (if 64 < length (req_Secrets req) then f = ''secrets''
         else \<exists>k < length (req_Secrets req).
           (f = ''secrets['' @ show_nat k @ ''].name'' \<and> \<not> valid_secret_name (sec_Name (req_Secrets req ! k)))
           \<or> (f = ''secrets['' @ show_nat k @ ''].value'' \<and> 65536 < length (sec_Value (req_Secrets req ! k))))"
  unfolding fields_of_request [OF assms] Un_iff ValidateSecrets_fields by (auto split: if_splits)

theorem ValidateJobRequest_fields_witness:
  "''secrets[1].name'' \<in> ve_Field ` set (ValidateJobRequest plain_unicode []
     (sample_request\<lparr>req_Secrets := [\<lparr>sec_Name = ''A_1'', sec_Value = [], sec_FilePath = None\<rparr>,
        \<lparr>sec_Name = ''1A'', sec_Value = [], sec_FilePath = None\<rparr>]\<rparr>) [])
   \<and> ''timeout_seconds'' \<notin> ve_Field ` set (ValidateJobRequest plain_unicode [] sample_request [])"
proof -
  let ?ss = "[\<lparr>sec_Name = ''A_1'', sec_Value = [], sec_FilePath = None\<rparr>,
        \<lparr>sec_Name = ''1A'', sec_Value = [], sec_FilePath = None\<rparr>]"
  have o: "iteration_order (req_Env sample_request) []" by (simp add: sample_request_def)
  then have o': "iteration_order (req_Env (sample_request\<lparr>req_Secrets := ?ss\<rparr>)) []" by simp
  have "\<not> valid_secret_name ''1A''" by (simp add: valid_secret_name_def upper_or_underscore_def)
  moreover have "''secrets[1].name'' = ''secrets['' @ show_nat 1 @ ''].name''" by code_simp
  ultimately have "\<exists>k < length ?ss. ''secrets[1].name'' = ''secrets['' @ show_nat k @ ''].name''
      \<and> \<not> valid_secret_name (sec_Name (?ss ! k))"
    by (intro exI [of _ 1]) simp
  then have "''secrets[1].name'' \<in> ve_Field ` set (ValidateJobRequest plain_unicode [] (sample_request\<lparr>req_Secrets := ?ss\<rparr>) [])"
    unfolding ValidateJobRequest_fields [OF o'] by auto
  moreover have "''timeout_seconds'' \<notin> ve_Field ` set (ValidateJobRequest plain_unicode [] sample_request [])"
    unfolding ValidateJobRequest_fields [OF o] by (simp add: sample_request_def timeout_ok_def)
  ultimately show ?thesis by blast
qed

section \<open>Which secret is at fault\<close>

lemma check_secrets_from_name_fields:
  "secret_field k ''name'' \<in> ve_Field ` set (check_secrets_from uc i ss)
     \<longleftrightarrow> i \<le> k \<and> k < i + length ss \<and> \<not> valid_secret_name (sec_Name (ss ! (k - i)))"
proof (induction uc i ss rule: check_secrets_from.induct)
  case (2 uc i s ss)
  let ?n = "secret_field k ''name''"
  have "?n \<in> ve_Field ` set (check_secrets_from uc i (s # ss)) \<longleftrightarrow>
      (k = i \<and> \<not> valid_secret_name (sec_Name s))
      \<or> ?n \<in> ve_Field ` set (check_secrets_from uc (Suc i) ss)"
    using ValidateSecretName_None_iff [of uc "sec_Name s"]
    by (cases "ValidateSecretName uc (sec_Name s)") (auto simp: image_Un)
  with 2 show ?case by (cases "k = i") (auto simp: nth_Cons')
qed simp

text \<open>
  With at most 64 secrets, the field \<^verbatim>\<open>secrets[k].name\<close> is reported if and only if \<open>k\<close> is the
  index of a secret whose name does not match the pattern: the regular expression and its
  bounded repetition accept exactly the names of 1 to 256 upper-case letters, digits and
  underscores that do not start with a digit.
\<close>

theorem ValidateSecrets_names_index:
  assumes "length ss \<le> 64"
  shows "secret_field k ''name'' \<in> ve_Field ` set (ValidateSecrets uc ss)
     \<longleftrightarrow> k < length ss \<and> \<not> valid_secret_name (sec_Name (ss ! k))"
  using assms check_secrets_from_name_fields [of k uc 0 ss]
  by (simp add: ValidateSecrets_def maxSecrets_def)

theorem ValidateSecrets_names_index_witness:
  "secret_field 1 ''name'' \<in> ve_Field ` set (ValidateSecrets plain_unicode
     [\<lparr>sec_Name = ''A_1'', sec_Value = [], sec_FilePath = None\<rparr>,
      \<lparr>sec_Name = ''1A'', sec_Value = [], sec_FilePath = None\<rparr>])"
  by (subst ValidateSecrets_names_index)
    (simp_all add: valid_secret_name_def upper_or_underscore_def)

section \<open>Registries\<close>

text \<open>
  The registry of \<open>first/rest\<close>, whatever tag or digest \<open>rest\<close> carries, is \<open>first\<close> when
  it has a dot or a colon (a port) or is \<^verbatim>\<open>localhost\<close>, and Docker Hub otherwise; a reference
  without a slash is Docker Hub's, even when it has a tag.
\<close>

theorem extractRegistry_forms:
  assumes "CHR ''/'' \<notin> set first" and "CHR ''@'' \<notin> set first"
  shows "extractRegistry (first @ ''/'' @ rest) = (if registry_like first then first else docker_io)
    \<and> extractRegistry first = docker_io"
proof
  have at: "takeWhile (\<lambda>c. c \<noteq> CHR ''@'') (first @ ''/'' @ rest)
      = first @ CHR ''/'' # takeWhile (\<lambda>c. c \<noteq> CHR ''@'') rest"
    using assms(2) by (auto simp: takeWhile_append)
  have slash: "takeWhile (\<lambda>c. c \<noteq> CHR ''/'') (first @ CHR ''/'' # t) = first" for t
    using assms(1) by (auto simp: takeWhile_append)
  show "extractRegistry (first @ ''/'' @ rest) = (if registry_like first then first else docker_io)"
    unfolding extractRegistry_eq registry_of_def Let_def at slash by simp
  show "extractRegistry first = docker_io"
    using assms by (auto simp: extractRegistry_eq registry_of_def Let_def dest: set_takeWhileD)
qed

theorem extractRegistry_forms_witness:
  "extractRegistry (''localhost:5000'' @ ''/'' @ ''team/img:1.2@sha256:ab'') = ''localhost:5000''"
  using extractRegistry_forms [of "''localhost:5000''" "''team/img:1.2@sha256:ab''"]
  by (simp add: registry_like_def)

section \<open>Registry rejections\<close>

text \<open>The condition of lines 40 and 41 of the handler, for one error.\<close>

definition is_registry_rejection :: "ValidationError \<Rightarrow> bool" where
  "is_registry_rejection ve \<longleftrightarrow> ve_Field ve = ''image'' \<and> Contains (ve_Message ve) ''whitelist''"

lemma image_too_long_message:
  "\<not> Contains (''image reference must not exceed '' @ show_nat maxImageLen @ '' characters'')
        ''whitelist''"
  by code_simp

lemma image_required_message: "\<not> Contains ''image reference is required'' ''whitelist''"
  by code_simp

lemma registry_message:
  "Contains (''registry '' @ q @ '' is not in the approved whitelist'') ''whitelist''"
proof -
  have "(''registry '' @ q @ '' is not in the approved whitelist'')
      = (''registry '' @ q @ '' is not in the approved '') @ ''whitelist'' @ []"
    by simp
  then show ?thesis unfolding Contains_iff sublist_def by blast
qed

lemma check_image_rejection:
  "(\<exists>ve \<in> set (check_image uc wl req). is_registry_rejection ve) \<longleftrightarrow>
     req_Image req \<noteq> [] \<and> wl \<noteq> []
       \<and> \<not> (\<exists>allowed \<in> set wl. EqualFold uc (registry_of (req_Image req)) allowed)"
  using image_too_long_message image_required_message
  by (auto simp: check_image_def is_registry_rejection_def registry_message [simplified] Let_def
      isRegistryWhitelisted_def list_ex_iff extractRegistry_eq split: if_splits)

lemma rejection_only_image:
  assumes "ve \<in> set (ValidateJobRequest uc ord req wl)" and "is_registry_rejection ve"
  shows "ve \<in> set (check_image uc wl req)"
  using assms command_check.other_field [where e = ve and r = req]
    env_check.other_field [where e = ve and r = req and uc = uc and ord = ord]
    timeout_check.other_field [where e = ve and r = req]
    cpu_check.other_field [where e = ve and r = req]
    memory_check.other_field [where e = ve and r = req]
    secrets_check.other_field [where e = ve and r = req and uc = uc]
  by (auto simp: ValidateJobRequest_def is_registry_rejection_def)

lemma registry_rejection_iff:
  "(\<exists>ve \<in> set (ValidateJobRequest uc ord req wl). is_registry_rejection ve) \<longleftrightarrow>
     req_Image req \<noteq> [] \<and> wl \<noteq> []
       \<and> \<not> (\<exists>allowed \<in> set wl. EqualFold uc (registry_of (req_Image req)) allowed)"
  using rejection_only_image [of _ uc ord req wl] check_image_rejection [of uc wl req]
  by (auto simp: ValidateJobRequest_def)

end
