(* ===== verification/Output_Redaction.thy ===== *)
theory Output_Redaction
  imports Job_Types
begin

text \<open>
  \<^verbatim>\<open>pkg/executor/output.go\<close> and \<^verbatim>\<open>pkg/executor/redaction.go\<close>: the tail of an output stream
  within the configured number of bytes, and the replacement of secret values in it.
\<close>

section \<open>Truncation\<close>

text \<open>
  \<^verbatim>\<open>truncateTail\<close>. A slice expression whose bounds are out of range panics: \<open>None\<close>.
\<close>

definition truncateTail :: "string \<Rightarrow> i64 \<Rightarrow> (string \<times> bool) option" where
  "truncateTail data maxBytes =
     (let n = of_nat (length data) :: i64 in
      if n \<le>s maxBytes then Some (data, False)
      else (let offset = n - maxBytes in
            if 0 \<le> sint offset \<and> sint offset \<le> int (length data)
            then Some (drop (nat (sint offset)) data, True)
            else None))"

definition CaptureOutput ::
  "string \<Rightarrow> string \<Rightarrow> i64 \<Rightarrow> (string \<times> string \<times> bool \<times> bool) option" where
  "CaptureOutput stdout stderr maxBytes =
     (case truncateTail stdout maxBytes of
        None \<Rightarrow> None
      | Some (outStr, outTruncated) \<Rightarrow>
          (case truncateTail stderr maxBytes of
             None \<Rightarrow> None
           | Some (errStr, errTruncated) \<Rightarrow> Some (outStr, errStr, outTruncated, errTruncated)))"

text \<open>The tail as the documentation describes it.\<close>

definition tail_of :: "string \<Rightarrow> nat \<Rightarrow> string" where
  "tail_of data n = drop (length data - n) data"

lemma length_tail_of: "length (tail_of data n) = min n (length data)"
  by (simp add: tail_of_def)

lemma suffix_tail_of: "suffix (tail_of data n) data"
  by (simp add: tail_of_def suffix_drop)

lemma sint_length:
  "length (data :: 'a list) < 2 ^ 63 \<Longrightarrow> sint (of_nat (length data) :: i64) = int (length data)"
  using sint_word_of_int_fits [of "int (length data)"] by (simp add: fits_i64_def)

lemma truncateTail_nonneg:
  assumes "length data < 2 ^ 63" and "0 \<le> sint maxBytes"
  shows "truncateTail data maxBytes =
     Some (tail_of data (nat (sint maxBytes)), nat (sint maxBytes) < length data)"
proof (cases "int (length data) \<le> sint maxBytes")
  case True
  then show ?thesis
    using assms by (simp add: truncateTail_def i64_le_iff sint_length tail_of_def)
next
  case False
  let ?n = "of_nat (length data) :: i64"
  have "fits_i64 (sint ?n - sint maxBytes)"
    using False assms by (simp add: sint_length fits_i64_def)
  then have "sint (?n - maxBytes) = int (length data) - sint maxBytes"
    using assms(1) by (simp add: sint_diff_fits sint_length)
  moreover have "nat (int (length data) - sint maxBytes) = length data - nat (sint maxBytes)"
    using assms(2) by simp
  ultimately show ?thesis
    using False assms by (simp add: truncateTail_def i64_le_iff sint_length tail_of_def)
qed

lemma truncateTail_neg:
  assumes "length data < 2 ^ 63" and "sint maxBytes < 0"
  shows "truncateTail data maxBytes = None"
proof -
  let ?n = "of_nat (length data) :: i64" and ?d = "int (length data) - sint maxBytes"
  have len: "int (length data) < 2 ^ 63" using assms(1) by simp
  have sn: "sint ?n = int (length data)" using assms(1) by (rule sint_length)
  have d: "int (length data) < ?d" "?d < 2 ^ 64"
    using assms len fits_sint [of maxBytes] by (auto simp: fits_i64_def)
  have "sint (?n - maxBytes) = signed_take_bit 63 ?d"
    by (simp add: sint_word_ariths sn)
  also have "\<dots> = (?d + 2 ^ 63) mod 2 ^ 64 - 2 ^ 63"
    by (simp add: signed_take_bit_eq_take_bit_shift take_bit_eq_mod)
  finally have w: "sint (?n - maxBytes) = (?d + 2 ^ 63) mod 2 ^ 64 - 2 ^ 63" .
  have "sint (?n - maxBytes) < 0 \<or> int (length data) < sint (?n - maxBytes)"
  proof (cases "?d < 2 ^ 63")
    case True
    then have "(?d + 2 ^ 63) mod 2 ^ 64 = ?d + 2 ^ 63" using d by (intro mod_pos_pos_trivial) auto
    with w d show ?thesis by simp
  next
    case False
    have "(?d + 2 ^ 63) mod 2 ^ 64 = (?d - 2 ^ 63 + 2 ^ 64) mod 2 ^ 64"
      by (simp add: algebra_simps)
    also have "\<dots> = ?d - 2 ^ 63"
      using False d by (subst mod_add_self2) (rule mod_pos_pos_trivial; simp)
    finally have "(?d + 2 ^ 63) mod 2 ^ 64 = ?d - 2 ^ 63" .
    with w d show ?thesis by simp
  qed
  then show ?thesis
    using assms sn by (auto simp: truncateTail_def i64_le_iff Let_def)
qed

text \<open>
  C29: for a limit that is not negative, each captured stream is the whole stream with the flag
  off when it fits, and otherwise exactly its last \<open>maxBytes\<close> bytes with the flag on.
\<close>

theorem CaptureOutput_tail:
  assumes "0 \<le> sint maxBytes" and "length out < 2 ^ 63" and "length err < 2 ^ 63"
  shows "CaptureOutput out err maxBytes =
     Some (tail_of out (nat (sint maxBytes)), tail_of err (nat (sint maxBytes)),
           nat (sint maxBytes) < length out, nat (sint maxBytes) < length err)"
  using assms by (simp add: CaptureOutput_def truncateTail_nonneg)

theorem CaptureOutput_tail_witness:
  "CaptureOutput ''hello'' ''ab'' 3 = Some (''llo'', ''ab'', True, False)"
  using CaptureOutput_tail [of 3 "''hello''" "''ab''"] by (simp add: tail_of_def)

text \<open>
  A negative limit, which the configuration accepts from \<^verbatim>\<open>MAX_OUTPUT_BYTES\<close>, makes the
  slice expression panic for every output, the empty one included.
\<close>

theorem CaptureOutput_negative_panics:
  assumes "sint maxBytes < 0" and "length out < 2 ^ 63"
  shows "CaptureOutput out err maxBytes = None"
  using assms by (simp add: CaptureOutput_def truncateTail_neg)

theorem CaptureOutput_negative_panics_witness: "CaptureOutput [] [] (-1) = None"
  by (rule CaptureOutput_negative_panics) simp_all

section \<open>Redaction\<close>

text \<open>
  \<^verbatim>\<open>sortSecretsByValueLength\<close>: an insertion sort by swaps, the inner loop over \<open>j\<close> and the
  outer over \<open>i\<close>.
\<close>

definition vlen :: "Secret \<Rightarrow> nat" where
  "vlen s = length (sec_Value s)"

fun sort_inner :: "Secret list \<Rightarrow> nat \<Rightarrow> Secret list" where
  "sort_inner xs 0 = xs"
| "sort_inner xs (Suc k) =
     (if vlen (xs ! Suc k) > vlen (xs ! k)
      then sort_inner (xs[Suc k := xs ! k, k := xs ! Suc k]) k
      else xs)"

lemma length_sort_inner [simp]: "length (sort_inner xs j) = length xs"
  by (induction xs j rule: sort_inner.induct) auto

function sort_outer :: "Secret list \<Rightarrow> nat \<Rightarrow> Secret list" where
  "sort_outer xs i = (if i < length xs then sort_outer (sort_inner xs i) (Suc i) else xs)"
  by pat_completeness auto
termination
  by (relation "measure (\<lambda>(xs, i). length xs - i)") auto

declare sort_outer.simps [simp del]

definition sortSecretsByValueLength :: "Secret list \<Rightarrow> Secret list" where
  "sortSecretsByValueLength secrets = sort_outer secrets 1"

text \<open>The loop of \<^verbatim>\<open>RedactSecrets\<close>.\<close>

fun redact_loop :: "Secret list \<Rightarrow> string \<Rightarrow> string \<Rightarrow> string" where
  "redact_loop [] placeholder result = result"
| "redact_loop (s # ss) placeholder result =
     redact_loop ss placeholder
       (if sec_Value s = [] then result else ReplaceAll result (sec_Value s) placeholder)"

definition RedactSecrets :: "string \<Rightarrow> Secret list \<Rightarrow> string \<Rightarrow> string" where
  "RedactSecrets output secrets placeholder =
     (if length secrets = 0 \<or> output = [] then output
      else redact_loop (sortSecretsByValueLength secrets) placeholder output)"

definition redactionPlaceholder :: string where
  "redactionPlaceholder = ''***REDACTED***''"

subsection \<open>The sort\<close>

text \<open>One run of the inner loop inserts an element behind all that are at least as long.\<close>

definition insert_desc :: "Secret \<Rightarrow> Secret list \<Rightarrow> Secret list" where
  "insert_desc x ys =
     takeWhile (\<lambda>y. vlen x \<le> vlen y) ys @ x # dropWhile (\<lambda>y. vlen x \<le> vlen y) ys"

abbreviation desc_key :: "Secret \<Rightarrow> int" where
  "desc_key s \<equiv> - int (vlen s)"

lemma insert_desc_mset: "mset (insert_desc x ys) = add_mset x (mset ys)"
  unfolding insert_desc_def
  by (metis add_mset_add_single mset_append mset.simps(2) takeWhile_dropWhile_id
      union_mset_add_mset_right)

lemma insert_desc_sorted:
  assumes "sorted (map desc_key ys)"
  shows "sorted (map desc_key (insert_desc x ys))"
  using assms
proof (induction ys)
  case (Cons y ys)
  then show ?case
    by (auto simp: insert_desc_def dest!: set_takeWhileD set_dropWhileD)
qed (simp add: insert_desc_def)

lemma insert_desc_stable:
  assumes "sorted (map desc_key ys)"
  shows "filter (\<lambda>z. desc_key k = desc_key z) (insert_desc x ys)
       = filter (\<lambda>z. desc_key k = desc_key z) (ys @ [x])"
  using assms
proof (induction ys)
  case (Cons y ys)
  show ?case
  proof (cases "vlen x \<le> vlen y")
    case True
    then have "insert_desc x (y # ys) = y # insert_desc x ys" by (simp add: insert_desc_def)
    with Cons show ?thesis by (auto split: if_splits)
  next
    case False
    then have "\<forall>z \<in> set (y # ys). vlen z < vlen x" using Cons.prems by fastforce
    then have "vlen k = vlen x \<Longrightarrow> filter (\<lambda>z. vlen k = vlen z) (y # ys) = []"
      by (auto simp: filter_empty_conv)
    with False show ?thesis by (auto simp: insert_desc_def)
  qed
qed (simp add: insert_desc_def)

lemma sort_inner_insert:
  "sorted (map desc_key ys) \<Longrightarrow>
     sort_inner (ys @ x # zs) (length ys) = insert_desc x ys @ zs"
proof (induction ys arbitrary: zs rule: rev_induct)
  case (snoc y ys)
  have sorted: "sorted (map desc_key ys)" and le: "\<forall>z \<in> set ys. vlen y \<le> vlen z"
    using snoc.prems by (auto simp: sorted_append)
  show ?case
  proof (cases "vlen x > vlen y")
    case True
    have "sort_inner ((ys @ [y]) @ x # zs) (length (ys @ [y])) = sort_inner (ys @ x # y # zs) (length ys)"
      using True by (simp add: nth_append list_update_append)
    also have "\<dots> = insert_desc x ys @ y # zs" using snoc.IH [OF sorted] .
    also have "insert_desc x ys @ y # zs = insert_desc x (ys @ [y]) @ zs"
      using True by (simp add: insert_desc_def takeWhile_append dropWhile_append)
    finally show ?thesis .
  next
    case False
    with le have "\<forall>z \<in> set (ys @ [y]). vlen x \<le> vlen z" by auto
    then have "insert_desc x (ys @ [y]) = ys @ [y, x]"
      by (simp add: insert_desc_def takeWhile_append dropWhile_append)
    with False show ?thesis by (simp add: nth_append)
  qed
qed (simp add: insert_desc_def)

lemma sort_outer_fold:
  "sorted (map desc_key ys) \<Longrightarrow>
     sort_outer (ys @ xs) (length ys) = foldl (\<lambda>acc x. insert_desc x acc) ys xs"
proof (induction xs arbitrary: ys)
  case Nil
  then show ?case by (simp add: sort_outer.simps)
next
  case (Cons x xs)
  have "length (insert_desc x ys) = Suc (length ys)"
    by (metis insert_desc_mset size_mset size_add_mset)
  with Cons show ?case
    by (subst sort_outer.simps)
      (simp add: sort_inner_insert insert_desc_sorted flip: \<open>length (insert_desc x ys) = _\<close>)
qed

lemma fold_insert_desc:
  assumes "sorted (map desc_key ys)"
  shows "sorted (map desc_key (foldl (\<lambda>acc x. insert_desc x acc) ys xs))
    \<and> mset (foldl (\<lambda>acc x. insert_desc x acc) ys xs) = mset (ys @ xs)
    \<and> filter (\<lambda>z. desc_key k = desc_key z) (foldl (\<lambda>acc x. insert_desc x acc) ys xs)
      = filter (\<lambda>z. desc_key k = desc_key z) (ys @ xs)"
  using assms
proof (induction xs arbitrary: ys)
  case (Cons x xs)
  then show ?case
    using Cons.IH [OF insert_desc_sorted [OF Cons.prems, of x]]
      insert_desc_stable [OF Cons.prems, of k x]
    by (simp add: insert_desc_mset)
qed simp

lemma sort_eq_fold:
  "sortSecretsByValueLength xs = foldl (\<lambda>acc x. insert_desc x acc) [] xs"
proof (cases xs)
  case Nil
  then show ?thesis by (simp add: sortSecretsByValueLength_def sort_outer.simps)
next
  case (Cons x ys)
  have "sort_outer ([x] @ ys) (length [x]) = foldl (\<lambda>acc x. insert_desc x acc) [x] ys"
    by (rule sort_outer_fold) simp
  with Cons show ?thesis by (simp add: sortSecretsByValueLength_def insert_desc_def)
qed

lemma set_sortSecrets: "set (sortSecretsByValueLength xs) = set xs"
  using fold_insert_desc [of "[]" xs] by (metis sort_eq_fold append_Nil list.map(1) mset_eq_setD sorted_simps(1))

text \<open>
  C34: the swap-based insertion sort is the stable sort of the secrets by decreasing value
  length, so equal lengths keep the order of the request and nothing is lost or invented.
\<close>

theorem sortSecretsByValueLength_stable_sort:
  "sortSecretsByValueLength xs = sort_key (\<lambda>s. - int (length (sec_Value s))) xs"
proof -
  have "sort_key desc_key xs = sortSecretsByValueLength xs"
    using fold_insert_desc [of "[]" xs]
    by (intro properties_for_sort_key) (simp_all add: sort_eq_fold)
  then show ?thesis by (simp add: vlen_def)
qed

end
