(* ===== verification/Redaction_Proofs.thy ===== *)
theory Redaction_Proofs
  imports Output_Redaction
begin

text \<open>
  What the redaction of secrets guarantees and what it does not: a value that cannot overlap
  the placeholder is gone from the result, whatever the other secrets are; a value inside the
  placeholder, and one cut by the truncation that runs first, stay readable.
\<close>

section \<open>Replacing and occurrences\<close>

definition no_overlap :: "string \<Rightarrow> string \<Rightarrow> bool" where
  "no_overlap P w \<longleftrightarrow> P \<noteq> [] \<and> w \<noteq> [] \<and> \<not> sublist w P \<and> \<not> sublist P w
     \<and> (\<forall>u. u \<noteq> [] \<and> suffix u P \<longrightarrow> \<not> prefix u w)
     \<and> (\<forall>u. u \<noteq> [] \<and> prefix u P \<longrightarrow> \<not> suffix u w)"

lemma prefix_append_cases: "prefix w (p @ r) \<Longrightarrow> prefix w p \<or> prefix p w"
  by (metis prefixI prefix_same_cases)

lemma ReplaceAll_match:
  "old \<noteq> [] \<Longrightarrow> ReplaceAll (old @ s) old new = new @ ReplaceAll s old new"
  by (subst ReplaceAll.simps) auto

lemma ReplaceAll_skip:
  "\<not> prefix old (c # s) \<Longrightarrow> ReplaceAll (c # s) old new = c # ReplaceAll s old new"
  by (subst ReplaceAll.simps) auto

lemma ReplaceAll_Nil [simp]: "ReplaceAll [] old new = []"
  by (subst ReplaceAll.simps) simp

text \<open>Induction over the runs of \<open>ReplaceAll\<close> with a non-empty pattern.\<close>

lemma ReplaceAll_induct [consumes 1, case_names empty match skip]:
  assumes "old \<noteq> []" and "Q []"
    and "\<And>s. Q s \<Longrightarrow> Q (old @ s)"
    and "\<And>c s. \<not> prefix old (c # s) \<Longrightarrow> Q s \<Longrightarrow> Q (c # s)"
  shows "Q s"
proof (induction s rule: measure_induct_rule [of length])
  case (less s)
  show ?case
  proof (cases "prefix old s")
    case True
    then obtain r where "s = old @ r" by (auto simp: prefix_def)
    with less assms(1,3) show ?thesis by simp
  next
    case False
    with less assms(2,4) show ?thesis by (cases s) auto
  qed
qed

lemma prefix_ReplaceAll:
  assumes "no_overlap P w" and "suffix w' w" and "old \<noteq> []"
    and "prefix w' (ReplaceAll s old P)"
  shows "prefix w' s"
  using assms(3) assms(2,4)
proof (induction s arbitrary: w' rule: ReplaceAll_induct)
  case (match s)
  then have "prefix w' (P @ ReplaceAll s old P)" using assms(3) by (simp add: ReplaceAll_match)
  then have "prefix w' P \<or> prefix P w'" by (rule prefix_append_cases)
  then have "w' = []"
  proof
    assume "prefix w' P"
    with match assms(1) show ?thesis by (auto simp: no_overlap_def)
  next
    assume "prefix P w'"
    then have "sublist P w"
      using match by (meson prefix_imp_sublist sublist_order.order_trans suffix_imp_sublist)
    with assms(1) show ?thesis by (simp add: no_overlap_def)
  qed
  then show ?case by simp
next
  case (skip c s)
  show ?case
  proof (cases w')
    case (Cons a u)
    with skip have "a = c" "prefix u (ReplaceAll s old P)" by (simp_all add: ReplaceAll_skip)
    moreover have "suffix u w" using skip Cons by (meson suffix_ConsD)
    ultimately show ?thesis using skip Cons by simp
  qed simp
qed simp

text \<open>Replacing anything by the placeholder creates no occurrence of such a value.\<close>

lemma sublist_ReplaceAll:
  assumes "no_overlap P w" and "old \<noteq> []" and "sublist w (ReplaceAll s old P)"
  shows "sublist w s"
  using assms(2,3)
proof (induction s rule: ReplaceAll_induct)
  case (match s)
  then have "sublist w (P @ ReplaceAll s old P)" using assms(2) by (simp add: ReplaceAll_match)
  then consider "sublist w P" | "sublist w (ReplaceAll s old P)"
    | x y where "w = x @ y" "suffix x P" "prefix y (ReplaceAll s old P)"
    by (auto simp: sublist_append)
  then show ?case
  proof cases
    case 1
    with assms(1) show ?thesis by (simp add: no_overlap_def)
  next
    case 2
    with match show ?thesis by (simp add: sublist_append)
  next
    case 3
    then have "x = []" using assms(1) by (auto simp: no_overlap_def)
    with 3 have "sublist w (ReplaceAll s old P)" by (simp add: prefix_imp_sublist)
    with match show ?thesis by (simp add: sublist_append)
  qed
next
  case (skip c s)
  then have "prefix w (ReplaceAll (c # s) old P) \<or> sublist w (ReplaceAll s old P)"
    by (simp add: ReplaceAll_skip sublist_Cons_right)
  then show ?case
    using skip prefix_ReplaceAll [OF assms(1) suffix_order.order_refl assms(2), of "c # s"]
    by (auto simp: sublist_Cons_right)
qed (use assms in \<open>simp add: no_overlap_def\<close>)

text \<open>A value that is itself replaced does not survive.\<close>

lemma ReplaceAll_removes:
  assumes "no_overlap P w"
  shows "\<not> sublist w (ReplaceAll s w P)"
proof -
  have "w \<noteq> []" using assms by (simp add: no_overlap_def)
  then show ?thesis
  proof (induction s rule: ReplaceAll_induct)
    case (match s)
    have "\<not> sublist w (P @ ReplaceAll s w P)"
    proof
      assume "sublist w (P @ ReplaceAll s w P)"
      then obtain x y where "w = x @ y" "suffix x P" "prefix y (ReplaceAll s w P)"
        using match assms by (auto simp: sublist_append no_overlap_def)
      moreover then have "x = []" using assms by (auto simp: no_overlap_def)
      ultimately show False using match by (simp add: prefix_imp_sublist)
    qed
    with \<open>w \<noteq> []\<close> show ?case by (simp add: ReplaceAll_match)
  next
    case (skip c s)
    then show ?case
      using prefix_ReplaceAll [OF assms suffix_order.order_refl \<open>w \<noteq> []\<close>, of "c # s"]
      by (auto simp: ReplaceAll_skip sublist_Cons_right)
  qed (use \<open>w \<noteq> []\<close> in simp)
qed

lemma ReplaceAll_id: "\<not> sublist old s \<Longrightarrow> ReplaceAll s old new = s"
  by (induction s) (simp_all add: sublist_Cons_right ReplaceAll_skip)

text \<open>Where the pattern occurs, the replacement does.\<close>

lemma ReplaceAll_inserts:
  assumes "w \<noteq> []" and "sublist w s"
  shows "sublist P (ReplaceAll s w P)"
  using assms
proof (induction s rule: ReplaceAll_induct)
  case (match s)
  then show ?case using assms(1) by (simp add: ReplaceAll_match)
next
  case (skip c s)
  then show ?case by (auto simp: ReplaceAll_skip sublist_Cons_right)
qed (use assms(1) in simp)

section \<open>The redaction loop\<close>

lemma redact_loop_keeps_absent:
  "no_overlap P w \<Longrightarrow> \<not> sublist w r \<Longrightarrow> \<not> sublist w (redact_loop ss P r)"
  by (induction ss arbitrary: r) (auto dest: sublist_ReplaceAll)

lemma redact_loop_removes:
  "no_overlap P w \<Longrightarrow> w \<in> sec_Value ` set ss \<Longrightarrow> \<not> sublist w (redact_loop ss P r)"
proof (induction ss arbitrary: r)
  case (Cons s ss)
  show ?case
  proof (cases "sec_Value s = w")
    case True
    with Cons.prems have "w \<noteq> []" by (simp add: no_overlap_def)
    with True Cons.prems show ?thesis
      by (simp add: redact_loop_keeps_absent ReplaceAll_removes)
  next
    case False
    with Cons show ?thesis by auto
  qed
qed simp

lemma redact_loop_id:
  "\<forall>s \<in> set ss. sec_Value s \<noteq> [] \<longrightarrow> \<not> sublist (sec_Value s) r \<Longrightarrow> redact_loop ss P r = r"
  by (induction ss) (auto simp: ReplaceAll_id)

text \<open>
  A usable condition for the placeholder of the executor: no asterisk in the value, and the
  value not a piece of the placeholder.
\<close>

lemma no_overlap_redactionPlaceholder:
  assumes "w \<noteq> []" and "CHR ''*'' \<notin> set w" and "\<not> sublist w redactionPlaceholder"
  shows "no_overlap redactionPlaceholder w"
proof -
  have star: "u \<noteq> [] \<Longrightarrow> suffix u redactionPlaceholder \<Longrightarrow> CHR ''*'' \<in> set u" for u
    by (auto simp: suffix_def redactionPlaceholder_def Cons_eq_append_conv)
  have star': "u \<noteq> [] \<Longrightarrow> prefix u redactionPlaceholder \<Longrightarrow> CHR ''*'' \<in> set u" for u
    by (cases u) (auto simp: redactionPlaceholder_def)
  have "\<not> sublist redactionPlaceholder w"
    using assms(2) set_mono_sublist [of redactionPlaceholder w] by (auto simp: redactionPlaceholder_def)
  then show ?thesis
    using assms star star'
    by (auto simp: no_overlap_def redactionPlaceholder_def dest: set_mono_prefix set_mono_suffix)
qed

text \<open>
  C5: every secret value that holds no asterisk and is not a piece of the placeholder is
  absent from the redacted output, for every output and whatever the other secrets are, even
  if they overlap it or each other.
\<close>

theorem RedactSecrets_removes:
  assumes "s \<in> set secrets" and "sec_Value s \<noteq> []" and "CHR ''*'' \<notin> set (sec_Value s)"
    and "\<not> sublist (sec_Value s) redactionPlaceholder"
  shows "\<not> sublist (sec_Value s) (RedactSecrets out secrets redactionPlaceholder)"
  using assms redact_loop_removes [OF no_overlap_redactionPlaceholder [OF assms(2-4)],
      of "sortSecretsByValueLength secrets" out]
  by (auto simp: RedactSecrets_def set_sortSecrets)

theorem RedactSecrets_removes_witness:
  "\<not> sublist ''abc'' (RedactSecrets ''xabcabcd''
     [\<lparr>sec_Name = ''A'', sec_Value = ''abc'', sec_FilePath = None\<rparr>,
      \<lparr>sec_Name = ''B'', sec_Value = ''bcd'', sec_FilePath = None\<rparr>] redactionPlaceholder)"
  using RedactSecrets_removes
    [of "\<lparr>sec_Name = ''A'', sec_Value = ''abc'', sec_FilePath = None\<rparr>"
      "[\<lparr>sec_Name = ''A'', sec_Value = ''abc'', sec_FilePath = None\<rparr>,
        \<lparr>sec_Name = ''B'', sec_Value = ''bcd'', sec_FilePath = None\<rparr>]" "''xabcabcd''"]
  by (simp add: redactionPlaceholder_def sublist_Cons_right)

text \<open>
  Output that holds no secret value is returned byte for byte.
\<close>

theorem RedactSecrets_unchanged:
  assumes "\<forall>s \<in> set secrets. sec_Value s \<noteq> [] \<longrightarrow> \<not> sublist (sec_Value s) out"
  shows "RedactSecrets out secrets P = out"
  using assms by (simp add: RedactSecrets_def redact_loop_id set_sortSecrets)

theorem RedactSecrets_unchanged_witness:
  "RedactSecrets ''hello'' [\<lparr>sec_Name = ''A'', sec_Value = ''abc'', sec_FilePath = None\<rparr>] ''***''
     = ''hello''"
  by (rule RedactSecrets_unchanged) (simp add: sublist_Cons_right)

text \<open>
  A secret whose value is a piece of the placeholder stays in the output after redaction,
  although the documentation of \<open>RedactSecrets\<close> promises that no value remains.
\<close>

theorem RedactSecrets_placeholder_leak:
  assumes "sec_Value s \<noteq> []" and "sublist (sec_Value s) P" and "sublist (sec_Value s) out"
  shows "sublist (sec_Value s) (RedactSecrets out [s] P)"
proof -
  have "RedactSecrets out [s] P = ReplaceAll out (sec_Value s) P"
    using assms by (auto simp: RedactSecrets_def sort_eq_fold insert_desc_def)
  moreover have "sublist P (ReplaceAll out (sec_Value s) P)"
    using assms by (intro ReplaceAll_inserts)
  ultimately show ?thesis using assms(2) by (metis sublist_order.order_trans)
qed

theorem RedactSecrets_placeholder_leak_witness:
  "sublist ''ACT'' (RedactSecrets ''pin=ACT''
     [\<lparr>sec_Name = ''PIN'', sec_Value = ''ACT'', sec_FilePath = None\<rparr>] redactionPlaceholder)"
  using RedactSecrets_placeholder_leak
    [of "\<lparr>sec_Name = ''PIN'', sec_Value = ''ACT'', sec_FilePath = None\<rparr>" redactionPlaceholder "''pin=ACT''"]
  by (simp add: redactionPlaceholder_def sublist_Cons_right)

end
