(* ===== verification/Config.thy ===== *)
theory Config
  imports Go_Strings
begin

text \<open>
  \<^verbatim>\<open>pkg/config/config.go\<close>: the worker's configuration, read from the environment. The
  environment is the function \<open>os.Getenv\<close>, which gives the empty string for a variable
  that is not set.
\<close>

section \<open>The configuration record and its loader\<close>

type_synonym environment = "string \<Rightarrow> string"

record Config =
  cfg_ListenAddr :: string
  cfg_Runtime :: string
  cfg_RuntimeSocket :: string
  cfg_RegistryWhitelist :: "string list"
  cfg_DefaultTimeout :: duration
  cfg_MaxTimeout :: duration
  cfg_MaxOutputBytes :: i64
  cfg_ImagePullTimeout :: duration

definition envOrDefault :: "environment \<Rightarrow> string \<Rightarrow> string \<Rightarrow> string" where
  "envOrDefault env key defaultVal = (let v = env key in if v \<noteq> [] then v else defaultVal)"

definition parseDurationEnv :: "environment \<Rightarrow> string \<Rightarrow> duration \<Rightarrow> duration" where
  "parseDurationEnv env key defaultVal =
     (let raw = env key in
      if raw = [] then defaultVal
      else (case ParseInt raw of
              None \<Rightarrow> defaultVal
            | Some seconds \<Rightarrow> seconds * second))"

definition parseIntEnv :: "environment \<Rightarrow> string \<Rightarrow> i64 \<Rightarrow> i64" where
  "parseIntEnv env key defaultVal =
     (let raw = env key in
      if raw = [] then defaultVal
      else (case ParseInt raw of None \<Rightarrow> defaultVal | Some val \<Rightarrow> val))"

text \<open>The loop over the comma-separated parts (lines 37 to 45).\<close>

definition parseWhitelist :: "string \<Rightarrow> string list" where
  "parseWhitelist raw =
     (if raw \<noteq> []
      then filter (\<lambda>t. t \<noteq> []) (map TrimSpace (Split raw (CHR '','')))
      else [])"

definition docker_socket :: string where
  "docker_socket = ''/var/run/docker.sock''"

definition podman_socket :: string where
  "podman_socket = ''/run/podman/podman.sock''"

definition Load :: "unicode \<Rightarrow> environment \<Rightarrow> go_error + Config" where
  "Load uc env =
     (let cfg = \<lparr>cfg_ListenAddr = envOrDefault env ''LISTEN_ADDR'' '':8080'',
                 cfg_Runtime = envOrDefault env ''RUNTIME'' ''docker'',
                 cfg_RuntimeSocket = env ''RUNTIME_SOCKET'',
                 cfg_RegistryWhitelist = parseWhitelist (env ''REGISTRY_WHITELIST''),
                 cfg_DefaultTimeout = parseDurationEnv env ''DEFAULT_TIMEOUT'' (300 * second),
                 cfg_MaxTimeout = parseDurationEnv env ''MAX_TIMEOUT'' (3600 * second),
                 cfg_MaxOutputBytes = parseIntEnv env ''MAX_OUTPUT_BYTES'' 1048576,
                 cfg_ImagePullTimeout = parseDurationEnv env ''IMAGE_PULL_TIMEOUT'' (120 * second)\<rparr>
      in if cfg_Runtime cfg \<noteq> ''docker'' \<and> cfg_Runtime cfg \<noteq> ''podman''
         then Inl (''invalid RUNTIME value '' @ quote uc (cfg_Runtime cfg) @ '': must be ''
                     @ dquote # ''docker'' @ dquote # '' or '' @ dquote # ''podman'' @ [dquote])
         else if cfg_RuntimeSocket cfg = []
         then Inr (cfg\<lparr>cfg_RuntimeSocket :=
                         (if cfg_Runtime cfg = ''docker'' then docker_socket else podman_socket)\<rparr>)
         else Inr cfg)"

text \<open>The configuration of an empty environment, used to evaluate definitions.\<close>

definition sample_config :: Config where
  "sample_config = \<lparr>cfg_ListenAddr = '':8080'', cfg_Runtime = ''docker'',
     cfg_RuntimeSocket = docker_socket, cfg_RegistryWhitelist = [],
     cfg_DefaultTimeout = 300 * second, cfg_MaxTimeout = 3600 * second,
     cfg_MaxOutputBytes = 1048576, cfg_ImagePullTimeout = 120 * second\<rparr>"

lemma Load_empty_environment: "Load uc (\<lambda>_. []) = Inr sample_config"
  by (simp add: Load_def sample_config_def envOrDefault_def parseWhitelist_def
      parseDurationEnv_def parseIntEnv_def)

section \<open>Environment readers\<close>

lemma parseIntEnv_round_trip:
  assumes "fits_i64 x" and "env key = show_int x"
  shows "parseIntEnv env key d = word_of_int x"
proof -
  have "show_int x \<noteq> []" by (simp add: show_int_def)
  with assms show ?thesis by (simp add: parseIntEnv_def ParseInt_show_int)
qed

lemma parseDurationEnv_round_trip:
  assumes "\<bar>x\<bar> \<le> 9223372036" and "env key = show_int x"
  shows "sint (parseDurationEnv env key d) = x * 1000000000"
proof -
  have fits: "fits_i64 x" using assms(1) by (auto simp: fits_i64_def abs_le_iff)
  then have s: "sint (word_of_int x :: i64) = x" by (rule sint_word_of_int_fits)
  have "show_int x \<noteq> []" by (simp add: show_int_def)
  then have "parseDurationEnv env key d = word_of_int x * second"
    using assms(2) fits by (simp add: parseDurationEnv_def ParseInt_show_int)
  with s assms(1) show ?thesis by (simp add: sint_times_second)
qed

section \<open>The whitelist\<close>

lemma parseWhitelist_entry:
  assumes "p \<in> set (parseWhitelist raw)"
  shows "p \<noteq> []" and "CHR '','' \<notin> set p"
    and "e \<in> set space_encodings \<Longrightarrow> \<not> prefix e p \<and> \<not> suffix e p"
proof -
  obtain q where q: "q \<in> set (Split raw (CHR '',''))" "p = TrimSpace q" "p \<noteq> []"
    using assms by (auto simp: parseWhitelist_def split: if_splits)
  show "p \<noteq> []" by fact
  show "CHR '','' \<notin> set p"
    using q Split_pieces [of q raw "CHR '',''"] set_mono_sublist [OF TrimSpace_sublist [of q]]
    by auto
  show "e \<in> set space_encodings \<Longrightarrow> \<not> prefix e p \<and> \<not> suffix e p"
    using q by (simp add: TrimSpace_no_leading TrimSpace_no_trailing)
qed

end
