(* ===== verification/Config_Proofs.thy ===== *)
theory Config_Proofs
  imports Config
begin

text \<open>
  What \<^verbatim>\<open>config.Load\<close> accepts and what it makes of the environment: the runtime and its
  socket, the registry whitelist, and the durations with the range in which they are exact.
\<close>

section \<open>The whitelist\<close>

fun comma_join :: "string list \<Rightarrow> string" where
  "comma_join [] = []"
| "comma_join [s] = s"
| "comma_join (s # t # ss) = s @ CHR '','' # comma_join (t # ss)"

lemma Split_append: "c \<notin> set s \<Longrightarrow> Split (s @ c # t) c = s # Split t c"
  by (induction s) auto

lemma Split_comma_join:
  "ss \<noteq> [] \<Longrightarrow> \<forall>s \<in> set ss. CHR '','' \<notin> set s \<Longrightarrow> Split (comma_join ss) (CHR '','') = ss"
  by (induction ss rule: comma_join.induct) (simp_all add: Split_absent Split_append)

definition clean :: "string \<Rightarrow> bool" where
  "clean s \<longleftrightarrow> s \<noteq> [] \<and> CHR '','' \<notin> set s
     \<and> (\<forall>e \<in> set space_encodings. \<not> prefix e s \<and> \<not> suffix e s)"

lemma space_encoding_bytes:
  "e \<in> set space_encodings \<Longrightarrow> c \<in> set e \<Longrightarrow> byte c \<le> 32 \<or> 128 \<le> byte c"
proof -
  define codes where "codes = [[9 :: nat], [10], [11], [12], [13], [32], [0xC2, 0x85], [0xC2, 0xA0],
         [0xE1, 0x9A, 0x80], [0xE2, 0x80, 0xA8], [0xE2, 0x80, 0xA9], [0xE2, 0x80, 0xAF],
         [0xE2, 0x81, 0x9F], [0xE3, 0x80, 0x80]]
        @ map (\<lambda>k. [0xE2, 0x80, 0x80 + k]) [0..<11]"
  have enc: "space_encodings = map (map char_of) codes"
    by (simp only: space_encodings_def codes_def)
  have "list_all (list_all (\<lambda>n. n mod 256 \<le> 32 \<or> 128 \<le> n mod 256)) codes"
    unfolding codes_def by code_simp
  then have "\<forall>b \<in> set codes. \<forall>n \<in> set b. n mod 256 \<le> 32 \<or> 128 \<le> n mod 256"
    unfolding list_all_iff .
  note codes = this
  assume "e \<in> set space_encodings" and "c \<in> set e"
  then obtain b n where "b \<in> set codes" "n \<in> set b" "c = char_of n" by (auto simp: enc)
  with codes show "byte c \<le> 32 \<or> 128 \<le> byte c" by (simp only: of_char_of)
qed

text \<open>Printable ASCII without blanks and commas is clean.\<close>

lemma clean_graphic:
  assumes "s \<noteq> []" and "list_all (\<lambda>c. 32 < byte c \<and> byte c < 128 \<and> c \<noteq> CHR '','') s"
  shows "clean s"
proof -
  have "\<not> prefix e s \<and> \<not> suffix e s" if e: "e \<in> set space_encodings" for e
  proof -
    obtain c cs where c: "e = c # cs" using space_encodings_nonempty [OF e] by (cases e) auto
    have "c \<in> set e" by (simp add: c)
    then have "byte c \<le> 32 \<or> 128 \<le> byte c" by (rule space_encoding_bytes [OF e])
    moreover have "c \<in> set s \<Longrightarrow> 32 < byte c \<and> byte c < 128" using assms(2) by (simp only: list_all_iff)
    ultimately have "c \<notin> set s" by linarith
    then show ?thesis by (auto simp: c dest!: set_mono_prefix set_mono_suffix)
  qed
  with assms show ?thesis by (auto simp: clean_def list_all_iff)
qed

definition blanks :: "nat \<Rightarrow> string" where
  "blanks n = replicate n (CHR '' '')"

definition padded :: "nat \<times> string \<times> nat \<Rightarrow> string" where
  "padded = (\<lambda>(a, s, b). blanks a @ s @ blanks b)"

lemma strip_clean: "\<forall>e \<in> set encs. e = [] \<or> \<not> prefix e s \<Longrightarrow> strip encs s = s"
  by (subst strip.simps) (auto split: option.splits simp: find_Some_iff)

lemma char_of_blank: "char_of n = CHR '' '' \<longleftrightarrow> n mod 256 = (32 :: nat)"
proof -
  have "CHR '' '' = char_of (32 :: nat)" by code_simp
  then show ?thesis by (simp only: char_of_quasi_inj) simp
qed

lemma space_encodings_blank:
  "'' '' \<in> set space_encodings"
  "e \<in> set space_encodings \<Longrightarrow> CHR '' '' \<in> set e \<Longrightarrow> e = '' ''"
proof -
  have "[char_of (32 :: nat)] \<in> set space_encodings" by (simp add: space_encodings_def)
  then show "'' '' \<in> set space_encodings" by (simp add: char_of_blank [THEN iffD2])
  assume "e \<in> set space_encodings" and "CHR '' '' \<in> set e"
  then show "e = '' ''"
    by (auto simp: space_encodings_def char_of_blank eq_commute [of "CHR '' ''"])
qed
lemma strip_blank:
  assumes "'' '' \<in> set encs" and "\<And>e. e \<in> set encs \<Longrightarrow> CHR '' '' \<in> set e \<Longrightarrow> e = '' ''"
  shows "strip encs (CHR '' '' # s) = strip encs s"
proof (cases "List.find (\<lambda>e. e \<noteq> [] \<and> prefix e (CHR '' '' # s)) encs")
  case None
  then show ?thesis using assms(1) by (auto simp: find_None_iff)
next
  case (Some e)
  then have e: "e \<in> set encs" "e \<noteq> []" "prefix e (CHR '' '' # s)"
    by (auto simp: find_Some_iff)
  then have "CHR '' '' \<in> set e" by (auto simp: prefix_Cons)
  then have "e = '' ''" using assms(2) e(1) by blast
  with Some show ?thesis by (subst strip.simps) simp
qed

lemma strip_blanks:
  "strip space_encodings (blanks n @ s) = strip space_encodings s"
  "strip (map rev space_encodings) (blanks n @ s) = strip (map rev space_encodings) s"
proof -
  have "rev '' '' \<in> rev ` set space_encodings" using space_encodings_blank(1) by (rule imageI)
  then have r: "'' '' \<in> set (map rev space_encodings)" by simp
  have e: "e = '' ''" if e: "e \<in> set (map rev space_encodings)" "CHR '' '' \<in> set e" for e
  proof -
    obtain e' where "e = rev e'" "e' \<in> set space_encodings" using e(1) by auto
    with e(2) space_encodings_blank(2) [of e'] show ?thesis by simp
  qed
  have b: "strip (map rev space_encodings) (CHR '' '' # t) = strip (map rev space_encodings) t" for t
    by (rule strip_blank [OF r]) (rule e)
  show "strip (map rev space_encodings) (blanks n @ s) = strip (map rev space_encodings) s"
    by (induction n) (simp_all add: blanks_def b)
  have c: "strip space_encodings (CHR '' '' # t) = strip space_encodings t" for t
    by (rule strip_blank [OF space_encodings_blank(1)]) (rule space_encodings_blank(2))
  show "strip space_encodings (blanks n @ s) = strip space_encodings s"
    by (induction n) (simp_all add: blanks_def c)
qed

lemma set_blanks: "set (blanks n) \<subseteq> {CHR '' ''}"
  by (auto simp: blanks_def)

lemma TrimSpace_padded:
  assumes "clean s"
  shows "TrimSpace (blanks a @ s @ blanks b) = s"
proof -
  have "strip space_encodings (s @ blanks b) = s @ blanks b"
  proof (rule strip_clean, intro ballI disjI2 notI)
    fix e assume e: "e \<in> set space_encodings" and p: "prefix e (s @ blanks b)"
    with assms obtain u where u: "e = s @ u" "u \<noteq> []" "prefix u (blanks b)"
      by (auto simp: clean_def prefix_append)
    then have "CHR '' '' \<in> set e" using set_blanks [of b] set_mono_prefix [OF u(3)]
      by (cases u) auto
    then have "e = '' ''" by (rule space_encodings_blank(2) [OF e])
    with u(1,2) assms show False by (cases s) (auto simp: clean_def)
  qed
  moreover have "strip (map rev space_encodings) (rev s) = rev s"
    using assms by (intro strip_clean) (auto simp: clean_def suffix_to_prefix)
  moreover have "rev (s @ blanks b) = blanks b @ rev s" by (simp add: blanks_def)
  ultimately show ?thesis by (simp add: TrimSpace_def strip_blanks del: rev_append)
qed

lemma parseWhitelist_entries:
  assumes "list_all (\<lambda>(a, s, b). clean s) ws"
  shows "parseWhitelist (comma_join (map padded ws)) = map (\<lambda>(a, s, b). s) ws"
proof (cases "ws = []")
  case False
  have comma: "\<forall>p \<in> set (map padded ws). CHR '','' \<notin> set p"
    using assms by (auto simp: list_all_iff padded_def clean_def blanks_def)
  have trim: "map (TrimSpace \<circ> padded) ws = map (\<lambda>(a, s, b). s) ws"
    using assms by (auto simp: list_all_iff padded_def TrimSpace_padded)
  have keep: "filter (\<lambda>t. t \<noteq> []) (map (\<lambda>(a, s, b). s) ws) = map (\<lambda>(a, s, b). s) ws"
    using assms by (auto simp: list_all_iff clean_def filter_id_conv)
  have "comma_join (map padded ws) \<noteq> []"
    using False assms by (cases ws rule: comma_join.cases [of "map padded ws", case_product list.exhaust])
      (auto simp: padded_def clean_def)
  then have "parseWhitelist (comma_join (map padded ws))
      = filter (\<lambda>t. t \<noteq> []) (map (TrimSpace \<circ> padded) ws)"
    using Split_comma_join [OF _ comma] False by (simp add: parseWhitelist_def)
  then show ?thesis by (simp only: trim keep)
qed (simp add: parseWhitelist_def)

text \<open>
  C35: a whitelist written as entries separated by commas, with any number of blanks around each,
  is read back as exactly these entries, in their order, for entries that are not empty,
  contain no comma and neither begin nor end with white space.
\<close>

theorem parseWhitelist_round_trip:
  assumes "list_all (\<lambda>(a, s, b). clean s) ws"
  shows "parseWhitelist (comma_join (map padded ws)) = map (\<lambda>(a, s, b). s) ws"
  using assms by (rule parseWhitelist_entries)

theorem parseWhitelist_round_trip_witness:
  "parseWhitelist (comma_join (map padded [(0, ''a'', 1), (1, ''ghcr'', 0)])) = [''a'', ''ghcr'']"
proof -
  have "clean ''a''" "clean ''ghcr''" by (rule clean_graphic; simp)+
  with parseWhitelist_round_trip [of "[(0, ''a'', 1), (1, ''ghcr'', 0)]"] show ?thesis by simp
qed

section \<open>Durations\<close>

lemma show_int_not_Nil [simp]: "show_int x \<noteq> []"
  by (simp add: show_int_def)

lemma ParseInt_show_int_None:
  assumes "\<not> fits_i64 x"
  shows "ParseInt (show_int x) = None"
proof (cases "x < 0")
  case True
  then have "nat (- x) > 2 ^ 63" using assms by (simp add: fits_i64_def)
  with True show ?thesis by (simp add: ParseInt_def show_int_def)
next
  case False
  then have lt: "2 ^ 63 \<le> nat x" using assms by (simp add: fits_i64_def)
  obtain d cs where d: "d < 10" "show_nat (nat x) = digit_char d # cs"
    using hd_show_nat by blast
  have "parse_uint (digit_char d # cs) = Some (nat x)" using d parse_uint_show_nat by metis
  with False d lt digit_char_neq_sign [OF d(1)] show ?thesis
    by (simp add: ParseInt_def show_int_def)
qed

text \<open>
  C40: a duration variable holds a number of seconds, negative ones included. The product in
  nanoseconds is not checked: for every number within int64 the configured duration is the
  remainder of the exact product in the signed 64-bit range, and this is the exact product if
  and only if the number is at most 9223372036 in magnitude; beyond that, on either side, the
  duration is another one. A number outside int64 and anything that is not a decimal number
  silently give the default.
\<close>

theorem parseDurationEnv_correct:
  "(\<forall>x. env key = show_int x \<longrightarrow>
      sint (parseDurationEnv env key d) =
        (if fits_i64 x then (x * 1000000000 + 2 ^ 63) mod 2 ^ 64 - 2 ^ 63 else sint d)
      \<and> (fits_i64 x \<longrightarrow> (sint (parseDurationEnv env key d) = x * 1000000000 \<longleftrightarrow> \<bar>x\<bar> \<le> 9223372036)))
   \<and> (ParseInt (env key) = None \<longrightarrow> parseDurationEnv env key d = d)"
proof (intro conjI allI impI)
  fix x assume k: "env key = show_int x"
  have fits: "parseDurationEnv env key d = word_of_int x * second" if "fits_i64 x"
    using k that by (simp add: parseDurationEnv_def ParseInt_show_int)
  have none: "parseDurationEnv env key d = d" if "\<not> fits_i64 x"
    using k that by (simp add: parseDurationEnv_def ParseInt_show_int_None)
  have wrap: "sint (parseDurationEnv env key d) = wrap_i64 (x * 1000000000)" if "fits_i64 x"
    using sint_mult_wrap [of "word_of_int x" second] that by (simp add: fits sint_word_of_int_fits)
  then show "sint (parseDurationEnv env key d) =
      (if fits_i64 x then (x * 1000000000 + 2 ^ 63) mod 2 ^ 64 - 2 ^ 63 else sint d)"
    using none by (simp add: wrap_i64_def)
  assume x: "fits_i64 x"
  have "fits_i64 (sint (parseDurationEnv env key d))" by simp
  then have "sint (parseDurationEnv env key d) = x * 1000000000 \<longleftrightarrow> fits_i64 (x * 1000000000)"
    using wrap [OF x] wrap_i64_fits by metis
  then show "sint (parseDurationEnv env key d) = x * 1000000000 \<longleftrightarrow> \<bar>x\<bar> \<le> 9223372036"
    by (simp add: fits_i64_def abs_le_iff) linarith
qed (simp add: parseDurationEnv_def Let_def)

theorem parseDurationEnv_correct_witness:
  "sint (parseDurationEnv (\<lambda>_. show_int (-5)) ''DEFAULT_TIMEOUT'' (300 * second)) = -5000000000
   \<and> sint (parseDurationEnv (\<lambda>_. show_int 9223372037) ''DEFAULT_TIMEOUT'' (300 * second)) = -9223372036709551616
   \<and> sint (parseDurationEnv (\<lambda>_. show_int (-20000000000)) ''DEFAULT_TIMEOUT'' (300 * second)) = -1553255926290448384
   \<and> parseDurationEnv (\<lambda>_. ''5m'') ''DEFAULT_TIMEOUT'' (300 * second) = 300 * second"
proof -
  have "ParseInt ''5m'' = None" by code_simp
  then show ?thesis
    using parseDurationEnv_correct [of "\<lambda>_. show_int (-5)" "''DEFAULT_TIMEOUT''" "300 * second"]
      parseDurationEnv_correct [of "\<lambda>_. show_int 9223372037" "''DEFAULT_TIMEOUT''" "300 * second"]
      parseDurationEnv_correct [of "\<lambda>_. show_int (-20000000000)" "''DEFAULT_TIMEOUT''" "300 * second"]
      parseDurationEnv_correct [of "\<lambda>_. ''5m''" "''DEFAULT_TIMEOUT''" "300 * second"]
    by (simp add: fits_i64_def)
qed

section \<open>The whole environment\<close>

text \<open>
  What a numeric variable says: the number \<open>i\<close> when it is printed there, and nothing when it
  is unset or holds something else.
\<close>

fun setting :: "string \<Rightarrow> int option \<Rightarrow> bool" where
  "setting raw (Some i) \<longleftrightarrow> raw = show_int i"
| "setting raw None \<longleftrightarrow> raw = [] \<or> ParseInt raw = None"

fun in_seconds :: "int option \<Rightarrow> bool" where
  "in_seconds (Some i) \<longleftrightarrow> \<bar>i\<bar> \<le> 9223372036"
| "in_seconds None \<longleftrightarrow> True"

lemma parseDurationEnv_setting:
  assumes "setting (env key) x" and "in_seconds x" and "\<bar>n\<bar> \<le> 9223372036"
  shows "sint (parseDurationEnv env key (word_of_int n * second)) = (case x of None \<Rightarrow> n | Some i \<Rightarrow> i) * 1000000000"
proof (cases x)
  case None
  then have "parseDurationEnv env key (word_of_int n * second) = word_of_int n * second"
    using assms(1) by (auto simp: parseDurationEnv_def Let_def)
  moreover have "sint (word_of_int n :: i64) = n"
    using assms(3) by (intro sint_word_of_int_fits) (auto simp: fits_i64_def abs_le_iff)
  ultimately show ?thesis using None assms(3) by (simp add: sint_times_second)
next
  case (Some i)
  then show ?thesis using parseDurationEnv_round_trip [of i env key] assms(1,2) by simp
qed

lemma parseIntEnv_setting:
  assumes "setting (env key) x" and "\<And>i. x = Some i \<Longrightarrow> fits_i64 i"
  shows "sint (parseIntEnv env key d) = (case x of None \<Rightarrow> sint d | Some i \<Rightarrow> i)"
proof (cases x)
  case (Some i)
  then show ?thesis
    using assms parseIntEnv_round_trip [of i env key d] by (simp add: sint_word_of_int_fits)
qed (use assms(1) in \<open>auto simp: parseIntEnv_def Let_def\<close>)

text \<open>
  C25: the configuration of every environment whose whitelist is written as entries between
  commas and blanks and whose durations are at most 9223372036 seconds. \<open>Load\<close> fails
  exactly when \<^verbatim>\<open>RUNTIME\<close> is set to something other than docker or podman. Otherwise every
  field is what its variable says: the address (default \<^verbatim>\<open>:8080\<close>), the runtime (default
  docker), the socket (default that of the runtime), the whitelist entry by entry, the three
  durations in seconds (defaults 300, 3600 and 120) and the output limit in bytes (default
  1048576); a number that cannot be read counts as unset.
\<close>

theorem Load_correct:
  assumes "env ''REGISTRY_WHITELIST'' = comma_join (map padded ws)" and "list_all (\<lambda>(a, s, b). clean s) ws"
    and "setting (env ''DEFAULT_TIMEOUT'') dt" and "in_seconds dt"
    and "setting (env ''MAX_TIMEOUT'') longest" and "in_seconds longest"
    and "setting (env ''IMAGE_PULL_TIMEOUT'') pull" and "in_seconds pull"
    and "setting (env ''MAX_OUTPUT_BYTES'') limit" and "\<And>i. limit = Some i \<Longrightarrow> fits_i64 i"
  shows "if env ''RUNTIME'' \<notin> {[], ''docker'', ''podman''} then \<exists>msg. Load uc env = Inl msg
    else \<exists>cfg. Load uc env = Inr cfg
      \<and> cfg_ListenAddr cfg = (if env ''LISTEN_ADDR'' = [] then '':8080'' else env ''LISTEN_ADDR'')
      \<and> cfg_Runtime cfg = (if env ''RUNTIME'' = ''podman'' then ''podman'' else ''docker'')
      \<and> cfg_RuntimeSocket cfg =
          (if env ''RUNTIME_SOCKET'' \<noteq> [] then env ''RUNTIME_SOCKET''
           else if env ''RUNTIME'' = ''podman'' then ''/run/podman/podman.sock'' else ''/var/run/docker.sock'')
      \<and> cfg_RegistryWhitelist cfg = map (\<lambda>(a, s, b). s) ws
      \<and> sint (cfg_DefaultTimeout cfg) = (case dt of None \<Rightarrow> 300 | Some i \<Rightarrow> i) * 1000000000
      \<and> sint (cfg_MaxTimeout cfg) = (case longest of None \<Rightarrow> 3600 | Some i \<Rightarrow> i) * 1000000000
      \<and> sint (cfg_ImagePullTimeout cfg) = (case pull of None \<Rightarrow> 120 | Some i \<Rightarrow> i) * 1000000000
      \<and> sint (cfg_MaxOutputBytes cfg) = (case limit of None \<Rightarrow> 1048576 | Some i \<Rightarrow> i)"
proof (cases "env ''RUNTIME'' \<in> {[], ''docker'', ''podman''}")
  case True
  have d: "sint (parseDurationEnv env ''DEFAULT_TIMEOUT'' (300 * second)) = (case dt of None \<Rightarrow> 300 | Some i \<Rightarrow> i) * 1000000000"
    "sint (parseDurationEnv env ''MAX_TIMEOUT'' (3600 * second)) = (case longest of None \<Rightarrow> 3600 | Some i \<Rightarrow> i) * 1000000000"
    "sint (parseDurationEnv env ''IMAGE_PULL_TIMEOUT'' (120 * second)) = (case pull of None \<Rightarrow> 120 | Some i \<Rightarrow> i) * 1000000000"
    using parseDurationEnv_setting [where env = env and n = 300, OF assms(3,4)]
      parseDurationEnv_setting [where env = env and n = 3600, OF assms(5,6)]
      parseDurationEnv_setting [where env = env and n = 120, OF assms(7,8)] by simp_all
  have l: "sint (parseIntEnv env ''MAX_OUTPUT_BYTES'' 1048576) = (case limit of None \<Rightarrow> 1048576 | Some i \<Rightarrow> i)"
    using parseIntEnv_setting [where env = env and d = 1048576, OF assms(9,10)] by (cases limit) simp_all
  have w: "parseWhitelist (env ''REGISTRY_WHITELIST'') = map (\<lambda>(a, s, b). s) ws"
    using parseWhitelist_entries [OF assms(2)] assms(1) by simp
  from True d l w show ?thesis
    by (simp add: Load_def Let_def envOrDefault_def docker_socket_def podman_socket_def) auto
qed (simp add: Load_def envOrDefault_def Let_def)

theorem Load_correct_witness:
  "\<exists>cfg. Load plain_unicode (\<lambda>k. if k = ''RUNTIME'' then ''podman'' else if k = ''REGISTRY_WHITELIST'' then ''ghcr''
        else if k = ''MAX_TIMEOUT'' then show_int 60 else if k = ''DEFAULT_TIMEOUT'' then ''5m'' else []) = Inr cfg
     \<and> cfg_RuntimeSocket cfg = ''/run/podman/podman.sock'' \<and> cfg_RegistryWhitelist cfg = [''ghcr'']
     \<and> sint (cfg_MaxTimeout cfg) = 60000000000 \<and> sint (cfg_DefaultTimeout cfg) = 300000000000"
proof -
  let ?env = "\<lambda>k. if k = ''RUNTIME'' then ''podman'' else if k = ''REGISTRY_WHITELIST'' then ''ghcr''
        else if k = ''MAX_TIMEOUT'' then show_int 60 else if k = ''DEFAULT_TIMEOUT'' then ''5m'' else []"
  have "ParseInt ''5m'' = None" by code_simp
  moreover have "clean ''ghcr''" by (rule clean_graphic; simp)
  ultimately show ?thesis
    using Load_correct [of ?env "[(0, ''ghcr'', 0)]" None "Some 60" None None plain_unicode]
    by (auto simp: padded_def blanks_def)
qed

end
