(* ===== verification/Go_Systems.thy ===== *)
theory Go_Systems
  imports Main
begin

text \<open>
  Concurrent parts of the worker are transition systems: a set of start states and a step
  relation in which every goroutine's next atomic action is one rule. This theory holds the
  interface those parts share: reachability, invariants and simulation.
\<close>

section \<open>Reachability\<close>

inductive reach :: "('s \<Rightarrow> bool) \<Rightarrow> ('s \<Rightarrow> 's \<Rightarrow> bool) \<Rightarrow> 's \<Rightarrow> bool" for start step where
  reach_start: "start s \<Longrightarrow> reach start step s"
| reach_step: "reach start step s \<Longrightarrow> step s t \<Longrightarrow> reach start step t"

lemma reach_steps: "reach start step s \<Longrightarrow> step\<^sup>*\<^sup>* s t \<Longrightarrow> reach start step t"
  by (rotate_tac 1, induction rule: rtranclp_induct) (auto intro: reach_step)

section \<open>Systems with an invariant\<close>

locale invariant_system =
  fixes start :: "'s \<Rightarrow> bool"
    and step :: "'s \<Rightarrow> 's \<Rightarrow> bool"
    and inv :: "'s \<Rightarrow> bool"
  assumes inv_start: "start s \<Longrightarrow> inv s"
    and inv_step: "inv s \<Longrightarrow> step s t \<Longrightarrow> inv t"
begin

lemma reach_inv: "reach start step s \<Longrightarrow> inv s"
  by (induction rule: reach.induct) (blast intro: inv_start inv_step)+

lemma steps_inv: "inv s \<Longrightarrow> step\<^sup>*\<^sup>* s t \<Longrightarrow> inv t"
  by (rotate_tac 1, induction rule: rtranclp_induct) (auto intro: inv_step)

lemma steps_mono:
  assumes "step\<^sup>*\<^sup>* s t" and "inv s"
    and "\<And>u v. inv u \<Longrightarrow> step u v \<Longrightarrow> P u \<Longrightarrow> P v" and "P s"
  shows "P t"
proof -
  from assms(1) have "inv t \<and> P t"
    by (induction rule: rtranclp_induct) (use assms(2-) in \<open>auto intro: inv_step\<close>)
  then show ?thesis ..
qed

end

section \<open>Simulation of an abstract system\<close>

locale simulation = invariant_system start step inv
  for start :: "'s \<Rightarrow> bool" and step :: "'s \<Rightarrow> 's \<Rightarrow> bool" and inv :: "'s \<Rightarrow> bool" +
  fixes abstr :: "'s \<Rightarrow> 'a"
    and astart :: "'a \<Rightarrow> bool"
    and astep :: "'a \<Rightarrow> 'a \<Rightarrow> bool"
  assumes sim_start: "start s \<Longrightarrow> astart (abstr s)"
    and sim_step: "inv s \<Longrightarrow> step s t \<Longrightarrow> abstr t = abstr s \<or> astep (abstr s) (abstr t)"
begin

lemma sim_reach: "reach start step s \<Longrightarrow> reach astart astep (abstr s)"
proof (induction rule: reach.induct)
  case (reach_start s)
  then show ?case by (blast intro: reach.reach_start sim_start)
next
  case (reach_step s t)
  then have "abstr t = abstr s \<or> astep (abstr s) (abstr t)"
    using sim_step [OF reach_inv] by simp
  with reach_step.IH show ?case by (auto intro: reach.reach_step)
qed

lemma sim_steps: "step\<^sup>*\<^sup>* s t \<Longrightarrow> inv s \<Longrightarrow> astep\<^sup>*\<^sup>* (abstr s) (abstr t)"
proof (induction rule: rtranclp_induct)
  case (step t u)
  then have "inv t" by (blast intro: steps_inv)
  with step show ?case by (metis rtranclp.simps sim_step)
qed simp

end

end
