(* ===== verification/Log_Buffer.thy ===== *)
theory Log_Buffer
  imports Job_Types Go_Systems
begin

text \<open>
  \<^verbatim>\<open>pkg/stream/buffer.go\<close>: the log buffer of a job, written by the streaming goroutine, closed
  by the executor and read by any number of subscribers, each a goroutine with a channel of
  64 places. Every critical section and every channel operation is one step of \<open>log_step\<close>.
\<close>

section \<open>The buffer\<close>

text \<open>
  \<open>lb_notify\<close> says whether the one-place channel \<^verbatim>\<open>notify\<close> holds a token. \<open>Close\<close> sets the flag
  and closes the channel in one critical section, so \<open>lb_closed\<close> also tells that the
  channel is closed.
\<close>

record LogBuffer =
  lb_lines :: "LogLine list"
  lb_closed :: bool
  lb_notify :: bool

definition NewLogBuffer :: LogBuffer where
  "NewLogBuffer = \<lparr>lb_lines = [], lb_closed = False, lb_notify = False\<rparr>"

definition buf_Write :: "LogLine \<Rightarrow> LogBuffer \<Rightarrow> LogBuffer" where
  "buf_Write line b =
     (if lb_closed b then b else b\<lparr>lb_lines := lb_lines b @ [line], lb_notify := True\<rparr>)"

definition buf_Close :: "LogBuffer \<Rightarrow> LogBuffer" where
  "buf_Close b = (if lb_closed b then b else b\<lparr>lb_closed := True\<rparr>)"

section \<open>The contract its writers rely on\<close>

datatype 'a sink_op = SinkWrite 'a | SinkClose

fun sink_run :: "('a \<Rightarrow> 's \<Rightarrow> 's) \<Rightarrow> ('s \<Rightarrow> 's) \<Rightarrow> 'a sink_op list \<Rightarrow> 's \<Rightarrow> 's" where
  "sink_run put close [] s = s"
| "sink_run put close (SinkWrite x # ops) s = sink_run put close ops (put x s)"
| "sink_run put close (SinkClose # ops) s = sink_run put close ops (close s)"

text \<open>What was written before the first close.\<close>

fun accepted :: "'a sink_op list \<Rightarrow> 'a list" where
  "accepted [] = []"
| "accepted (SinkWrite x # ops) = x # accepted ops"
| "accepted (SinkClose # ops) = []"

locale log_sink =
  fixes put :: "'a \<Rightarrow> 's \<Rightarrow> 's"
    and close :: "'s \<Rightarrow> 's"
    and content :: "'s \<Rightarrow> 'a list"
    and closed :: "'s \<Rightarrow> bool"
  assumes put_open: "\<not> closed s \<Longrightarrow> content (put x s) = content s @ [x]"
    and put_closed: "closed s \<Longrightarrow> put x s = s"
    and closed_put: "closed (put x s) = closed s"
    and close_content: "content (close s) = content s"
    and close_closed: "closed (close s)"
begin

lemma run_closed: "closed s \<Longrightarrow> content (sink_run put close ops s) = content s"
proof (induction ops arbitrary: s)
  case (Cons x ops)
  then show ?case by (cases x) (auto simp: put_closed close_content close_closed)
qed simp

lemma run_content:
  "\<not> closed s \<Longrightarrow> content (sink_run put close ops s) = content s @ accepted ops"
proof (induction ops arbitrary: s)
  case (Cons x ops)
  then show ?case
    by (cases x) (auto simp: put_open closed_put run_closed close_content close_closed)
qed simp

end

interpretation buffer_sink: log_sink buf_Write buf_Close lb_lines lb_closed
  by unfold_locales (auto simp: buf_Write_def buf_Close_def)

text \<open>
  Whatever the writes and closes, in whatever order, the buffer holds exactly the lines
  written before the first close, in the order they were written.
\<close>

theorem log_buffer_content:
  "lb_lines (sink_run buf_Write buf_Close ops NewLogBuffer) = accepted ops"
  using buffer_sink.run_content [of NewLogBuffer ops] by (simp add: NewLogBuffer_def)

section \<open>Subscribers\<close>

text \<open>
  Where the goroutine of \<open>Subscribe\<close> stands: before the critical section of lines 75 to 78,
  inside the sending loop with the rest of its snapshot and the flag it read, at the select
  of line 96, in the draining loop of line 105, or returned (its channel is closed).
\<close>

datatype sub_pc =
    SubRead
  | SubSend "LogLine list" bool
  | SubWait
  | SubDrain "LogLine list"
  | SubDone

record subscriber =
  sub_pos :: nat
  sub_at :: sub_pc
  sub_chan :: "LogLine list"
  sub_got :: "LogLine list"  \<comment> \<open>what the receiver has taken from the channel\<close>
  sub_cancelled :: bool

definition chan_capacity :: nat where
  "chan_capacity = 64"

definition Subscribe :: subscriber where
  "Subscribe = \<lparr>sub_pos = 0, sub_at = SubRead, sub_chan = [], sub_got = [], sub_cancelled = False\<rparr>"

inductive sub_step :: "LogBuffer \<Rightarrow> subscriber \<Rightarrow> LogBuffer \<Rightarrow> subscriber \<Rightarrow> bool" where
  read: "sub_at s = SubRead \<Longrightarrow>
    sub_step b s b (s\<lparr>sub_at := SubSend (drop (sub_pos s) (lb_lines b)) (lb_closed b)\<rparr>)"
| send: "sub_at s = SubSend (l # ls) c \<Longrightarrow> length (sub_chan s) < chan_capacity \<Longrightarrow>
    sub_step b s b (s\<lparr>sub_chan := sub_chan s @ [l], sub_pos := Suc (sub_pos s),
                      sub_at := SubSend ls c\<rparr>)"
| send_cancelled: "sub_at s = SubSend (l # ls) c \<Longrightarrow> sub_cancelled s \<Longrightarrow>
    sub_step b s b (s\<lparr>sub_at := SubDone\<rparr>)"
| sent_closed: "sub_at s = SubSend [] True \<Longrightarrow> sub_step b s b (s\<lparr>sub_at := SubDone\<rparr>)"
| sent_open: "sub_at s = SubSend [] False \<Longrightarrow> sub_step b s b (s\<lparr>sub_at := SubWait\<rparr>)"
| wait_cancelled: "sub_at s = SubWait \<Longrightarrow> sub_cancelled s \<Longrightarrow>
    sub_step b s b (s\<lparr>sub_at := SubDone\<rparr>)"
| wait_token: "sub_at s = SubWait \<Longrightarrow> lb_notify b \<Longrightarrow>
    sub_step b s (b\<lparr>lb_notify := False\<rparr>) (s\<lparr>sub_at := SubRead\<rparr>)"
| wait_closed: "sub_at s = SubWait \<Longrightarrow> \<not> lb_notify b \<Longrightarrow> lb_closed b \<Longrightarrow>
    sub_step b s b (s\<lparr>sub_at := SubDrain (drop (sub_pos s) (lb_lines b))\<rparr>)"
| drain: "sub_at s = SubDrain (l # ls) \<Longrightarrow> length (sub_chan s) < chan_capacity \<Longrightarrow>
    sub_step b s b (s\<lparr>sub_chan := sub_chan s @ [l], sub_at := SubDrain ls\<rparr>)"
| drain_cancelled: "sub_at s = SubDrain (l # ls) \<Longrightarrow> sub_cancelled s \<Longrightarrow>
    sub_step b s b (s\<lparr>sub_at := SubDone\<rparr>)"
| drained: "sub_at s = SubDrain [] \<Longrightarrow> sub_step b s b (s\<lparr>sub_at := SubDone\<rparr>)"

record log_sys =
  ls_buf :: LogBuffer
  ls_subs :: "subscriber list"

inductive log_step :: "log_sys \<Rightarrow> log_sys \<Rightarrow> bool" where
  ls_write: "log_step s (s\<lparr>ls_buf := buf_Write line (ls_buf s)\<rparr>)"
| ls_close: "log_step s (s\<lparr>ls_buf := buf_Close (ls_buf s)\<rparr>)"
| ls_subscribe: "log_step s (s\<lparr>ls_subs := ls_subs s @ [Subscribe]\<rparr>)"
| ls_run: "i < length (ls_subs s) \<Longrightarrow> sub_step (ls_buf s) (ls_subs s ! i) b u \<Longrightarrow>
    log_step s (s\<lparr>ls_buf := b, ls_subs := (ls_subs s)[i := u]\<rparr>)"
| ls_receive: "i < length (ls_subs s) \<Longrightarrow> sub_chan (ls_subs s ! i) = l # ls \<Longrightarrow>
    log_step s (s\<lparr>ls_subs := (ls_subs s)[i := (ls_subs s ! i)
                    \<lparr>sub_chan := ls, sub_got := sub_got (ls_subs s ! i) @ [l]\<rparr>]\<rparr>)"
| ls_cancel: "i < length (ls_subs s) \<Longrightarrow>
    log_step s (s\<lparr>ls_subs := (ls_subs s)[i := (ls_subs s ! i)\<lparr>sub_cancelled := True\<rparr>]\<rparr>)"

definition log_start :: "log_sys \<Rightarrow> bool" where
  "log_start s \<longleftrightarrow> s = \<lparr>ls_buf = NewLogBuffer, ls_subs = []\<rparr>"

abbreviation log_reach :: "log_sys \<Rightarrow> bool" where
  "log_reach \<equiv> reach log_start log_step"

section \<open>Nothing is lost, duplicated or reordered\<close>

definition sub_sent :: "subscriber \<Rightarrow> LogLine list" where
  "sub_sent s = sub_got s @ sub_chan s"

text \<open>
  What a subscriber has sent is the part of the buffer before its position, its snapshot is
  a piece of the buffer from there; the position never passes the end, so the slice
  expressions of lines 76 and 103 are in range.
\<close>

definition sub_inv :: "LogBuffer \<Rightarrow> subscriber \<Rightarrow> bool" where
  "sub_inv b s \<longleftrightarrow>
     (case sub_at s of
        SubRead \<Rightarrow> sub_pos s \<le> length (lb_lines b) \<and> sub_sent s = take (sub_pos s) (lb_lines b)
      | SubSend ls c \<Rightarrow>
          sub_pos s \<le> length (lb_lines b) \<and> sub_sent s = take (sub_pos s) (lb_lines b)
          \<and> prefix ls (drop (sub_pos s) (lb_lines b))
          \<and> (c \<longrightarrow> lb_closed b \<and> ls = drop (sub_pos s) (lb_lines b))
      | SubWait \<Rightarrow> sub_pos s \<le> length (lb_lines b) \<and> sub_sent s = take (sub_pos s) (lb_lines b)
      | SubDrain ls \<Rightarrow> lb_closed b \<and> sub_sent s @ ls = lb_lines b
      | SubDone \<Rightarrow> prefix (sub_sent s) (lb_lines b)
                     \<and> (sub_cancelled s \<or> lb_closed b \<and> sub_sent s = lb_lines b))"

lemma sub_inv_prefix: "sub_inv b s \<Longrightarrow> prefix (sub_sent s) (lb_lines b)"
  by (auto simp: sub_inv_def take_is_prefix split: sub_pc.splits) (metis prefixI)

lemma sub_inv_Subscribe: "sub_inv b Subscribe"
  by (simp add: sub_inv_def Subscribe_def sub_sent_def)

lemma sub_inv_Write: "sub_inv b s \<Longrightarrow> sub_inv (buf_Write l b) s"
  by (auto simp: sub_inv_def buf_Write_def split: sub_pc.splits)

lemma sub_inv_Close: "sub_inv b s \<Longrightarrow> sub_inv (buf_Close b) s"
  by (auto simp: sub_inv_def buf_Close_def split: sub_pc.splits)

lemma sub_inv_notify: "sub_inv (b\<lparr>lb_notify := x\<rparr>) s = sub_inv b s"
  by (simp add: sub_inv_def split: sub_pc.splits)

text \<open>A step of a subscriber changes nothing of the buffer but the token.\<close>

lemma sub_step_buffer:
  "sub_step b s b' s' \<Longrightarrow> b' = b \<or> b' = b\<lparr>lb_notify := False\<rparr>"
  by (induction rule: sub_step.induct) auto

lemma take_Suc_prefix:
  assumes "prefix (l # ls) (drop n xs)"
  shows "n < length xs \<and> take (Suc n) xs = take n xs @ [l] \<and> prefix ls (drop (Suc n) xs)"
proof -
  obtain zs where zs: "drop n xs = l # ls @ zs" using assms by (auto simp: prefix_def)
  then have n: "n < length xs" by (metis drop_all list.distinct(1) not_le)
  moreover have "xs ! n = l" using zs n by (metis hd_drop_conv_nth list.sel(1))
  moreover have "drop (Suc n) xs = ls @ zs" using zs by (metis drop_Suc list.sel(3) tl_drop)
  ultimately show ?thesis by (simp add: take_Suc_conv_app_nth)
qed

lemma sub_step_inv: "sub_step b s b' s' \<Longrightarrow> sub_inv b s \<Longrightarrow> sub_inv b' s'"
proof (induction rule: sub_step.induct)
  case (send s l ls c b)
  have "prefix (l # ls) (drop (sub_pos s) (lb_lines b))"
    using send by (simp add: sub_inv_def)
  note tp = take_Suc_prefix [OF this]
  have "c \<Longrightarrow> ls = drop (Suc (sub_pos s)) (lb_lines b)"
    using send by (auto simp: sub_inv_def drop_Suc tl_drop [symmetric] dest: sym [of "_ # _"])
  with tp send show ?case by (auto simp: sub_inv_def sub_sent_def)
next
  case (wait_closed s b)
  then show ?case by (simp add: sub_inv_def sub_sent_def)
next
  case (drain_cancelled s l ls b)
  then show ?case by (auto simp: sub_inv_def sub_sent_def) (metis append_assoc prefixI)
qed (auto simp: sub_inv_def sub_sent_def take_is_prefix)

definition log_inv :: "log_sys \<Rightarrow> bool" where
  "log_inv s \<longleftrightarrow> list_all (sub_inv (ls_buf s)) (ls_subs s)"

lemma list_all_update: "list_all P xs \<Longrightarrow> P x \<Longrightarrow> list_all P (xs[i := x])"
  by (auto simp: list_all_iff dest!: subsetD [OF set_update_subset_insert])

lemma log_step_inv: "log_step s t \<Longrightarrow> log_inv s \<Longrightarrow> log_inv t"
proof (induction rule: log_step.induct)
  case (ls_run i s b u)
  then have "sub_inv (ls_buf s) (ls_subs s ! i)" by (simp add: log_inv_def list_all_length)
  with ls_run have u: "sub_inv b u" by (blast intro: sub_step_inv)
  have "b = ls_buf s \<or> b = ls_buf s\<lparr>lb_notify := False\<rparr>"
    using ls_run by (blast dest: sub_step_buffer)
  then have "list_all (sub_inv b) (ls_subs s)"
    using ls_run by (auto simp: log_inv_def sub_inv_notify list_all_iff)
  with u show ?case by (simp add: log_inv_def list_all_update)
next
  case (ls_receive i s l ls)
  then have "sub_inv (ls_buf s) (ls_subs s ! i)" by (simp add: log_inv_def list_all_length)
  with ls_receive show ?case
    by (auto simp: log_inv_def sub_inv_def sub_sent_def split: sub_pc.splits
        intro!: list_all_update)
next
  case (ls_cancel i s)
  then have "sub_inv (ls_buf s) (ls_subs s ! i)" by (simp add: log_inv_def list_all_length)
  with ls_cancel show ?case
    by (auto simp: log_inv_def sub_inv_def sub_sent_def split: sub_pc.splits
        intro!: list_all_update)
qed (auto simp: log_inv_def list_all_iff sub_inv_Write sub_inv_Close sub_inv_Subscribe)

interpretation log_system: invariant_system log_start log_step log_inv
  by unfold_locales (auto simp: log_start_def log_inv_def [of "\<lparr>ls_buf = _, ls_subs = _\<rparr>"] intro: log_step_inv)

lemma log_reach_sub_inv:
  "log_reach s \<Longrightarrow> i < length (ls_subs s) \<Longrightarrow> sub_inv (ls_buf s) (ls_subs s ! i)"
  using log_system.reach_inv by (auto simp: log_inv_def list_all_length)

end
