(* ===== verification/Log_Buffer_Proofs.thy ===== *)
theory Log_Buffer_Proofs
  imports Log_Buffer
begin

text \<open>
  What a subscriber of the log buffer gets: at any time the buffer's lines from the first on,
  in order; when its channel is closed without a cancellation, all of them; a subscriber
  alone misses no wake-up, two can; a closed buffer is always drained in a bounded number of
  steps of the goroutine.
\<close>

section \<open>Running the system on a list of actions\<close>

text \<open>
  An executable schedule: which goroutine moves next. A select with several ready branches
  takes its first one here; \<open>log_do\<close> picks among the steps of \<open>log_step\<close>.
\<close>

datatype log_action = DoWrite LogLine | DoClose | DoSubscribe | DoRun nat | DoReceive nat

fun sub_next :: "LogBuffer \<Rightarrow> subscriber \<Rightarrow> (LogBuffer \<times> subscriber) option" where
  "sub_next b s =
     (case sub_at s of
        SubRead \<Rightarrow> Some (b, s\<lparr>sub_at := SubSend (drop (sub_pos s) (lb_lines b)) (lb_closed b)\<rparr>)
      | SubSend (l # ls) c \<Rightarrow>
          if length (sub_chan s) < chan_capacity
          then Some (b, s\<lparr>sub_chan := sub_chan s @ [l], sub_pos := Suc (sub_pos s),
                          sub_at := SubSend ls c\<rparr>)
          else if sub_cancelled s then Some (b, s\<lparr>sub_at := SubDone\<rparr>) else None
      | SubSend [] c \<Rightarrow> Some (b, s\<lparr>sub_at := if c then SubDone else SubWait\<rparr>)
      | SubWait \<Rightarrow>
          if sub_cancelled s then Some (b, s\<lparr>sub_at := SubDone\<rparr>)
          else if lb_notify b then Some (b\<lparr>lb_notify := False\<rparr>, s\<lparr>sub_at := SubRead\<rparr>)
          else if lb_closed b
          then Some (b, s\<lparr>sub_at := SubDrain (drop (sub_pos s) (lb_lines b))\<rparr>)
          else None
      | SubDrain (l # ls) \<Rightarrow>
          if length (sub_chan s) < chan_capacity
          then Some (b, s\<lparr>sub_chan := sub_chan s @ [l], sub_at := SubDrain ls\<rparr>)
          else if sub_cancelled s then Some (b, s\<lparr>sub_at := SubDone\<rparr>) else None
      | SubDrain [] \<Rightarrow> Some (b, s\<lparr>sub_at := SubDone\<rparr>)
      | SubDone \<Rightarrow> None)"

lemma sub_next_step: "sub_next b s = Some (b', s') \<Longrightarrow> sub_step b s b' s'"
  by (auto split: sub_pc.splits list.splits if_splits intro: sub_step.intros)

fun log_do :: "log_action \<Rightarrow> log_sys \<Rightarrow> log_sys option" where
  "log_do (DoWrite l) s = Some (s\<lparr>ls_buf := buf_Write l (ls_buf s)\<rparr>)"
| "log_do DoClose s = Some (s\<lparr>ls_buf := buf_Close (ls_buf s)\<rparr>)"
| "log_do DoSubscribe s = Some (s\<lparr>ls_subs := ls_subs s @ [Subscribe]\<rparr>)"
| "log_do (DoRun i) s =
     (if i < length (ls_subs s)
      then map_option (\<lambda>(b, u). s\<lparr>ls_buf := b, ls_subs := (ls_subs s)[i := u]\<rparr>)
             (sub_next (ls_buf s) (ls_subs s ! i))
      else None)"
| "log_do (DoReceive i) s =
     (if i < length (ls_subs s)
      then (case sub_chan (ls_subs s ! i) of
              [] \<Rightarrow> None
            | l # ls \<Rightarrow> Some (s\<lparr>ls_subs := (ls_subs s)[i := (ls_subs s ! i)
                               \<lparr>sub_chan := ls, sub_got := sub_got (ls_subs s ! i) @ [l]\<rparr>]\<rparr>))
      else None)"

fun log_run :: "log_action list \<Rightarrow> log_sys \<Rightarrow> log_sys option" where
  "log_run [] s = Some s"
| "log_run (a # as) s = (case log_do a s of None \<Rightarrow> None | Some t \<Rightarrow> log_run as t)"

lemma log_do_step: "log_do a s = Some t \<Longrightarrow> log_step s t"
  by (cases a)
     (auto split: if_splits list.splits intro: log_step.intros dest: sub_next_step simp del: sub_next.simps)

lemma log_run_reach: "log_run as s = Some t \<Longrightarrow> log_reach s \<Longrightarrow> log_reach t"
  by (induction as arbitrary: s) (auto split: option.splits dest: log_do_step intro: reach_step)

definition empty_log :: log_sys where
  "empty_log = \<lparr>ls_buf = NewLogBuffer, ls_subs = []\<rparr>"

lemma log_reach_empty: "log_reach empty_log"
  by (rule reach_start) (simp add: log_start_def empty_log_def)

definition sample_line :: LogLine where
  "sample_line = \<lparr>ll_Timestamp = 0, ll_Stream = ''stdout'', ll_Data = ''hi''\<rparr>"

lemmas log_exec = empty_log_def NewLogBuffer_def buf_Write_def buf_Close_def Subscribe_def
  chan_capacity_def

section \<open>Safety\<close>

text \<open>
  C13: in every reachable state every subscriber has received a prefix of the buffer's lines,
  from the first line on (not from the position at subscription), and one whose channel was
  closed without its context being cancelled was sent all lines of a closed buffer.
\<close>

theorem subscriber_receives_prefix:
  assumes "log_reach s" and "i < length (ls_subs s)"
  shows "prefix (sub_got (ls_subs s ! i)) (lb_lines (ls_buf s))
    \<and> (sub_at (ls_subs s ! i) = SubDone \<and> \<not> sub_cancelled (ls_subs s ! i)
         \<longrightarrow> lb_closed (ls_buf s)
           \<and> sub_got (ls_subs s ! i) @ sub_chan (ls_subs s ! i) = lb_lines (ls_buf s))"
proof
  have inv: "sub_inv (ls_buf s) (ls_subs s ! i)" by (rule log_reach_sub_inv [OF assms])
  have "prefix (sub_got (ls_subs s ! i)) (sub_sent (ls_subs s ! i))"
    by (simp add: sub_sent_def)
  with sub_inv_prefix [OF inv] show "prefix (sub_got (ls_subs s ! i)) (lb_lines (ls_buf s))"
    by (metis prefix_order.order_trans)
  show "sub_at (ls_subs s ! i) = SubDone \<and> \<not> sub_cancelled (ls_subs s ! i)
      \<longrightarrow> lb_closed (ls_buf s)
        \<and> sub_got (ls_subs s ! i) @ sub_chan (ls_subs s ! i) = lb_lines (ls_buf s)"
    using inv by (auto simp: sub_inv_def sub_sent_def)
qed

theorem subscriber_receives_prefix_witness:
  "\<exists>t. log_run [DoWrite sample_line, DoSubscribe, DoRun 0, DoRun 0, DoClose, DoRun 0, DoRun 0,
          DoRun 0, DoRun 0, DoReceive 0] empty_log = Some t
     \<and> prefix (sub_got (ls_subs t ! 0)) (lb_lines (ls_buf t))
     \<and> sub_got (ls_subs t ! 0) = [sample_line]"
proof -
  obtain t where t: "log_run [DoWrite sample_line, DoSubscribe, DoRun 0, DoRun 0, DoClose,
      DoRun 0, DoRun 0, DoRun 0, DoRun 0, DoReceive 0] empty_log = Some t"
    and got: "sub_got (ls_subs t ! 0) = [sample_line]" "length (ls_subs t) = 1"
    by (simp add: log_exec)
  from subscriber_receives_prefix [OF log_run_reach [OF t log_reach_empty], of 0] got t
  show ?thesis by auto
qed

section \<open>Wake-ups\<close>

text \<open>A lone subscriber without a token has read everything it is not about to send.\<close>

definition wake_ok :: "LogBuffer \<Rightarrow> subscriber \<Rightarrow> bool" where
  "wake_ok b u \<longleftrightarrow> lb_notify b \<or>
     (case sub_at u of
        SubWait \<Rightarrow> sub_pos u = length (lb_lines b)
      | SubSend ls c \<Rightarrow> sub_pos u + length ls = length (lb_lines b)
      | _ \<Rightarrow> True)"

definition wake_inv :: "log_sys \<Rightarrow> bool" where
  "wake_inv s \<longleftrightarrow> log_inv s \<and> (\<forall>u. ls_subs s = [u] \<longrightarrow> wake_ok (ls_buf s) u)"

lemma sub_step_wake: "sub_step b u b' u' \<Longrightarrow> sub_inv b u \<Longrightarrow> wake_ok b u \<Longrightarrow> wake_ok b' u'"
  by (induction rule: sub_step.induct) (auto simp: sub_inv_def wake_ok_def)

lemma wake_ok_Write: "wake_ok b u \<Longrightarrow> wake_ok (buf_Write l b) u"
  by (auto simp: wake_ok_def buf_Write_def)

lemma wake_ok_Close: "wake_ok b u \<Longrightarrow> wake_ok (buf_Close b) u"
  by (auto simp: wake_ok_def buf_Close_def split: sub_pc.splits)

lemma single_update: "xs[i := u] = [v] \<Longrightarrow> i < length xs \<Longrightarrow> \<exists>x. xs = [x] \<and> i = 0 \<and> u = v"
  by (cases xs; cases i) (auto split: nat.splits)

lemma log_step_wake:
  assumes "wake_inv s" and "log_step s t"
  shows "wake_inv t"
proof -
  have inv: "log_inv t" using assms by (auto simp: wake_inv_def dest: log_step_inv)
  have "wake_ok (ls_buf t) v" if "ls_subs t = [v]" for v
    using assms(2,1) that
  proof (induction rule: log_step.induct)
    case (ls_run i s b u)
    then obtain x where x: "ls_subs s = [x]" "i = 0" "u = v"
      by (auto dest: single_update)
    then have "sub_inv (ls_buf s) x" "wake_ok (ls_buf s) x"
      using ls_run.prems(1) by (auto simp: wake_inv_def log_inv_def)
    with ls_run.hyps x show ?case by (auto intro: sub_step_wake)
  next
    case (ls_receive i s l ls)
    then obtain x where "ls_subs s = [x]" "i = 0" by (auto dest: single_update)
    with ls_receive show ?case by (auto simp: wake_inv_def wake_ok_def split: sub_pc.splits)
  next
    case (ls_cancel i s)
    then obtain x where "ls_subs s = [x]" "i = 0" by (auto dest: single_update)
    with ls_cancel show ?case by (auto simp: wake_inv_def wake_ok_def split: sub_pc.splits)
  next
    case (ls_subscribe s)
    then show ?case by (auto simp: wake_ok_def Subscribe_def)
  qed (auto simp: wake_inv_def wake_ok_Write wake_ok_Close)
  with inv show ?thesis by (simp add: wake_inv_def)
qed

interpretation wake_system: invariant_system log_start log_step wake_inv
proof
  fix s t
  show "log_start s \<Longrightarrow> wake_inv s" by (simp add: log_start_def wake_inv_def log_inv_def)
  show "wake_inv s \<Longrightarrow> log_step s t \<Longrightarrow> wake_inv t" by (rule log_step_wake)
qed

text \<open>
  C31: while the buffer has a single subscriber no wake-up is lost: when its goroutine blocks
  at the select without a token in the channel, it has sent every line of the buffer.
\<close>

theorem single_subscriber_not_stranded:
  assumes "log_reach s" and "ls_subs s = [u]"
    and "sub_at u = SubWait" and "\<not> lb_notify (ls_buf s)"
  shows "sub_got u @ sub_chan u = lb_lines (ls_buf s)"
proof -
  have "wake_ok (ls_buf s) u"
    using wake_system.reach_inv [OF assms(1)] assms(2) by (simp add: wake_inv_def)
  moreover have "sub_inv (ls_buf s) u"
    using log_reach_sub_inv [OF assms(1), of 0] assms(2) by simp
  ultimately show ?thesis
    using assms(3,4) by (simp add: wake_ok_def sub_inv_def sub_sent_def)
qed

theorem single_subscriber_not_stranded_witness:
  "\<exists>t u. log_run [DoSubscribe, DoWrite sample_line, DoRun 0, DoRun 0, DoRun 0, DoRun 0, DoRun 0,
            DoRun 0] empty_log = Some t
     \<and> ls_subs t = [u] \<and> sub_got u @ sub_chan u = lb_lines (ls_buf t)"
proof -
  obtain t u where t: "log_run [DoSubscribe, DoWrite sample_line, DoRun 0, DoRun 0, DoRun 0,
      DoRun 0, DoRun 0, DoRun 0] empty_log = Some t"
    and u: "ls_subs t = [u]" "sub_at u = SubWait" "\<not> lb_notify (ls_buf t)"
    by (simp add: log_exec)
  from single_subscriber_not_stranded [OF log_run_reach [OF t log_reach_empty] u] t u(1)
  show ?thesis by blast
qed

text \<open>
  C32: with two subscribers a wake-up can be lost. There is a reachable state of an open
  buffer in which both goroutines block at the select, no token is left, the second has sent
  nothing although a line was written after both subscribed, and neither can take a step.
\<close>

theorem two_subscribers_lost_wakeup:
  "\<exists>s. log_reach s \<and> \<not> lb_closed (ls_buf s) \<and> lb_lines (ls_buf s) = [sample_line]
     \<and> length (ls_subs s) = 2
     \<and> sub_got (ls_subs s ! 1) = [] \<and> sub_chan (ls_subs s ! 1) = []
     \<and> list_all (\<lambda>u. sub_at u = SubWait \<and> \<not> (\<exists>b v. sub_step (ls_buf s) u b v)) (ls_subs s)"
proof -
  let ?as = "[DoSubscribe, DoSubscribe, DoRun 0, DoRun 0, DoRun 1, DoRun 1, DoWrite sample_line,
    DoRun 0, DoRun 0, DoRun 0, DoRun 0]"
  obtain s where run: "log_run ?as empty_log = Some s"
    and s: "lb_lines (ls_buf s) = [sample_line]" "\<not> lb_closed (ls_buf s)" "\<not> lb_notify (ls_buf s)"
      "length (ls_subs s) = 2" "sub_got (ls_subs s ! 1) = []" "sub_chan (ls_subs s ! 1) = []"
    and at: "sub_at (ls_subs s ! 0) = SubWait" "sub_at (ls_subs s ! 1) = SubWait"
      "\<not> sub_cancelled (ls_subs s ! 0)" "\<not> sub_cancelled (ls_subs s ! 1)"
    by (simp add: log_exec)
  have "\<not> sub_step (ls_buf s) u b v" if "sub_at u = SubWait" "\<not> sub_cancelled u" for u b v
    using that s(2,3) by (auto elim: sub_step.cases)
  with at have "list_all (\<lambda>u. sub_at u = SubWait \<and> \<not> (\<exists>b v. sub_step (ls_buf s) u b v)) (ls_subs s)"
    using s(4) by (auto simp: list_all_length less_2_cases_iff)
  with s log_run_reach [OF run log_reach_empty] show ?thesis by blast
qed

section \<open>A closed buffer is drained\<close>

text \<open>How many steps the goroutine can still take once the buffer is closed.\<close>

definition sub_measure :: "LogBuffer \<Rightarrow> subscriber \<Rightarrow> nat" where
  "sub_measure b s =
     (let r = length (lb_lines b) - sub_pos s in
      case sub_at s of
        SubDone \<Rightarrow> 0
      | SubDrain ls \<Rightarrow> 1 + length ls
      | SubSend ls c \<Rightarrow> if c then 1 + length ls else 4 + r
      | SubRead \<Rightarrow> 2 + r
      | SubWait \<Rightarrow> 3 + r)"

lemma sub_step_measure:
  "sub_step b s b' s' \<Longrightarrow> lb_closed b \<Longrightarrow> sub_inv b s \<Longrightarrow> sub_measure b' s' < sub_measure b s"
proof (induction rule: sub_step.induct)
  case (send s l ls c b)
  then have "sub_pos s < length (lb_lines b)"
    using take_Suc_prefix [of l ls "sub_pos s" "lb_lines b"] by (simp add: sub_inv_def)
  with send show ?case by (auto simp: sub_measure_def Let_def)
qed (auto simp: sub_measure_def sub_inv_def Let_def)

lemma sub_next_progress:
  assumes "sub_at s \<noteq> SubDone" and "lb_closed b" and "sub_chan s = []"
  shows "\<exists>b' s'. sub_next b s = Some (b', s')"
  using assms by (auto simp: chan_capacity_def split: sub_pc.splits list.splits)

text \<open>A step of an uncancelled subscriber whose receiver has emptied the channel.\<close>

definition receive_all :: "subscriber \<Rightarrow> subscriber" where
  "receive_all u = u\<lparr>sub_chan := [], sub_got := sub_got u @ sub_chan u\<rparr>"

lemma receive_all_steps:
  assumes "i < length (ls_subs s)"
  shows "log_step\<^sup>*\<^sup>* s (s\<lparr>ls_subs := (ls_subs s)[i := receive_all (ls_subs s ! i)]\<rparr>)"
  using assms
proof (induction "sub_chan (ls_subs s ! i)" arbitrary: s)
  case Nil
  then have "receive_all (ls_subs s ! i) = ls_subs s ! i" by (simp add: receive_all_def)
  then show ?case by simp
next
  case (Cons l ls)
  let ?u = "(ls_subs s ! i)\<lparr>sub_chan := ls, sub_got := sub_got (ls_subs s ! i) @ [l]\<rparr>"
  let ?t = "s\<lparr>ls_subs := (ls_subs s)[i := ?u]\<rparr>"
  have "log_step s ?t" using Cons by (intro ls_receive) auto
  moreover have "log_step\<^sup>*\<^sup>* ?t (?t\<lparr>ls_subs := (ls_subs ?t)[i := receive_all (ls_subs ?t ! i)]\<rparr>)"
    using Cons.prems by (intro Cons.hyps(1)) simp_all
  moreover have "receive_all ?u = receive_all (ls_subs s ! i)"
    using Cons.hyps(2) by (simp add: receive_all_def flip: Cons.hyps(2))
  ultimately show ?case using Cons.prems by (simp add: converse_rtranclp_into_rtranclp)
qed

lemma sub_step_cancelled: "sub_step b s b' s' \<Longrightarrow> sub_cancelled s' = sub_cancelled s"
  by (induction rule: sub_step.induct) auto

lemma drain_one:
  assumes "log_reach s" and "i < length (ls_subs s)" and "lb_closed (ls_buf s)"
    and "sub_at (ls_subs s ! i) \<noteq> SubDone"
  shows "\<exists>t. log_step\<^sup>*\<^sup>* s t \<and> log_reach t \<and> length (ls_subs t) = length (ls_subs s)
    \<and> lb_closed (ls_buf t) \<and> lb_lines (ls_buf t) = lb_lines (ls_buf s)
    \<and> sub_cancelled (ls_subs t ! i) = sub_cancelled (ls_subs s ! i)
    \<and> sub_measure (ls_buf t) (ls_subs t ! i) < sub_measure (ls_buf s) (ls_subs s ! i)"
proof -
  let ?u = "ls_subs s ! i"
  let ?r = "s\<lparr>ls_subs := (ls_subs s)[i := receive_all ?u]\<rparr>"
  have sr: "log_step\<^sup>*\<^sup>* s ?r" by (rule receive_all_steps [OF assms(2)])
  have reach_r: "log_reach ?r" by (rule reach_steps [OF assms(1) sr])
  have at_r: "ls_subs ?r ! i = receive_all ?u" using assms(2) by simp
  have "sub_at (receive_all ?u) \<noteq> SubDone" "sub_chan (receive_all ?u) = []"
    using assms(4) by (simp_all add: receive_all_def)
  then obtain b' u' where nxt: "sub_next (ls_buf s) (receive_all ?u) = Some (b', u')"
    using sub_next_progress assms(3) by blast
  then have st: "sub_step (ls_buf s) (receive_all ?u) b' u'" by (rule sub_next_step)
  let ?t = "?r\<lparr>ls_buf := b', ls_subs := (ls_subs ?r)[i := u']\<rparr>"
  have step: "log_step ?r ?t"
    using ls_run [of i ?r b' u'] st assms(2) by simp
  have inv: "sub_inv (ls_buf s) (receive_all ?u)"
    using log_reach_sub_inv [OF reach_r, of i] assms(2) by simp
  have "sub_measure (ls_buf s) (receive_all ?u) = sub_measure (ls_buf s) ?u"
    by (simp add: sub_measure_def receive_all_def)
  with sub_step_measure [OF st assms(3) inv]
  have "sub_measure b' u' < sub_measure (ls_buf s) ?u" by simp
  moreover have "sub_cancelled u' = sub_cancelled ?u"
    using sub_step_cancelled [OF st] by (simp add: receive_all_def)
  moreover have "lb_closed b' \<and> lb_lines b' = lb_lines (ls_buf s)"
    using sub_step_buffer [OF st] assms(3) by auto
  moreover have "log_step\<^sup>*\<^sup>* s ?t" using sr step by simp
  moreover have "log_reach ?t" by (rule reach_step [OF reach_r step])
  ultimately show ?thesis using assms(2) by (intro exI [of _ ?t]) simp
qed

text \<open>
  C18: once the buffer is closed every subscriber that is not cancelled can be run, without
  the help of any other goroutine but its receiver, until its channel is closed and all lines
  have been received: no reachable state of a closed buffer strands a reader.
\<close>

theorem closed_buffer_drains:
  assumes "log_reach s" and "i < length (ls_subs s)" and "lb_closed (ls_buf s)"
    and "\<not> sub_cancelled (ls_subs s ! i)"
  shows "\<exists>t. log_step\<^sup>*\<^sup>* s t \<and> sub_at (ls_subs t ! i) = SubDone
    \<and> sub_got (ls_subs t ! i) = lb_lines (ls_buf s)"
  using assms
proof (induction "sub_measure (ls_buf s) (ls_subs s ! i)" arbitrary: s rule: less_induct)
  case less
  show ?case
  proof (cases "sub_at (ls_subs s ! i) = SubDone")
    case True
    have "sub_sent (ls_subs s ! i) = lb_lines (ls_buf s)"
      using log_reach_sub_inv [OF less.prems(1,2)] True less.prems(4) by (simp add: sub_inv_def)
    then show ?thesis
      using receive_all_steps [OF less.prems(2)] True less.prems(2)
      by (intro exI [of _ "s\<lparr>ls_subs := (ls_subs s)[i := receive_all (ls_subs s ! i)]\<rparr>"])
        (simp add: receive_all_def sub_sent_def)
  next
    case False
    from drain_one [OF less.prems(1-3) False] obtain t where
      t: "log_step\<^sup>*\<^sup>* s t" "log_reach t" "length (ls_subs t) = length (ls_subs s)"
        "lb_closed (ls_buf t)" "lb_lines (ls_buf t) = lb_lines (ls_buf s)"
        "sub_cancelled (ls_subs t ! i) = sub_cancelled (ls_subs s ! i)"
      and lt: "sub_measure (ls_buf t) (ls_subs t ! i) < sub_measure (ls_buf s) (ls_subs s ! i)"
      by blast
    from less.hyps [OF lt t(2)] t less.prems
    obtain v where "log_step\<^sup>*\<^sup>* t v" "sub_at (ls_subs v ! i) = SubDone"
      "sub_got (ls_subs v ! i) = lb_lines (ls_buf s)"
      by auto
    with t(1) show ?thesis by (meson rtranclp_trans)
  qed
qed

theorem closed_buffer_drains_witness:
  "\<exists>s t. log_run [DoSubscribe, DoWrite sample_line, DoClose] empty_log = Some s
     \<and> log_step\<^sup>*\<^sup>* s t \<and> sub_got (ls_subs t ! 0) = [sample_line]"
proof -
  obtain s where s: "log_run [DoSubscribe, DoWrite sample_line, DoClose] empty_log = Some s"
    and p: "0 < length (ls_subs s)" "lb_closed (ls_buf s)" "\<not> sub_cancelled (ls_subs s ! 0)"
      "lb_lines (ls_buf s) = [sample_line]"
    by (simp add: log_exec)
  from closed_buffer_drains [OF log_run_reach [OF s log_reach_empty] p(1-3)] s p(4)
  show ?thesis by auto
qed

end
