(* ===== verification/Container_Runtime.thy ===== *)
theory Container_Runtime
  imports Config Job_Types
begin

text \<open>
  \<^verbatim>\<open>pkg/runtime/runtime.go\<close>: the interface between the executor and a container engine, and
  the contexts that carry deadlines through it. The engine lives in a world of type \<open>'w\<close>,
  which every call may change; a call's Go results \<^verbatim>\<open>(value, error)\<close> are a pair.
\<close>

section \<open>Contexts\<close>

text \<open>A context is done when it is cancelled or its deadline (nanoseconds) has passed.\<close>

record Ctx =
  ctx_deadline :: "int option"
  ctx_cancelled :: bool

definition Background :: Ctx where
  "Background = \<lparr>ctx_deadline = None, ctx_cancelled = False\<rparr>"

definition WithTimeout :: "int \<Rightarrow> Ctx \<Rightarrow> duration \<Rightarrow> Ctx" where
  "WithTimeout now c d =
     c\<lparr>ctx_deadline := Some (case ctx_deadline c of
                               None \<Rightarrow> now + sint d
                             | Some t \<Rightarrow> min t (now + sint d))\<rparr>"

definition ctx_err :: "Ctx \<Rightarrow> int \<Rightarrow> bool" where
  "ctx_err c now \<longleftrightarrow>
     ctx_cancelled c \<or> (case ctx_deadline c of None \<Rightarrow> False | Some t \<Rightarrow> t \<le> now)"

lemma ctx_err_WithTimeout:
  "ctx_err (WithTimeout t0 c d) now \<longleftrightarrow> ctx_err c now \<or> t0 + sint d \<le> now"
  by (auto simp: ctx_err_def WithTimeout_def split: option.splits)

lemma ctx_err_Background [simp]: "\<not> ctx_err Background now"
  by (simp add: ctx_err_def Background_def)

section \<open>The interface\<close>

type_synonym ('w, 'a) io = "'w \<Rightarrow> 'a \<times> 'w"

record 'w Runtime =
  rt_Ping :: "Ctx \<Rightarrow> ('w, go_error option) io"
  rt_PullImage :: "Ctx \<Rightarrow> string \<Rightarrow> RuntimeAuth option \<Rightarrow> ('w, go_error option) io"
  rt_ImageExists :: "Ctx \<Rightarrow> string \<Rightarrow> ('w, bool \<times> go_error option) io"
  rt_CreateContainer :: "Ctx \<Rightarrow> ContainerConfig \<Rightarrow> ('w, string \<times> go_error option) io"
  rt_StartContainer :: "Ctx \<Rightarrow> string \<Rightarrow> ('w, go_error option) io"
  rt_WaitContainer :: "Ctx \<Rightarrow> string \<Rightarrow> ('w, i64 \<times> go_error option) io"
  rt_StopContainer :: "Ctx \<Rightarrow> string \<Rightarrow> duration \<Rightarrow> ('w, go_error option) io"
  rt_KillContainer :: "Ctx \<Rightarrow> string \<Rightarrow> string \<Rightarrow> ('w, go_error option) io"
  rt_GetLogs :: "Ctx \<Rightarrow> string \<Rightarrow> ('w, (string \<times> string) \<times> go_error option) io"
  rt_RemoveContainer :: "Ctx \<Rightarrow> string \<Rightarrow> ('w, go_error option) io"

text \<open>
  What the callers rely on besides the types, the Go convention for failed calls: the value
  beside a non-nil error is the zero value.
\<close>

locale container_runtime =
  fixes rt :: "'w Runtime"
  assumes create_error: "rt_CreateContainer rt c cfg w = ((cid, Some e), w') \<Longrightarrow> cid = []"
    and exists_error: "rt_ImageExists rt c img w = ((x, Some e), w') \<Longrightarrow> \<not> x"
    and logs_error: "rt_GetLogs rt c cid w = ((logs, Some e), w') \<Longrightarrow> logs = ([], [])"
begin

lemma exists_true: "rt_ImageExists rt c img w = ((True, err), w') \<Longrightarrow> err = None"
  using exists_error by (cases err) blast+

lemma create_id: "rt_CreateContainer rt c cfg w = ((cid, err), w') \<Longrightarrow> cid \<noteq> [] \<Longrightarrow> err = None"
  using create_error by (cases err) blast+


end

end
