(* ===== verification/Job_Program.thy ===== *)
theory Job_Program
  imports Container_Runtime
begin

text \<open>
  The language the executor's goroutines are written in: a program is a tree whose inner
  nodes are the calls the code makes (the container runtime, the clock, effects on the job)
  and whose continuations take the results of the calls. One translation of the code serves
  two readings: \<open>run\<close> executes a program against a runtime, and \<open>after\<close> gives the
  program that remains when a call has returned, for the interleaved system. The lemmas give
  a weakest precondition over all results of all calls.
\<close>

section \<open>Programs\<close>

text \<open>Effects of the executor's goroutine on the job and on the process.\<close>

datatype effect =
    GoStream Ctx string          \<comment> \<open>\<^verbatim>\<open>go e.streamContainerLogs\<close>\<close>
  | SetResult ExecutionResult    \<comment> \<open>\<^verbatim>\<open>job.Result = ...\<close>\<close>
  | CancelTimeout                \<comment> \<open>\<^verbatim>\<open>timeoutCancel()\<close>\<close>
  | CancelJob                    \<comment> \<open>\<^verbatim>\<open>job.Cancel()\<close>\<close>
  | CloseBuffer                  \<comment> \<open>\<^verbatim>\<open>job.LogBuffer.Close()\<close>\<close>
  | CloseDone                    \<comment> \<open>\<^verbatim>\<open>close(job.Done)\<close>\<close>
  | WriteBuffer string string    \<comment> \<open>\<^verbatim>\<open>buf.Write(stream, data)\<close>\<close>

text \<open>Calls of the runtime that return only an error.\<close>

datatype err_call =
    PullImage Ctx string "RuntimeAuth option"
  | StartContainer Ctx string
  | StopContainer Ctx string duration
  | KillContainer Ctx string string
  | RemoveContainer Ctx string

datatype 'a prog =
    Return 'a
  | Panic
  | Now "int \<Rightarrow> 'a prog"
  | Do effect "'a prog"
  | Call err_call "go_error option \<Rightarrow> 'a prog"
  | ImageExists Ctx string "bool \<Rightarrow> go_error option \<Rightarrow> 'a prog"
  | CreateContainer Ctx ContainerConfig "string \<Rightarrow> go_error option \<Rightarrow> 'a prog"
  | WaitContainer Ctx string "i64 \<Rightarrow> go_error option \<Rightarrow> 'a prog"
  | GetLogs Ctx string "string \<Rightarrow> string \<Rightarrow> go_error option \<Rightarrow> 'a prog"

text \<open>Induction with the results of a call as variables of the hypothesis.\<close>

lemma prog_induct [case_names Return Panic Now Do Call ImageExists CreateContainer WaitContainer GetLogs]:
  assumes "\<And>x. P (Return x)" and "P Panic"
    and "\<And>k. (\<And>t. P (k t)) \<Longrightarrow> P (Now k)"
    and "\<And>e p. P p \<Longrightarrow> P (Do e p)"
    and "\<And>c k. (\<And>err. P (k err)) \<Longrightarrow> P (Call c k)"
    and "\<And>c img k. (\<And>x err. P (k x err)) \<Longrightarrow> P (ImageExists c img k)"
    and "\<And>c cfg k. (\<And>cid err. P (k cid err)) \<Longrightarrow> P (CreateContainer c cfg k)"
    and "\<And>c cid k. (\<And>code err. P (k code err)) \<Longrightarrow> P (WaitContainer c cid k)"
    and "\<And>c cid k. (\<And>out errs err. P (k out errs err)) \<Longrightarrow> P (GetLogs c cid k)"
  shows "P p"
  by (induction p; rule assms) (blast intro: rangeI)+

primrec bind :: "'a prog \<Rightarrow> ('a \<Rightarrow> 'b prog) \<Rightarrow> 'b prog" where
  "bind (Return x) f = f x"
| "bind Panic f = Panic"
| "bind (Now k) f = Now (\<lambda>t. bind (k t) f)"
| "bind (Do e p) f = Do e (bind p f)"
| "bind (Call c k) f = Call c (\<lambda>err. bind (k err) f)"
| "bind (ImageExists c img k) f = ImageExists c img (\<lambda>x err. bind (k x err) f)"
| "bind (CreateContainer c cfg k) f = CreateContainer c cfg (\<lambda>cid err. bind (k cid err) f)"
| "bind (WaitContainer c cid k) f = WaitContainer c cid (\<lambda>code err. bind (k code err) f)"
| "bind (GetLogs c cid k) f = GetLogs c cid (\<lambda>out errs err. bind (k out errs err) f)"

text \<open>
  \<^verbatim>\<open>defer d\<close> in front of \<^verbatim>\<open>p\<close>: the deferred call runs when the function returns, and when
  it panics, in which case the panic goes on afterwards.
\<close>

primrec deferring :: "unit prog \<Rightarrow> 'a prog \<Rightarrow> 'a prog" where
  "deferring d (Return x) = bind d (\<lambda>_. Return x)"
| "deferring d Panic = bind d (\<lambda>_. Panic)"
| "deferring d (Now k) = Now (\<lambda>t. deferring d (k t))"
| "deferring d (Do e p) = Do e (deferring d p)"
| "deferring d (Call c k) = Call c (\<lambda>err. deferring d (k err))"
| "deferring d (ImageExists c img k) = ImageExists c img (\<lambda>x err. deferring d (k x err))"
| "deferring d (CreateContainer c cfg k) = CreateContainer c cfg (\<lambda>cid err. deferring d (k cid err))"
| "deferring d (WaitContainer c cid k) = WaitContainer c cid (\<lambda>code err. deferring d (k code err))"
| "deferring d (GetLogs c cid k) = GetLogs c cid (\<lambda>out errs err. deferring d (k out errs err))"

section \<open>Events\<close>

datatype event =
    EvNow int
  | EvDo effect
  | EvCall err_call "go_error option"
  | EvExists Ctx string bool "go_error option"
  | EvCreate Ctx ContainerConfig string "go_error option"
  | EvWait Ctx string i64 "go_error option"
  | EvLogs Ctx string string string "go_error option"

text \<open>What is left of a program after an event, \<open>None\<close> when its next call is another one.\<close>

fun after :: "'a prog \<Rightarrow> event \<Rightarrow> 'a prog option" where
  "after (Now k) (EvNow t) = Some (k t)"
| "after (Do e p) (EvDo e') = (if e' = e then Some p else None)"
| "after (Call c k) (EvCall c' err) = (if c' = c then Some (k err) else None)"
| "after (ImageExists c img k) (EvExists c' img' x err) =
     (if c' = c \<and> img' = img then Some (k x err) else None)"
| "after (CreateContainer c cfg k) (EvCreate c' cfg' cid err) =
     (if c' = c \<and> cfg' = cfg then Some (k cid err) else None)"
| "after (WaitContainer c cid k) (EvWait c' cid' code err) =
     (if c' = c \<and> cid' = cid then Some (k code err) else None)"
| "after (GetLogs c cid k) (EvLogs c' cid' out errs err) =
     (if c' = c \<and> cid' = cid then Some (k out errs err) else None)"
| "after _ _ = None"

fun runs :: "'a prog \<Rightarrow> event list \<Rightarrow> 'a prog option" where
  "runs p [] = Some p"
| "runs p (e # es) = (case after p e of None \<Rightarrow> None | Some q \<Rightarrow> runs q es)"

lemma runs_append: "runs p (es @ fs) = (case runs p es of None \<Rightarrow> None | Some q \<Rightarrow> runs q fs)"
  by (induction es arbitrary: p) (auto split: option.splits)

lemma runs_snoc: "runs p es = Some q \<Longrightarrow> after q e = Some r \<Longrightarrow> runs p (es @ [e]) = Some r"
  by (simp add: runs_append)

section \<open>Execution against a runtime\<close>

datatype 'a outcome = Returned 'a | Panicked

primrec prog_of :: "'a outcome \<Rightarrow> 'a prog" where
  "prog_of (Returned x) = Return x"
| "prog_of Panicked = Panic"

fun do_call :: "'w Runtime \<Rightarrow> err_call \<Rightarrow> ('w, go_error option) io" where
  "do_call rt (PullImage c img auth) = rt_PullImage rt c img auth"
| "do_call rt (StartContainer c cid) = rt_StartContainer rt c cid"
| "do_call rt (StopContainer c cid d) = rt_StopContainer rt c cid d"
| "do_call rt (KillContainer c cid sig) = rt_KillContainer rt c cid sig"
| "do_call rt (RemoveContainer c cid) = rt_RemoveContainer rt c cid"

definition logged :: "event \<Rightarrow> event list \<times> 'b \<Rightarrow> event list \<times> 'b" where
  "logged e r = (e # fst r, snd r)"

lemma logged_eq [simp]: "logged e r = (es, x) \<longleftrightarrow> (\<exists>fs. es = e # fs \<and> r = (fs, x))"
  by (cases r) (auto simp: logged_def)

primrec run :: "('w \<Rightarrow> int) \<Rightarrow> 'w Runtime \<Rightarrow> 'a prog \<Rightarrow> 'w \<Rightarrow> event list \<times> 'a outcome \<times> 'w" where
  "run clock rt (Return x) = (\<lambda>w. ([], Returned x, w))"
| "run clock rt Panic = (\<lambda>w. ([], Panicked, w))"
| "run clock rt (Now k) = (\<lambda>w. logged (EvNow (clock w)) (run clock rt (k (clock w)) w))"
| "run clock rt (Do e p) = (\<lambda>w. logged (EvDo e) (run clock rt p w))"
| "run clock rt (Call c k) =
     (\<lambda>w. case do_call rt c w of (err, w') \<Rightarrow> logged (EvCall c err) (run clock rt (k err) w'))"
| "run clock rt (ImageExists c img k) =
     (\<lambda>w. case rt_ImageExists rt c img w of
            ((x, err), w') \<Rightarrow> logged (EvExists c img x err) (run clock rt (k x err) w'))"
| "run clock rt (CreateContainer c cfg k) =
     (\<lambda>w. case rt_CreateContainer rt c cfg w of
            ((cid, err), w') \<Rightarrow> logged (EvCreate c cfg cid err) (run clock rt (k cid err) w'))"
| "run clock rt (WaitContainer c cid k) =
     (\<lambda>w. case rt_WaitContainer rt c cid w of
            ((code, err), w') \<Rightarrow> logged (EvWait c cid code err) (run clock rt (k code err) w'))"
| "run clock rt (GetLogs c cid k) =
     (\<lambda>w. case rt_GetLogs rt c cid w of
            (((out, errs), err), w') \<Rightarrow>
              logged (EvLogs c cid out errs err) (run clock rt (k out errs err) w'))"

text \<open>An execution is one of the event sequences of the program, up to its end.\<close>

lemma run_runs: "run clock rt p w = (es, oc, w') \<Longrightarrow> runs p es = Some (prog_of oc)"
  by (induction p arbitrary: w es rule: prog_induct)
    (auto split: prod.splits)

section \<open>All executions\<close>

text \<open>
  \<open>wp p Q h\<close>: whatever the calls return, \<open>p\<close> started with the events \<open>h\<close> behind it ends
  with events and an outcome that satisfy \<open>Q\<close>.
\<close>

primrec wp :: "'a prog \<Rightarrow> (event list \<Rightarrow> 'a outcome \<Rightarrow> bool) \<Rightarrow> event list \<Rightarrow> bool" where
  "wp (Return x) Q = (\<lambda>h. Q h (Returned x))"
| "wp Panic Q = (\<lambda>h. Q h Panicked)"
| "wp (Now k) Q = (\<lambda>h. \<forall>t. wp (k t) Q (h @ [EvNow t]))"
| "wp (Do e p) Q = (\<lambda>h. wp p Q (h @ [EvDo e]))"
| "wp (Call c k) Q = (\<lambda>h. \<forall>err. wp (k err) Q (h @ [EvCall c err]))"
| "wp (ImageExists c img k) Q = (\<lambda>h. \<forall>x err. wp (k x err) Q (h @ [EvExists c img x err]))"
| "wp (CreateContainer c cfg k) Q = (\<lambda>h. \<forall>cid err. wp (k cid err) Q (h @ [EvCreate c cfg cid err]))"
| "wp (WaitContainer c cid k) Q = (\<lambda>h. \<forall>code err. wp (k code err) Q (h @ [EvWait c cid code err]))"
| "wp (GetLogs c cid k) Q =
     (\<lambda>h. \<forall>out errs err. wp (k out errs err) Q (h @ [EvLogs c cid out errs err]))"

lemma wp_mono: "wp p Q h \<Longrightarrow> (\<And>h oc. Q h oc \<Longrightarrow> R h oc) \<Longrightarrow> wp p R h"
  by (induction p arbitrary: h rule: prog_induct) auto

lemma wp_bind:
  "wp (bind p f) Q h \<longleftrightarrow>
     wp p (\<lambda>h oc. case oc of Returned x \<Rightarrow> wp (f x) Q h | Panicked \<Rightarrow> Q h Panicked) h"
  by (induction p arbitrary: h rule: prog_induct) auto

lemma wp_deferring:
  "wp (deferring d p) Q h \<longleftrightarrow>
     wp p (\<lambda>h oc. wp d (\<lambda>h oc'. Q h (case oc' of Returned _ \<Rightarrow> oc | Panicked \<Rightarrow> Panicked)) h) h"
proof (induction p arbitrary: h rule: prog_induct)
  case (Return x)
  then show ?case by (simp add: wp_bind) (rule iffI; erule wp_mono; simp split: outcome.splits)
next
  case Panic
  then show ?case by (simp add: wp_bind) (rule iffI; erule wp_mono; simp split: outcome.splits)
qed auto

lemma after_wp: "after p e = Some q \<Longrightarrow> wp p Q h \<Longrightarrow> wp q Q (h @ [e])"
  by (cases "(p, e)" rule: after.cases) (auto split: if_splits)

lemma runs_wp:
  assumes "runs p es = Some q" and "wp p Q h"
  shows "wp q Q (h @ es)"
  using assms
proof (induction es arbitrary: p h)
  case (Cons e es)
  then obtain r where "after p e = Some r" "runs r es = Some q" by (auto split: option.splits)
  with Cons.IH [of r "h @ [e]"] Cons.prems(2) show ?case by (simp add: after_wp)
qed simp

lemma runs_ends:
  assumes "wp p Q []" and "runs p es = Some (prog_of oc)"
  shows "Q es oc"
  using runs_wp [OF assms(2,1)] by (cases oc) simp_all

lemma run_ends:
  assumes "wp p Q []" and "run clock rt p w = (es, oc, w')"
  shows "Q es oc"
  using assms(1) run_runs [OF assms(2)] by (rule runs_ends)

section \<open>Lawful runtimes\<close>

text \<open>The interface's contract, read off the events of an execution.\<close>

fun lawful :: "event \<Rightarrow> bool" where
  "lawful (EvExists c img x err) \<longleftrightarrow> err = None \<or> \<not> x"
| "lawful (EvCreate c cfg cid err) \<longleftrightarrow> err = None \<or> cid = []"
| "lawful (EvLogs c cid out errs err) \<longleftrightarrow> err = None \<or> out = [] \<and> errs = []"
| "lawful _ \<longleftrightarrow> True"

context container_runtime begin

lemma lawful_exists: "rt_ImageExists rt c img w = ((x, err), w') \<Longrightarrow> lawful (EvExists c img x err)"
  by (cases err) (auto dest: exists_error)

lemma lawful_create: "rt_CreateContainer rt c cfg w = ((cid, err), w') \<Longrightarrow> lawful (EvCreate c cfg cid err)"
  by (cases err) (auto dest: create_error)

lemma lawful_logs: "rt_GetLogs rt c cid w = (((out, errs), err), w') \<Longrightarrow> lawful (EvLogs c cid out errs err)"
  by (cases err) (auto dest: logs_error)

lemma run_lawful: "run clock rt p w = (es, oc, w') \<Longrightarrow> list_all lawful es"
  by (induction p arbitrary: w es rule: prog_induct)
    (auto simp del: lawful.simps(1-3) split: prod.splits
      dest: lawful_exists lawful_create lawful_logs)

end

end
