(* ===== verification/Config_Builder.thy ===== *)
theory Config_Builder
  imports Config Validator
begin

text \<open>
  \<^verbatim>\<open>pkg/executor/config_builder.go\<close>: a job request becomes a container configuration, its
  command string an argument list, its timeout the effective timeout. The order in which
  the request's environment map is visited is an argument.
\<close>

section \<open>The builder\<close>

definition defaultCPULimit :: f64 where "defaultCPULimit = f64_1_0"
definition defaultMemoryMB :: i64 where "defaultMemoryMB = 256"
definition bytesPerMB :: i64 where "bytesPerMB = 1048576"
definition defaultUser :: string where "defaultUser = ''1000:1000''"
definition secretMountBaseDir :: string where "secretMountBaseDir = ''/run/secrets''"

definition squote :: char where
  "squote = CHR 0x27"

text \<open>\<^verbatim>\<open>parseCommand\<close>: the loop over the bytes, with the arguments so far and the current one.\<close>

fun parseCommand_loop ::
  "string \<Rightarrow> string list \<Rightarrow> string \<Rightarrow> bool \<Rightarrow> bool \<Rightarrow> string list" where
  "parseCommand_loop [] args current inSingleQuote inDoubleQuote =
     (if length current > 0 then args @ [current] else args)"
| "parseCommand_loop (ch # cmd) args current inSingleQuote inDoubleQuote =
     (if ch = squote \<and> \<not> inDoubleQuote
      then parseCommand_loop cmd args current (\<not> inSingleQuote) inDoubleQuote
      else if ch = dquote \<and> \<not> inSingleQuote
      then parseCommand_loop cmd args current inSingleQuote (\<not> inDoubleQuote)
      else if ch = CHR '' '' \<and> \<not> inSingleQuote \<and> \<not> inDoubleQuote
      then (if length current > 0
            then parseCommand_loop cmd (args @ [current]) [] inSingleQuote inDoubleQuote
            else parseCommand_loop cmd args current inSingleQuote inDoubleQuote)
      else parseCommand_loop cmd args (current @ [ch]) inSingleQuote inDoubleQuote)"

definition parseCommand :: "string \<Rightarrow> string list" where
  "parseCommand cmd = parseCommand_loop cmd [] [] False False"

text \<open>The loop over the secrets: the environment and the mounts so far.\<close>

definition env_entry :: "string \<Rightarrow> string \<Rightarrow> string" where
  "env_entry k v = k @ ''='' @ v"

definition is_file_secret :: "Secret \<Rightarrow> bool" where
  "is_file_secret s \<longleftrightarrow> (case sec_FilePath s of None \<Rightarrow> False | Some p \<Rightarrow> p \<noteq> [])"

fun inject_secrets :: "Secret list \<Rightarrow> string list \<Rightarrow> Mount list \<Rightarrow> string list \<times> Mount list" where
  "inject_secrets [] env mounts = (env, mounts)"
| "inject_secrets (s # ss) env mounts =
     (if is_file_secret s
      then inject_secrets ss env
             (mounts @ [\<lparr>mnt_Source = secretMountBaseDir @ ''/'' @ sec_Name s,
                         mnt_Target = the (sec_FilePath s), mnt_ReadOnly = True\<rparr>])
      else inject_secrets ss (env @ [env_entry (sec_Name s) (sec_Value s)]) mounts)"

definition BuildContainerConfig :: "string list \<Rightarrow> JobRequest \<Rightarrow> Config \<Rightarrow> ContainerConfig" where
  "BuildContainerConfig order req cfg =
     (let env = map (\<lambda>(k, v). env_entry k v) (range_map (req_Env req) order);
          (env', mounts) = inject_secrets (req_Secrets req) env []
      in \<lparr>cc_Image = req_Image req,
          cc_Command = parseCommand (req_Command req),
          cc_Env = env',
          cc_CPULimit = (case req_CPULimit req of Some c \<Rightarrow> c | None \<Rightarrow> defaultCPULimit),
          cc_MemoryLimit = (case req_MemoryLimitMB req of
                              Some m \<Rightarrow> m * bytesPerMB
                            | None \<Rightarrow> defaultMemoryMB * bytesPerMB),
          cc_NetworkOff = (\<not> req_NetworkAccess req),
          cc_ReadOnlyFS = True,
          cc_User = defaultUser,
          cc_CapDrop = [''ALL''],
          cc_Mounts = mounts\<rparr>)"

definition EffectiveTimeout :: "JobRequest \<Rightarrow> Config \<Rightarrow> duration" where
  "EffectiveTimeout req cfg =
     (case req_TimeoutSeconds req of
        None \<Rightarrow> cfg_DefaultTimeout cfg
      | Some t \<Rightarrow>
          (let requested = t * second
           in if cfg_MaxTimeout cfg <s requested then cfg_MaxTimeout cfg else requested))"

section \<open>Secrets\<close>

lemma inject_secrets_eq:
  "inject_secrets ss env mounts =
     (env @ map (\<lambda>s. env_entry (sec_Name s) (sec_Value s)) (filter (\<lambda>s. \<not> is_file_secret s) ss),
      mounts @ map (\<lambda>s. \<lparr>mnt_Source = secretMountBaseDir @ ''/'' @ sec_Name s,
                          mnt_Target = the (sec_FilePath s), mnt_ReadOnly = True\<rparr>)
                 (filter is_file_secret ss))"
  by (induction ss arbitrary: env mounts) auto

lemma concat_if_filter: "concat (map (\<lambda>x. if P x then [f x] else []) xs) = map f (filter P xs)"
  by (induction xs) simp_all

lemma cc_Env_eq:
  "cc_Env (BuildContainerConfig ord req cfg) =
     map (\<lambda>(k, v). env_entry k v) (range_map (req_Env req) ord)
     @ map (\<lambda>s. env_entry (sec_Name s) (sec_Value s))
         (filter (\<lambda>s. \<not> is_file_secret s) (req_Secrets req))"
  by (simp add: BuildContainerConfig_def inject_secrets_eq)

lemma cc_Mounts_eq:
  "cc_Mounts (BuildContainerConfig ord req cfg) =
     map (\<lambda>s. \<lparr>mnt_Source = secretMountBaseDir @ ''/'' @ sec_Name s,
               mnt_Target = the (sec_FilePath s), mnt_ReadOnly = True\<rparr>)
       (filter is_file_secret (req_Secrets req))"
  by (simp add: BuildContainerConfig_def inject_secrets_eq)

lemma file_secret_mounts:
  assumes "map sec_Name ss = map sec_Name ts" and "map sec_FilePath ss = map sec_FilePath ts"
  shows "map (\<lambda>s. \<lparr>mnt_Source = secretMountBaseDir @ ''/'' @ sec_Name s,
               mnt_Target = the (sec_FilePath s), mnt_ReadOnly = True\<rparr>) (filter is_file_secret ss)
       = map (\<lambda>s. \<lparr>mnt_Source = secretMountBaseDir @ ''/'' @ sec_Name s,
               mnt_Target = the (sec_FilePath s), mnt_ReadOnly = True\<rparr>) (filter is_file_secret ts)"
  using map_eq_imp_length_eq [OF assms(1)] assms
proof (induction ss ts rule: list_induct2)
  case (Cons s ss t ts)
  then have "is_file_secret s = is_file_secret t" by (simp add: is_file_secret_def)
  with Cons show ?case by simp
qed simp

text \<open>
  Whatever the request asks for, the container runs as user 1000:1000 on a read-only root
  file system with all capabilities dropped; its image is the request's, its network is off
  unless the request enables it, and every mount it gets is read-only.
\<close>

theorem BuildContainerConfig_security:
  "cc_ReadOnlyFS (BuildContainerConfig ord req cfg)
   \<and> cc_User (BuildContainerConfig ord req cfg) = ''1000:1000''
   \<and> cc_CapDrop (BuildContainerConfig ord req cfg) = [''ALL'']
   \<and> cc_Image (BuildContainerConfig ord req cfg) = req_Image req
   \<and> cc_NetworkOff (BuildContainerConfig ord req cfg) = (\<not> req_NetworkAccess req)
   \<and> list_all mnt_ReadOnly (cc_Mounts (BuildContainerConfig ord req cfg))"
  by (auto simp: BuildContainerConfig_def inject_secrets_eq defaultUser_def list_all_iff)

text \<open>
  C27: the container's environment holds, counted with multiplicity, one \<^verbatim>\<open>KEY=VALUE\<close> entry for
  every variable of the request and one for every secret without a file path, whatever order
  the map is visited in. The mounts are exactly the secrets with a file path, in their order,
  each read-only from \<^verbatim>\<open>/run/secrets/NAME\<close> on the host to its path, so no secret is lost: the
  entries and the mounts together are as many as the variables and the secrets.
\<close>

theorem BuildContainerConfig_env:
  assumes "iteration_order (req_Env req) ord"
  shows "mset (cc_Env (BuildContainerConfig ord req cfg)) =
       {#env_entry k v. (k, v) \<in># mset_set {(k, v). req_Env req k = Some v}#}
       + {#env_entry (sec_Name s) (sec_Value s). s \<in># mset (filter (\<lambda>s. \<not> is_file_secret s) (req_Secrets req))#}
    \<and> cc_Mounts (BuildContainerConfig ord req cfg) =
       [\<lparr>mnt_Source = ''/run/secrets/'' @ sec_Name s, mnt_Target = the (sec_FilePath s), mnt_ReadOnly = True\<rparr>.
         s \<leftarrow> req_Secrets req, is_file_secret s]
    \<and> length (cc_Env (BuildContainerConfig ord req cfg)) + length (cc_Mounts (BuildContainerConfig ord req cfg))
       = card (dom (req_Env req)) + length (req_Secrets req)"
proof (intro conjI)
  have "mset (range_map (req_Env req) ord) = mset_set (set (range_map (req_Env req) ord))"
    using assms by (simp add: iteration_order_def distinct_range_map mset_set_set)
  then have "mset (range_map (req_Env req) ord) = mset_set {(k, v). req_Env req k = Some v}"
    using assms by (simp only: set_range_map_order)
  then show "mset (cc_Env (BuildContainerConfig ord req cfg)) =
       {#env_entry k v. (k, v) \<in># mset_set {(k, v). req_Env req k = Some v}#}
       + {#env_entry (sec_Name s) (sec_Value s). s \<in># mset (filter (\<lambda>s. \<not> is_file_secret s) (req_Secrets req))#}"
    by (simp add: cc_Env_eq)
  show "cc_Mounts (BuildContainerConfig ord req cfg) =
       [\<lparr>mnt_Source = ''/run/secrets/'' @ sec_Name s, mnt_Target = the (sec_FilePath s), mnt_ReadOnly = True\<rparr>.
         s \<leftarrow> req_Secrets req, is_file_secret s]"
    by (simp add: cc_Mounts_eq secretMountBaseDir_def concat_if_filter)
  show "length (cc_Env (BuildContainerConfig ord req cfg))
      + length (cc_Mounts (BuildContainerConfig ord req cfg))
      = card (dom (req_Env req)) + length (req_Secrets req)"
    using length_range_map [OF assms] sum_length_filter_compl [of is_file_secret "req_Secrets req"]
    by (simp add: cc_Env_eq cc_Mounts_eq len_map_def)
qed

theorem BuildContainerConfig_env_witness:
  "\<exists>c. c = BuildContainerConfig [''K'']
     (sample_request\<lparr>req_Env := [''K'' \<mapsto> ''v''],
        req_Secrets := [\<lparr>sec_Name = ''DB'', sec_Value = ''x'', sec_FilePath = Some ''/etc/db''\<rparr>]\<rparr>) sample_config
     \<and> cc_Mounts c = [\<lparr>mnt_Source = ''/run/secrets/DB'', mnt_Target = ''/etc/db'', mnt_ReadOnly = True\<rparr>]
     \<and> length (cc_Env c) = 1"
proof -
  let ?r = "sample_request\<lparr>req_Env := [''K'' \<mapsto> ''v''],
     req_Secrets := [\<lparr>sec_Name = ''DB'', sec_Value = ''x'', sec_FilePath = Some ''/etc/db''\<rparr>]\<rparr>"
  let ?c = "BuildContainerConfig [''K''] ?r sample_config"
  have "iteration_order (req_Env ?r) [''K'']" by (simp add: iteration_order_def)
  note f = BuildContainerConfig_env [OF this, of sample_config]
  then have m: "cc_Mounts ?c = [\<lparr>mnt_Source = ''/run/secrets/DB'', mnt_Target = ''/etc/db'', mnt_ReadOnly = True\<rparr>]"
    by (simp add: is_file_secret_def)
  from f have "length (cc_Env ?c) + length (cc_Mounts ?c) = card (dom (req_Env ?r)) + length (req_Secrets ?r)" by blast
  with m have "length (cc_Env ?c) = 1" by simp
  with m show ?thesis by blast
qed

text \<open>
  Nothing of the value of a secret with a file path reaches the container: two requests
  that differ in the values of such secrets only get the same configuration. The mount's
  source \<^verbatim>\<open>/run/secrets/NAME\<close> is a path on the host that no code of the worker writes.
\<close>

theorem file_secret_value_unused:
  assumes "map sec_Name ss = map sec_Name (req_Secrets req)"
    and "map sec_FilePath ss = map sec_FilePath (req_Secrets req)"
    and "filter (\<lambda>s. \<not> is_file_secret s) ss = filter (\<lambda>s. \<not> is_file_secret s) (req_Secrets req)"
  shows "BuildContainerConfig ord (req\<lparr>req_Secrets := ss\<rparr>) cfg = BuildContainerConfig ord req cfg"
  using file_secret_mounts [OF assms(1,2)] assms(3)
  by (simp add: BuildContainerConfig_def inject_secrets_eq)

theorem file_secret_value_unused_witness:
  "BuildContainerConfig [] (sample_request\<lparr>req_Secrets :=
       [\<lparr>sec_Name = ''KEY'', sec_Value = ''hunter2'', sec_FilePath = Some ''/etc/key''\<rparr>]\<rparr>) sample_config
   = BuildContainerConfig [] (sample_request\<lparr>req_Secrets :=
       [\<lparr>sec_Name = ''KEY'', sec_Value = [], sec_FilePath = Some ''/etc/key''\<rparr>]\<rparr>) sample_config"
  using file_secret_value_unused
    [of "[\<lparr>sec_Name = ''KEY'', sec_Value = ''hunter2'', sec_FilePath = Some ''/etc/key''\<rparr>]"
      "sample_request\<lparr>req_Secrets :=
         [\<lparr>sec_Name = ''KEY'', sec_Value = [], sec_FilePath = Some ''/etc/key''\<rparr>]\<rparr>"
      "[]" sample_config]
  by (simp add: is_file_secret_def)

section \<open>Resource limits\<close>

lemma container_limits:
  assumes "memory_ok req" and "cpu_ok req"
  shows "sint (cc_MemoryLimit (BuildContainerConfig ord req cfg))
           = (case req_MemoryLimitMB req of None \<Rightarrow> 256 | Some m \<Rightarrow> sint m) * 1048576
    \<and> 16 * 1048576 \<le> sint (cc_MemoryLimit (BuildContainerConfig ord req cfg))
    \<and> sint (cc_MemoryLimit (BuildContainerConfig ord req cfg)) \<le> 8192 * 1048576
    \<and> \<not> f64_less (cc_CPULimit (BuildContainerConfig ord req cfg)) f64_0_1
    \<and> \<not> f64_less f64_4_0 (cc_CPULimit (BuildContainerConfig ord req cfg))"
proof -
  have "sint (m * bytesPerMB) = sint m * 1048576" if "16 \<le> sint m" "sint m \<le> 8192" for m :: i64
  proof -
    have "fits_i64 (sint m * sint bytesPerMB)"
      using that by (simp add: bytesPerMB_def fits_i64_def)
    then show ?thesis by (simp add: sint_mult_fits) (simp add: bytesPerMB_def)
  qed
  moreover have "sint (defaultMemoryMB * bytesPerMB) = 256 * 1048576"
    by (simp add: defaultMemoryMB_def bytesPerMB_def)
  moreover have "\<not> f64_less defaultCPULimit f64_0_1" "\<not> f64_less f64_4_0 defaultCPULimit"
    by code_simp+
  ultimately show ?thesis
    using assms
    by (auto simp: BuildContainerConfig_def memory_ok_def cpu_ok_def split: option.splits prod.splits)
qed

text \<open>
  For a request that passed validation the memory limit is the requested number of
  megabytes in bytes, without wrap-around in int64, 256 MB when it names none, and so
  between 16 MB and 8 GB; the CPU limit is the request's or one core, within 0.1 to 4.0.
\<close>

theorem BuildContainerConfig_limits:
  assumes "memory_ok req" and "cpu_ok req"
  shows "sint (cc_MemoryLimit (BuildContainerConfig ord req cfg))
           = (case req_MemoryLimitMB req of None \<Rightarrow> 256 | Some m \<Rightarrow> sint m) * 1048576
    \<and> 16 * 1048576 \<le> sint (cc_MemoryLimit (BuildContainerConfig ord req cfg))
    \<and> sint (cc_MemoryLimit (BuildContainerConfig ord req cfg)) \<le> 8192 * 1048576
    \<and> \<not> f64_less (cc_CPULimit (BuildContainerConfig ord req cfg)) f64_0_1
    \<and> \<not> f64_less f64_4_0 (cc_CPULimit (BuildContainerConfig ord req cfg))"
  using assms by (rule container_limits)

theorem BuildContainerConfig_limits_witness:
  "sint (cc_MemoryLimit (BuildContainerConfig [] sample_request sample_config)) = 64 * 1048576"
  using BuildContainerConfig_limits [of sample_request "[]" sample_config]
  by (simp add: memory_ok_def cpu_ok_def sample_request_def)



section \<open>The command parser\<close>

text \<open>
  A way to write any argument list as a command string: each byte in single quotes, a single
  quote in double quotes, the arguments separated by a space.
\<close>

definition quote_byte :: "char \<Rightarrow> string" where
  "quote_byte c = (if c = squote then [dquote, c, dquote] else [squote, c, squote])"

definition shell_quote :: "string \<Rightarrow> string" where
  "shell_quote a = concat (map quote_byte a)"

fun join_args :: "string list \<Rightarrow> string" where
  "join_args [] = []"
| "join_args [a] = a"
| "join_args (a # as) = a @ CHR '' '' # join_args as"

lemma quotes_distinct [simp]:
  "squote \<noteq> dquote" "dquote \<noteq> squote" "CHR '' '' \<noteq> squote" "CHR '' '' \<noteq> dquote"
  by (simp_all add: squote_def dquote_def)

lemma parse_quoted:
  "parseCommand_loop (shell_quote a @ rest) args cur False False
     = parseCommand_loop rest args (cur @ a) False False"
  by (induction a arbitrary: cur) (auto simp: shell_quote_def quote_byte_def)

lemma parse_join_quoted:
  "[] \<notin> set xs \<Longrightarrow>
     parseCommand_loop (join_args (map shell_quote xs)) args [] False False = args @ xs"
proof (induction xs arbitrary: args rule: join_args.induct)
  case (2 a)
  then show ?case using parse_quoted [of a "[]" args "[]"] by simp
next
  case (3 a b as)
  then show ?case
    using parse_quoted [of a "CHR '' '' # join_args (map shell_quote (b # as))" args "[]"]
    by (cases a) simp_all
qed simp

text \<open>
  C26: every list of non-empty arguments, whatever bytes they hold, is the result of parsing
  its quoted form: spaces and either kind of quote survive inside the other kind.
\<close>

theorem parseCommand_round_trip:
  assumes "[] \<notin> set args"
  shows "parseCommand (join_args (map shell_quote args)) = args"
  using parse_join_quoted [OF assms, of "[]"] by (simp add: parseCommand_def)

theorem parseCommand_round_trip_witness:
  "parseCommand (join_args (map shell_quote [''sh'', ''-c'', ''echo it'' @ [squote] @ ''s''])) =
     [''sh'', ''-c'', ''echo it'' @ [squote] @ ''s'']"
  by (rule parseCommand_round_trip) simp

lemma parse_no_quotes:
  assumes "squote \<notin> set cmd" and "dquote \<notin> set cmd"
  shows "parseCommand_loop cmd args cur False False =
     args @ filter (\<lambda>w. w \<noteq> []) ((cur @ hd (Split cmd (CHR '' ''))) # tl (Split cmd (CHR '' '')))"
  using assms
proof (induction cmd arbitrary: args cur)
  case (Cons c cmd)
  obtain p ps where "Split cmd (CHR '' '') = p # ps"
    using Split_nonempty by (cases "Split cmd (CHR '' '')") auto
  with Cons show ?case by (cases cur) auto
qed auto

lemma parse_loop_nonempty:
  "[] \<notin> set args \<Longrightarrow> [] \<notin> set (parseCommand_loop cmd args cur sq dq)"
  by (induction cmd args cur sq dq rule: parseCommand_loop.induct) auto

text \<open>
  Without quotes the parser is a split at spaces with the empty pieces dropped; no
  argument it returns is ever empty, quotes or not.
\<close>

theorem parseCommand_words:
  "(squote \<notin> set cmd \<and> dquote \<notin> set cmd
      \<longrightarrow> parseCommand cmd = filter (\<lambda>w. w \<noteq> []) (Split cmd (CHR '' '')))
   \<and> [] \<notin> set (parseCommand cmd)"
proof (intro conjI impI)
  assume "squote \<notin> set cmd \<and> dquote \<notin> set cmd"
  then show "parseCommand cmd = filter (\<lambda>w. w \<noteq> []) (Split cmd (CHR '' ''))"
    using parse_no_quotes [of cmd "[]" "[]"] by (simp add: parseCommand_def)
qed (simp add: parseCommand_def parse_loop_nonempty)

theorem parseCommand_words_witness:
  "parseCommand ''ls  -l  /tmp '' = [''ls'', ''-l'', ''/tmp'']"
proof -
  have "squote \<notin> set ''ls  -l  /tmp ''" "dquote \<notin> set ''ls  -l  /tmp ''"
    by (simp_all add: squote_def dquote_def)
  then show ?thesis using parseCommand_words [of "''ls  -l  /tmp ''"] by simp
qed

text \<open>
  A command of blanks passes the validation (it is not empty) and reaches the runtime as
  an empty argument list, so that the image's own default command would run.
\<close>

theorem blank_command_accepted:
  "valid_request uc [] (sample_request\<lparr>req_Command := replicate (Suc n) (CHR '' '')\<rparr>) = (n < 1024)
   \<and> cc_Command (BuildContainerConfig ord
        (sample_request\<lparr>req_Command := replicate (Suc n) (CHR '' '')\<rparr>) cfg) = []"
proof
  show "valid_request uc [] (sample_request\<lparr>req_Command := replicate (Suc n) (CHR '' '')\<rparr>) = (n < 1024)"
    by (auto simp: valid_request_def image_ok_def command_ok_def env_ok_def timeout_ok_def
        cpu_ok_def memory_ok_def secrets_ok_def sample_request_def)
  have "parseCommand_loop (replicate m (CHR '' '')) [] [] False False = []" for m
    by (induction m) auto
  then show "cc_Command (BuildContainerConfig ord
      (sample_request\<lparr>req_Command := replicate (Suc n) (CHR '' '')\<rparr>) cfg) = []"
    by (simp only: BuildContainerConfig_def parseCommand_def)
      (simp add: Let_def case_prod_beta del: replicate_Suc)
qed

end
