(* ===== verification/Executor.thy ===== *)
theory Executor
  imports Job_Program Config_Builder Output_Redaction Log_Buffer
begin

text \<open>
  \<^verbatim>\<open>pkg/executor/executor.go\<close>: the life of one job, from the image pull to the removal of its
  container, as the program its goroutine runs; the goroutine that copies the container's logs
  to the log buffer; the job identifiers. The functions that other goroutines call
  (\<^verbatim>\<open>Submit\<close>, \<^verbatim>\<open>GetResult\<close> and the like) are in \<open>Worker\<close>.
\<close>

unbundle bit_operations_syntax

section \<open>Jobs\<close>

text \<open>
  \<open>rj_Cancelled\<close> stands for the cancel function of the job's context, \<open>rj_Done\<close> says that
  the channel \<^verbatim>\<open>Done\<close> is closed.
\<close>

record RunningJob =
  rj_ID :: string
  rj_Request :: JobRequest
  rj_Result :: "ExecutionResult option"
  rj_LogBuffer :: LogBuffer
  rj_Cancelled :: bool
  rj_Done :: bool

definition gracefulShutdownTimeout :: duration where
  "gracefulShutdownTimeout = 10 * second"

section \<open>Pulling the image\<close>

definition convert_auth :: "RegistryAuth option \<Rightarrow> RuntimeAuth option" where
  "convert_auth auth =
     map_option (\<lambda>a. \<lparr>rauth_Username = auth_Username a, rauth_Password = auth_Password a\<rparr>) auth"

definition pullImageIfNeeded :: "Config \<Rightarrow> Ctx \<Rightarrow> RunningJob \<Rightarrow> go_error option prog" where
  "pullImageIfNeeded cfg ctx job =
     ImageExists ctx (req_Image (rj_Request job)) (\<lambda>exists err.
       case err of
         Some e \<Rightarrow> Return (Some (''checking image existence: '' @ e))
       | None \<Rightarrow>
           if exists then Return None
           else Now (\<lambda>t0.
             let pullCtx = WithTimeout t0 ctx (cfg_ImagePullTimeout cfg) in
             Call (PullImage pullCtx (req_Image (rj_Request job))
                     (convert_auth (req_RegistryAuth (rj_Request job)))) (\<lambda>err.
               case err of
                 None \<Rightarrow> Return None
               | Some e \<Rightarrow>
                   Now (\<lambda>t. if ctx_err pullCtx t
                            then Return (Some (''image pull timed out after ''
                                                 @ Duration_String (cfg_ImagePullTimeout cfg)))
                            else Return (Some e)))))"

section \<open>Stopping a container that ran out of time\<close>

definition handleTimeout :: "string \<Rightarrow> unit prog" where
  "handleTimeout containerID =
     Now (\<lambda>t0.
       let termCtx = WithTimeout t0 Background (gracefulShutdownTimeout + 5 * second) in
       Call (StopContainer termCtx containerID gracefulShutdownTimeout) (\<lambda>err.
         case err of
           None \<Rightarrow> Return ()
         | Some _ \<Rightarrow>
             Now (\<lambda>t1.
               let killCtx = WithTimeout t1 Background (5 * second) in
               Call (KillContainer killCtx containerID ''SIGKILL'') (\<lambda>_. Return ()))))"

section \<open>The job\<close>

text \<open>The result of lines 165 to 170, 180 to 185 and 200 to 205.\<close>

definition error_result :: "RunningJob \<Rightarrow> string \<Rightarrow> duration \<Rightarrow> ExecutionResult" where
  "error_result job msg elapsed =
     zero_result\<lparr>res_JobID := rj_ID job, res_Status := ''error'', res_Error := msg,
                 res_DurationMs := Milliseconds elapsed\<rparr>"

definition fail_job :: "RunningJob \<Rightarrow> int \<Rightarrow> string \<Rightarrow> unit prog" where
  "fail_job job start msg =
     Now (\<lambda>t. Do (SetResult (error_result job msg (time_since t start))) (Return ()))"

text \<open>Lines 252 to 267: the status of the result.\<close>

definition final_result :: "ExecutionResult \<Rightarrow> bool \<Rightarrow> i64 \<Rightarrow> go_error option \<Rightarrow> ExecutionResult" where
  "final_result result timedOut exitCode waitErr =
     (if timedOut then result\<lparr>res_Status := ''timeout'', res_ExitCode := Some exitCode\<rparr>
      else (case waitErr of
              Some e \<Rightarrow> result\<lparr>res_Status := ''error'', res_Error := ''container wait failed: '' @ e\<rparr>
            | None \<Rightarrow>
                (let r = result\<lparr>res_ExitCode := Some exitCode\<rparr> in
                 if exitCode = 0 then r\<lparr>res_Status := ''success''\<rparr>
                 else r\<lparr>res_Status := ''failed''\<rparr>)))"

text \<open>Lines 227 to 269: the container's output becomes the job's result.\<close>

definition collect_output ::
  "Config \<Rightarrow> RunningJob \<Rightarrow> string \<Rightarrow> duration \<Rightarrow> bool \<Rightarrow> i64 \<Rightarrow> go_error option \<Rightarrow> unit prog" where
  "collect_output cfg job containerID duration timedOut exitCode waitErr =
     Now (\<lambda>t0.
       let logCtx = WithTimeout t0 Background (10 * second) in
       GetLogs logCtx containerID (\<lambda>stdout stderr logErr.
         case CaptureOutput stdout stderr (cfg_MaxOutputBytes cfg) of
           None \<Rightarrow> Panic
         | Some (outStr, errStr, outTruncated, errTruncated) \<Rightarrow>
             let result = zero_result
                   \<lparr>res_JobID := rj_ID job,
                    res_Stdout := RedactSecrets outStr (req_Secrets (rj_Request job)) redactionPlaceholder,
                    res_Stderr := RedactSecrets errStr (req_Secrets (rj_Request job)) redactionPlaceholder,
                    res_StdoutTruncated := outTruncated,
                    res_StderrTruncated := errTruncated,
                    res_DurationMs := Milliseconds duration\<rparr>
             in Do (SetResult (final_result result timedOut exitCode waitErr)) (Return ())))"

text \<open>Lines 199 to 269: from the start of the container.\<close>

definition run_container :: "Config \<Rightarrow> RunningJob \<Rightarrow> Ctx \<Rightarrow> int \<Rightarrow> string \<Rightarrow> unit prog" where
  "run_container cfg job timeoutCtx start containerID =
     Call (StartContainer timeoutCtx containerID) (\<lambda>err.
       case err of
         Some e \<Rightarrow> fail_job job start (''container start failed: '' @ e)
       | None \<Rightarrow>
           Now (\<lambda>execStart.
             Do (GoStream timeoutCtx containerID)
               (WaitContainer timeoutCtx containerID (\<lambda>exitCode waitErr.
                 bind (if waitErr \<noteq> None then Now (\<lambda>t. Return (ctx_err timeoutCtx t))
                       else Return False) (\<lambda>timedOut.
                 bind (if timedOut then handleTimeout containerID else Return ()) (\<lambda>_.
                 Now (\<lambda>t.
                   collect_output cfg job containerID (time_since t execStart)
                     timedOut exitCode waitErr)))))))"

text \<open>The deferred function of lines 190 to 196.\<close>

definition removeContainer :: "string \<Rightarrow> unit prog" where
  "removeContainer containerID =
     Now (\<lambda>t0. let rmCtx = WithTimeout t0 Background (30 * second) in
               Call (RemoveContainer rmCtx containerID) (\<lambda>_. Return ()))"

definition execute_body :: "string list \<Rightarrow> Config \<Rightarrow> Ctx \<Rightarrow> RunningJob \<Rightarrow> unit prog" where
  "execute_body order cfg ctx job =
     Now (\<lambda>start.
       let timeout = EffectiveTimeout (rj_Request job) cfg in
       Now (\<lambda>t0.
         let timeoutCtx = WithTimeout t0 ctx timeout in
         deferring (Do CancelTimeout (Return ()))
           (bind (pullImageIfNeeded cfg ctx job) (\<lambda>err.
             case err of
               Some e \<Rightarrow> fail_job job start (''image pull failed: '' @ e)
             | None \<Rightarrow>
                 let containerCfg = BuildContainerConfig order (rj_Request job) cfg in
                 CreateContainer timeoutCtx containerCfg (\<lambda>containerID err.
                   case err of
                     Some e \<Rightarrow> fail_job job start (''container create failed: '' @ e)
                   | None \<Rightarrow>
                       deferring (removeContainer containerID)
                         (run_container cfg job timeoutCtx start containerID))))))"

definition executeJob :: "string list \<Rightarrow> Config \<Rightarrow> Ctx \<Rightarrow> RunningJob \<Rightarrow> unit prog" where
  "executeJob order cfg ctx job =
     deferring (Do CloseDone (Return ()))
       (deferring (Do CloseBuffer (Return ()))
         (deferring (Do CancelJob (Return ()))
           (execute_body order cfg ctx job)))"

section \<open>The streaming goroutine\<close>

definition streamContainerLogs :: "Ctx \<Rightarrow> string \<Rightarrow> unit prog" where
  "streamContainerLogs ctx containerID =
     GetLogs ctx containerID (\<lambda>stdout stderr err.
       case err of
         Some _ \<Rightarrow> Return ()
       | None \<Rightarrow>
           bind (if length stdout > 0 then Do (WriteBuffer ''stdout'' stdout) (Return ()) else Return ()) (\<lambda>_.
           bind (if length stderr > 0 then Do (WriteBuffer ''stderr'' stderr) (Return ()) else Return ()) (\<lambda>_.
           Return ())))"

section \<open>Job identifiers\<close>

text \<open>
  \<^verbatim>\<open>generateJobID\<close>, on the sixteen bytes that \<^verbatim>\<open>rand.Read\<close> delivers. \<^verbatim>\<open>hex.Encode\<close> writes
  two lower-case digits for a byte.
\<close>

type_synonym byte = "8 word"

definition hex_byte :: "byte \<Rightarrow> string" where
  "hex_byte b = [hex_char (unat b div 16), hex_char (unat b mod 16)]"

definition hex_Encode :: "byte list \<Rightarrow> string" where
  "hex_Encode bs = concat (map hex_byte bs)"

definition slice :: "nat \<Rightarrow> nat \<Rightarrow> 'a list \<Rightarrow> 'a list" where
  "slice i j xs = take (j - i) (drop i xs)"

definition generateJobID :: "byte list \<Rightarrow> string" where
  "generateJobID rnd =
     (let uuid = rnd[6 := (rnd ! 6 AND 0x0f) OR 0x40];
          uuid = uuid[8 := (uuid ! 8 AND 0x3f) OR 0x80]
      in hex_Encode (slice 0 4 uuid) @ ''-'' @ hex_Encode (slice 4 6 uuid) @ ''-''
         @ hex_Encode (slice 6 8 uuid) @ ''-'' @ hex_Encode (slice 8 10 uuid) @ ''-''
         @ hex_Encode (slice 10 16 uuid))"

end
