(* ===== verification/Executor_Proofs.thy ===== *)
theory Executor_Proofs
  imports Executor Redaction_Proofs
begin

text \<open>
  What every execution of a job does, whatever the runtime answers and whatever the clock
  shows: the life cycle of its container, the one result it sets, the deadlines it works
  under, and what the result says.
\<close>

lemmas job_defs = executeJob_def execute_body_def pullImageIfNeeded_def fail_job_def
  run_container_def handleTimeout_def collect_output_def removeContainer_def

lemmas wp_simps = wp_bind wp_deferring Let_def

section \<open>The life cycle of the container\<close>

text \<open>
  The protocol of one job towards the runtime, as an automaton over the calls and their
  answers. Reading the clock and the effects on the job are no calls of the runtime.
\<close>

datatype lifecycle =
    Checking                \<comment> \<open>nothing asked yet\<close>
  | Pulling                 \<comment> \<open>the image is not there\<close>
  | Pulled                  \<comment> \<open>the image is there\<close>
  | Created string
  | Running string
  | Exited string           \<comment> \<open>\<^verbatim>\<open>WaitContainer\<close> returned no error\<close>
  | Unknown string          \<comment> \<open>\<^verbatim>\<open>WaitContainer\<close> returned an error\<close>
  | Unstopped string        \<comment> \<open>\<^verbatim>\<open>StopContainer\<close> returned an error\<close>
  | Stopped string          \<comment> \<open>stopped, or told to die\<close>
  | Collected string
  | Over                    \<comment> \<open>removed, or never created\<close>

definition lc_next :: "bool \<Rightarrow> bool \<Rightarrow> lifecycle \<Rightarrow> lifecycle \<Rightarrow> lifecycle option" where
  "lc_next allowed ok good bad = (if \<not> allowed then None else if ok then Some good else Some bad)"

fun lc_call :: "JobRequest \<Rightarrow> lifecycle \<Rightarrow> err_call \<Rightarrow> bool \<Rightarrow> lifecycle option" where
  "lc_call req s (PullImage c img auth) ok =
     lc_next (s = Pulling \<and> img = req_Image req \<and> auth = convert_auth (req_RegistryAuth req)) ok Pulled Over"
| "lc_call req s (StartContainer c cid) ok = lc_next (s = Created cid) ok (Running cid) (Collected cid)"
| "lc_call req s (StopContainer c cid d) ok =
     lc_next (s = Unknown cid \<and> d = gracefulShutdownTimeout) ok (Stopped cid) (Unstopped cid)"
| "lc_call req s (KillContainer c cid sig) ok =
     lc_next (s = Unstopped cid \<and> sig = ''SIGKILL'') ok (Stopped cid) (Stopped cid)"
| "lc_call req s (RemoveContainer c cid) ok = lc_next (s = Collected cid) ok Over Over"

fun lc_step :: "string list \<Rightarrow> Config \<Rightarrow> JobRequest \<Rightarrow> lifecycle \<Rightarrow> event \<Rightarrow> lifecycle option" where
  "lc_step ord cfg req s (EvNow t) = Some s"
| "lc_step ord cfg req s (EvDo e) = Some s"
| "lc_step ord cfg req s (EvCall c err) = lc_call req s c (err = None)"
| "lc_step ord cfg req s (EvExists c img x err) =
     lc_next (s = Checking \<and> img = req_Image req) (err = None) (if x then Pulled else Pulling) Over"
| "lc_step ord cfg req s (EvCreate c ccfg cid err) =
     lc_next (s = Pulled \<and> ccfg = BuildContainerConfig ord req cfg) (err = None) (Created cid) Over"
| "lc_step ord cfg req s (EvWait c cid code err) =
     lc_next (s = Running cid) (err = None) (Exited cid) (Unknown cid)"
| "lc_step ord cfg req s (EvLogs c cid out errs err) =
     lc_next (s \<in> {Exited cid, Unknown cid, Stopped cid}) (err = None) (Collected cid) (Collected cid)"

fun lc_run :: "string list \<Rightarrow> Config \<Rightarrow> JobRequest \<Rightarrow> lifecycle \<Rightarrow> event list \<Rightarrow> lifecycle option" where
  "lc_run ord cfg req s [] = Some s"
| "lc_run ord cfg req s (e # es) =
     (case lc_step ord cfg req s e of None \<Rightarrow> None | Some t \<Rightarrow> lc_run ord cfg req t es)"

lemma lc_run_append:
  "lc_run ord cfg req s (es @ fs) =
     (case lc_run ord cfg req s es of None \<Rightarrow> None | Some t \<Rightarrow> lc_run ord cfg req t fs)"
  by (induction es arbitrary: s) (auto split: option.splits)

lemma wp_lifecycle:
  "wp (executeJob ord cfg ctx job)
     (\<lambda>es oc. lc_run ord cfg (rj_Request job) Checking es = Some Over) []"
  by (simp add: job_defs wp_simps lc_next_def split: option.splits prod.splits)

text \<open>Reading an execution up to any point: nothing the code does can get stuck.\<close>

lemma runs_extend: "\<exists>fs oc. runs p fs = Some (prog_of oc)"
proof (induction p rule: prog_induct)
  case (Return x)
  show ?case by (rule exI [of _ "[]"], rule exI [of _ "Returned x"]) simp
next
  case Panic
  show ?case by (rule exI [of _ "[]"], rule exI [of _ Panicked]) simp
next
  case (Now k)
  then obtain fs oc where "runs (k 0) fs = Some (prog_of oc)" by blast
  then show ?case by (intro exI [of _ "EvNow 0 # fs"] exI [of _ oc]) simp
next
  case (Do e p)
  then obtain fs oc where "runs p fs = Some (prog_of oc)" by blast
  then show ?case by (intro exI [of _ "EvDo e # fs"] exI [of _ oc]) simp
next
  case (Call c k)
  then obtain fs oc where "runs (k None) fs = Some (prog_of oc)" by blast
  then show ?case by (intro exI [of _ "EvCall c None # fs"] exI [of _ oc]) simp
next
  case (ImageExists c img k)
  then obtain fs oc where "runs (k True None) fs = Some (prog_of oc)" by blast
  then show ?case by (intro exI [of _ "EvExists c img True None # fs"] exI [of _ oc]) simp
next
  case (CreateContainer c cfg k)
  then obtain fs oc where "runs (k [] None) fs = Some (prog_of oc)" by blast
  then show ?case by (intro exI [of _ "EvCreate c cfg [] None # fs"] exI [of _ oc]) simp
next
  case (WaitContainer c cid k)
  then obtain fs oc where "runs (k 0 None) fs = Some (prog_of oc)" by blast
  then show ?case by (intro exI [of _ "EvWait c cid 0 None # fs"] exI [of _ oc]) simp
next
  case (GetLogs c cid k)
  then obtain fs oc where "runs (k [] [] None) fs = Some (prog_of oc)" by blast
  then show ?case by (intro exI [of _ "EvLogs c cid [] [] None # fs"] exI [of _ oc]) simp
qed

lemma lc_run_partial:
  assumes "runs (executeJob ord cfg ctx job) es = Some q"
  shows "lc_run ord cfg (rj_Request job) Checking es \<noteq> None"
proof -
  obtain fs oc where "runs q fs = Some (prog_of oc)" using runs_extend by blast
  then have "runs (executeJob ord cfg ctx job) (es @ fs) = Some (prog_of oc)"
    using assms by (simp add: runs_append)
  from runs_ends [OF wp_lifecycle this] show ?thesis
    by (auto simp: lc_run_append split: option.splits)
qed

text \<open>
  The containers an execution has created, those whose removal succeeded, and those whose
  removal failed: the code logs the error of \<^verbatim>\<open>RemoveContainer\<close> and leaves it at that, so these
  may still be there.
\<close>

fun created_in :: "event list \<Rightarrow> string list" where
  "created_in [] = []"
| "created_in (EvCreate c ccfg cid None # es) = cid # created_in es"
| "created_in (_ # es) = created_in es"

fun removed_in :: "event list \<Rightarrow> string list" where
  "removed_in [] = []"
| "removed_in (EvCall (RemoveContainer c cid) None # es) = cid # removed_in es"
| "removed_in (_ # es) = removed_in es"

fun unremoved_in :: "event list \<Rightarrow> string list" where
  "unremoved_in [] = []"
| "unremoved_in (EvCall (RemoveContainer c cid) (Some e) # es) = cid # unremoved_in es"
| "unremoved_in (_ # es) = unremoved_in es"

text \<open>What the life cycle says about the three lists.\<close>

fun lc_lists :: "lifecycle \<Rightarrow> string list \<Rightarrow> string list \<Rightarrow> string list \<Rightarrow> bool" where
  "lc_lists Over cs rs us \<longleftrightarrow> cs = rs @ us \<and> length cs \<le> 1"
| "lc_lists (Created cid) cs rs us \<longleftrightarrow> cs = [cid] \<and> rs = [] \<and> us = []"
| "lc_lists (Running cid) cs rs us \<longleftrightarrow> cs = [cid] \<and> rs = [] \<and> us = []"
| "lc_lists (Exited cid) cs rs us \<longleftrightarrow> cs = [cid] \<and> rs = [] \<and> us = []"
| "lc_lists (Unknown cid) cs rs us \<longleftrightarrow> cs = [cid] \<and> rs = [] \<and> us = []"
| "lc_lists (Unstopped cid) cs rs us \<longleftrightarrow> cs = [cid] \<and> rs = [] \<and> us = []"
| "lc_lists (Stopped cid) cs rs us \<longleftrightarrow> cs = [cid] \<and> rs = [] \<and> us = []"
| "lc_lists (Collected cid) cs rs us \<longleftrightarrow> cs = [cid] \<and> rs = [] \<and> us = []"
| "lc_lists _ cs rs us \<longleftrightarrow> cs = [] \<and> rs = [] \<and> us = []"

lemma lc_step_lists:
  assumes "lc_step ord cfg req s e = Some t" and "lc_lists s cs rs us"
  shows "lc_lists t (cs @ created_in [e]) (rs @ removed_in [e]) (us @ unremoved_in [e])"
  using assms
proof (cases e)
  case (EvCall c err)
  with assms show ?thesis by (cases c; cases err) (auto simp: lc_next_def split: if_splits)
qed (use assms in \<open>auto simp: lc_next_def split: if_splits\<close>)

lemma created_in_Cons: "created_in (e # es) = created_in [e] @ created_in es"
  by (cases "e # es" rule: created_in.cases) auto

lemma removed_in_Cons: "removed_in (e # es) = removed_in [e] @ removed_in es"
  by (cases "e # es" rule: removed_in.cases) auto

lemma unremoved_in_Cons: "unremoved_in (e # es) = unremoved_in [e] @ unremoved_in es"
  by (cases "e # es" rule: unremoved_in.cases) auto

lemma lc_run_lists:
  assumes "lc_run ord cfg req s es = Some t" and "lc_lists s cs rs us"
  shows "lc_lists t (cs @ created_in es) (rs @ removed_in es) (us @ unremoved_in es)"
  using assms
proof (induction es arbitrary: s cs rs us)
  case (Cons e es)
  then obtain u where u: "lc_step ord cfg req s e = Some u" "lc_run ord cfg req u es = Some t"
    by (auto split: option.splits)
  from Cons.IH [OF u(2) lc_step_lists [OF u(1) Cons.prems(2)]]
  show ?case by (simp add: created_in_Cons [of e es] removed_in_Cons [of e es] unremoved_in_Cons [of e es])
qed simp

text \<open>The accounts of an execution, when it has ended and wherever it stands.\<close>

lemma ended_lists:
  assumes "runs (executeJob ord cfg ctx job) es = Some (prog_of oc)"
  shows "created_in es = removed_in es @ unremoved_in es \<and> length (created_in es) \<le> 1"
proof -
  have "lc_lists Over ([] @ created_in es) ([] @ removed_in es) ([] @ unremoved_in es)"
    by (rule lc_run_lists [OF runs_ends [OF wp_lifecycle assms]]) simp
  then show ?thesis unfolding append_Nil lc_lists.simps .
qed

lemma partial_lists:
  assumes "runs (executeJob ord cfg ctx job) es = Some q"
  obtains t where "lc_run ord cfg (rj_Request job) Checking es = Some t"
    "lc_lists t (created_in es) (removed_in es) (unremoved_in es)"
proof -
  obtain t where t: "lc_run ord cfg (rj_Request job) Checking es = Some t"
    using lc_run_partial [OF assms] by blast
  from lc_run_lists [OF this, of "[]" "[]" "[]"] t that show thesis by simp
qed

section \<open>Deadlines\<close>

text \<open>
  The context of every call, given the context \<open>ctx\<close> of the job, the one with the job's
  deadline and the clock reading before the call.
\<close>

fun ctx_as_coded :: "Config \<Rightarrow> Ctx \<Rightarrow> Ctx \<Rightarrow> int \<Rightarrow> event \<Rightarrow> bool" where
  "ctx_as_coded cfg ctx tctx t (EvExists c img x err) \<longleftrightarrow> c = ctx"
| "ctx_as_coded cfg ctx tctx t (EvCall (PullImage c img auth) err) \<longleftrightarrow>
     c = WithTimeout t ctx (cfg_ImagePullTimeout cfg)"
| "ctx_as_coded cfg ctx tctx t (EvCreate c ccfg cid err) \<longleftrightarrow> c = tctx"
| "ctx_as_coded cfg ctx tctx t (EvCall (StartContainer c cid) err) \<longleftrightarrow> c = tctx"
| "ctx_as_coded cfg ctx tctx t (EvWait c cid code err) \<longleftrightarrow> c = tctx"
| "ctx_as_coded cfg ctx tctx t (EvDo (GoStream c cid)) \<longleftrightarrow> c = tctx"
| "ctx_as_coded cfg ctx tctx t (EvCall (StopContainer c cid d) err) \<longleftrightarrow>
     c = WithTimeout t Background (15 * second)"
| "ctx_as_coded cfg ctx tctx t (EvCall (KillContainer c cid sig) err) \<longleftrightarrow>
     c = WithTimeout t Background (5 * second)"
| "ctx_as_coded cfg ctx tctx t (EvLogs c cid out errs err) \<longleftrightarrow>
     c = WithTimeout t Background (10 * second)"
| "ctx_as_coded cfg ctx tctx t (EvCall (RemoveContainer c cid) err) \<longleftrightarrow>
     c = WithTimeout t Background (30 * second)"
| "ctx_as_coded cfg ctx tctx t _ \<longleftrightarrow> True"

fun deadlines_as_coded :: "Config \<Rightarrow> Ctx \<Rightarrow> Ctx \<Rightarrow> int \<Rightarrow> event list \<Rightarrow> bool" where
  "deadlines_as_coded cfg ctx tctx t [] \<longleftrightarrow> True"
| "deadlines_as_coded cfg ctx tctx t (EvNow t' # es) \<longleftrightarrow> deadlines_as_coded cfg ctx tctx t' es"
| "deadlines_as_coded cfg ctx tctx t (e # es) \<longleftrightarrow>
     ctx_as_coded cfg ctx tctx t e \<and> deadlines_as_coded cfg ctx tctx t es"

fun job_deadlines_ok :: "Config \<Rightarrow> JobRequest \<Rightarrow> Ctx \<Rightarrow> event list \<Rightarrow> bool" where
  "job_deadlines_ok cfg req ctx (EvNow start # EvNow t0 # es) \<longleftrightarrow>
     deadlines_as_coded cfg ctx (WithTimeout t0 ctx (EffectiveTimeout req cfg)) t0 es"
| "job_deadlines_ok cfg req ctx _ \<longleftrightarrow> False"

lemma wp_deadlines:
  "wp (executeJob ord cfg ctx job)
     (\<lambda>es oc. job_deadlines_ok cfg (rj_Request job) ctx es) []"
  by (simp add: job_defs wp_simps gracefulShutdownTimeout_def second_def
      split: option.splits prod.splits)

section \<open>The result\<close>

fun effects :: "event list \<Rightarrow> effect list" where
  "effects [] = []"
| "effects (EvDo e # es) = e # effects es"
| "effects (_ # es) = effects es"

fun results :: "effect list \<Rightarrow> ExecutionResult list" where
  "results [] = []"
| "results (SetResult r # es) = r # results es"
| "results (_ # es) = results es"

text \<open>
  The answer of the wait, if it came to one: the exit code, the error, and for an error
  whether the context was done when the code looked at it next.
\<close>

fun waited :: "event list \<Rightarrow> (i64 \<times> go_error option \<times> bool) option" where
  "waited [] = None"
| "waited (EvWait c cid code err # EvNow t # es) = Some (code, err, err \<noteq> None \<and> ctx_err c t)"
| "waited (_ # es) = waited es"

definition classify :: "event list \<Rightarrow> string \<times> i64 option" where
  "classify es =
     (case waited es of
        None \<Rightarrow> (''error'', None)
      | Some (code, None, _) \<Rightarrow> (if code = 0 then ''success'' else ''failed'', Some code)
      | Some (code, Some e, late) \<Rightarrow> if late then (''timeout'', Some code) else (''error'', None))"

definition closing :: "effect list" where
  "closing = [CancelTimeout, CancelJob, CloseBuffer, CloseDone]"

lemma result_fields:
  "res_Status (error_result job msg d) = ''error''" "res_ExitCode (error_result job msg d) = None"
  "res_JobID (error_result job msg d) = rj_ID job" "res_Error (error_result job msg d) = msg"
  "res_Stdout (error_result job msg d) = []" "res_Stderr (error_result job msg d) = []"
  by (simp_all add: error_result_def zero_result_def)

text \<open>
  The error text the answers of the runtime determine: the message of the first call that failed
  behind what the code was doing. A pull that failed after its deadline is reported as timed out,
  a wait that failed after the deadline is no error but a timeout.
\<close>

definition pull_failure :: "Config \<Rightarrow> bool \<Rightarrow> string \<Rightarrow> string" where
  "pull_failure cfg late e = ''image pull failed: '' @
     (if late then ''image pull timed out after '' @ Duration_String (cfg_ImagePullTimeout cfg) else e)"

fun failure :: "Config \<Rightarrow> event list \<Rightarrow> string" where
  "failure cfg [] = []"
| "failure cfg (EvExists c img x (Some e) # es) = ''image pull failed: checking image existence: '' @ e"
| "failure cfg (EvCall (PullImage c img auth) (Some e) # EvNow t # es) = pull_failure cfg (ctx_err c t) e"
| "failure cfg (EvCreate c ccfg cid (Some e) # es) = ''container create failed: '' @ e"
| "failure cfg (EvCall (StartContainer c cid) (Some e) # es) = ''container start failed: '' @ e"
| "failure cfg (EvWait c cid code (Some e) # EvNow t # es) =
     (if ctx_err c t then [] else ''container wait failed: '' @ e)"
| "failure cfg (_ # es) = failure cfg es"

text \<open>The one result of a job agrees with the answers of the runtime.\<close>

definition result_agrees :: "Config \<Rightarrow> RunningJob \<Rightarrow> event list \<Rightarrow> ExecutionResult \<Rightarrow> bool" where
  "result_agrees cfg job es r \<longleftrightarrow>
     res_JobID r = rj_ID job \<and> (res_Status r, res_ExitCode r) = classify es
     \<and> res_Error r = failure cfg es \<and> (res_Error r = [] \<longleftrightarrow> res_Status r \<noteq> ''error'')"

fun one_result :: "Config \<Rightarrow> RunningJob \<Rightarrow> event list \<Rightarrow> unit outcome \<Rightarrow> bool" where
  "one_result cfg job es (Returned _) \<longleftrightarrow> (\<exists>r. results (effects es) = [r] \<and> result_agrees cfg job es r)"
| "one_result cfg job es Panicked \<longleftrightarrow> results (effects es) = []"

lemma wp_result: "wp (executeJob ord cfg ctx job) (one_result cfg job) []"
  by (simp add: job_defs wp_simps result_agrees_def classify_def result_fields final_result_def
      zero_result_def pull_failure_def split: option.splits prod.splits)

section \<open>The order of the effects\<close>

text \<open>
  The result is set before the contexts are cancelled, the buffer is closed after that and
  \<^verbatim>\<open>Done\<close> last. Streaming is started only for a container that has been started.
\<close>

fun effect_order :: "event list \<Rightarrow> unit outcome \<Rightarrow> bool" where
  "effect_order es (Returned _) \<longleftrightarrow>
     (\<exists>r. effects es = SetResult r # closing
          \<or> (\<exists>c cid. effects es = GoStream c cid # SetResult r # closing))"
| "effect_order es Panicked \<longleftrightarrow> (\<exists>c cid. effects es = GoStream c cid # closing)"

lemma wp_effect_order: "wp (executeJob ord cfg ctx job) effect_order []"
  by (simp add: job_defs wp_simps closing_def split: option.splits prod.splits)

section \<open>The output\<close>

fun logs_of :: "event list \<Rightarrow> (string \<times> string) option" where
  "logs_of [] = None"
| "logs_of (EvLogs c cid out errs err # es) = Some (out, errs)"
| "logs_of (_ # es) = logs_of es"

text \<open>
  What the result says about the output: nothing before the logs were collected, and
  afterwards the captured streams with the secrets replaced.
\<close>

definition output_agrees :: "Config \<Rightarrow> JobRequest \<Rightarrow> event list \<Rightarrow> ExecutionResult \<Rightarrow> bool" where
  "output_agrees cfg req es r \<longleftrightarrow>
     (case logs_of es of
        None \<Rightarrow> res_Stdout r = [] \<and> res_Stderr r = [] \<and> \<not> res_StdoutTruncated r \<and> \<not> res_StderrTruncated r
      | Some (out, errs) \<Rightarrow>
          (case CaptureOutput out errs (cfg_MaxOutputBytes cfg) of
             None \<Rightarrow> False
           | Some (o', e', ot, et) \<Rightarrow>
               res_Stdout r = RedactSecrets o' (req_Secrets req) redactionPlaceholder
               \<and> res_Stderr r = RedactSecrets e' (req_Secrets req) redactionPlaceholder
               \<and> res_StdoutTruncated r = ot \<and> res_StderrTruncated r = et))"

fun output_result :: "Config \<Rightarrow> RunningJob \<Rightarrow> event list \<Rightarrow> unit outcome \<Rightarrow> bool" where
  "output_result cfg job es (Returned _) \<longleftrightarrow>
     (\<exists>r. results (effects es) = [r] \<and> output_agrees cfg (rj_Request job) es r)"
| "output_result cfg job es Panicked \<longleftrightarrow>
     (\<exists>out errs. logs_of es = Some (out, errs)
                 \<and> CaptureOutput out errs (cfg_MaxOutputBytes cfg) = None)"

lemma wp_output: "wp (executeJob ord cfg ctx job) (output_result cfg job) []"
  by (simp add: job_defs wp_simps output_agrees_def final_result_def error_result_def zero_result_def
      split: option.splits prod.splits)

text \<open>The logs of a lawful execution are empty if they could not be collected.\<close>

fun logs_error_of :: "event list \<Rightarrow> go_error option" where
  "logs_error_of [] = None"
| "logs_error_of (EvLogs c cid out errs err # es) = err"
| "logs_error_of (_ # es) = logs_error_of es"

lemma lawful_logs_error:
  "list_all lawful es \<Longrightarrow> logs_error_of es = Some e \<Longrightarrow> logs_of es = Some ([], [])"
  by (induction es rule: logs_of.induct) auto

end
