(* ===== verification/Docker_Adapter.thy ===== *)
theory Docker_Adapter
  imports Job_Program
begin

text \<open>
  \<^verbatim>\<open>pkg/runtime/docker.go\<close>, \<^verbatim>\<open>podman.go\<close> and \<^verbatim>\<open>factory.go\<close>: the runtime interface on top of the
  Docker Engine client. The client is a third-party package: the record \<open>DockerClient\<close> holds
  the methods the adapter calls, an argument of every definition, about which nothing is
  assumed. What is modelled is what the adapter passes to them and makes of their answers.
\<close>

section \<open>The client's data\<close>

record DockerContainerConfig =
  dcc_Image :: string
  dcc_Cmd :: "string list"
  dcc_Env :: "string list"
  dcc_User :: string

record DockerMount =
  dm_Type :: string
  dm_Source :: string
  dm_Target :: string
  dm_ReadOnly :: bool

record DockerHostConfig =
  dhc_NanoCPUs :: i64
  dhc_Memory :: i64
  dhc_ReadonlyRootfs :: bool
  dhc_CapDrop :: "string list"
  dhc_NetworkMode :: string
  dhc_Mounts :: "DockerMount list"

text \<open>What arrives first on the two channels of \<^verbatim>\<open>ContainerWait\<close>.\<close>

datatype wait_event =
    WaitResult i64 "string option"  \<comment> \<open>status code, and the message if \<^verbatim>\<open>result.Error\<close> is set\<close>
  | WaitFailed go_error

type_synonym reader = nat

record 'w DockerClient =
  dc_Ping :: "Ctx \<Rightarrow> ('w, go_error option) io"
  dc_ImagePull :: "Ctx \<Rightarrow> string \<Rightarrow> string \<Rightarrow> ('w, reader \<times> go_error option) io"
  dc_Drain :: "reader \<Rightarrow> ('w, go_error option) io"
  dc_ImageInspect :: "Ctx \<Rightarrow> string \<Rightarrow> ('w, go_error option) io"
  dc_IsErrNotFound :: "go_error \<Rightarrow> bool"
  dc_ContainerCreate ::
    "Ctx \<Rightarrow> DockerContainerConfig \<Rightarrow> DockerHostConfig \<Rightarrow> ('w, string \<times> go_error option) io"
  dc_ContainerStart :: "Ctx \<Rightarrow> string \<Rightarrow> ('w, go_error option) io"
  dc_ContainerWait :: "Ctx \<Rightarrow> string \<Rightarrow> ('w, wait_event) io"
  dc_ContainerStop :: "Ctx \<Rightarrow> string \<Rightarrow> i64 \<Rightarrow> ('w, go_error option) io"
  dc_ContainerKill :: "Ctx \<Rightarrow> string \<Rightarrow> string \<Rightarrow> ('w, go_error option) io"
  dc_ContainerLogs :: "Ctx \<Rightarrow> string \<Rightarrow> ('w, reader \<times> go_error option) io"
  dc_StdCopy :: "reader \<Rightarrow> ('w, (string \<times> string) \<times> go_error option) io"
  dc_ContainerRemove :: "Ctx \<Rightarrow> string \<Rightarrow> bool \<Rightarrow> ('w, go_error option) io"
  dc_MarshalAuth :: "string \<Rightarrow> string \<Rightarrow> go_error + string"

section \<open>Base64 (encoding/base64, URL alphabet with padding)\<close>

definition b64_char :: "nat \<Rightarrow> char" where
  "b64_char n =
     (if n < 26 then char_of (65 + n) else if n < 52 then char_of (71 + n)
      else if n < 62 then char_of (n - 4) else if n = 62 then CHR ''-'' else CHR ''_'')"

fun b64_encode :: "string \<Rightarrow> string" where
  "b64_encode [] = []"
| "b64_encode [a] =
     (let x = of_char a :: nat in
      [b64_char (x div 4), b64_char (x mod 4 * 16), CHR ''='', CHR ''=''])"
| "b64_encode [a, b] =
     (let x = of_char a :: nat; y = of_char b in
      [b64_char (x div 4), b64_char (x mod 4 * 16 + y div 16), b64_char (y mod 16 * 4), CHR ''=''])"
| "b64_encode (a # b # c # s) =
     (let x = of_char a :: nat; y = of_char b; z = of_char c in
      [b64_char (x div 4), b64_char (x mod 4 * 16 + y div 16), b64_char (y mod 16 * 4 + z div 64),
       b64_char (z mod 64)] @ b64_encode s)"

lemma b64_example: "b64_encode ''Hello'' = ''SGVsbG8=''"
  by code_simp

section \<open>The adapter\<close>

definition imagePullTimeout :: duration where
  "imagePullTimeout = 120 * second"

definition encodeAuthConfig :: "'w DockerClient \<Rightarrow> RuntimeAuth \<Rightarrow> go_error + string" where
  "encodeAuthConfig d auth =
     (case dc_MarshalAuth d (rauth_Username auth) (rauth_Password auth) of
        Inl e \<Rightarrow> Inl e
      | Inr jsonBytes \<Rightarrow> Inr (b64_encode jsonBytes))"

text \<open>Lines 49 to 60: the encoded credentials, empty without a user name.\<close>

definition pull_auth :: "'w DockerClient \<Rightarrow> RuntimeAuth option \<Rightarrow> go_error + string" where
  "pull_auth d auth =
     (case auth of
        None \<Rightarrow> Inr []
      | Some a \<Rightarrow> if rauth_Username a \<noteq> [] then encodeAuthConfig d a else Inr [])"

definition docker_PullImage ::
  "('w \<Rightarrow> int) \<Rightarrow> 'w DockerClient \<Rightarrow> Ctx \<Rightarrow> string \<Rightarrow> RuntimeAuth option \<Rightarrow> ('w, go_error option) io" where
  "docker_PullImage clock d c img auth w =
     (let pullCtx = WithTimeout (clock w) c imagePullTimeout in
      case pull_auth d auth of
        Inl e \<Rightarrow> (Some (''encoding registry auth: '' @ e), w)
      | Inr encoded \<Rightarrow>
          (case dc_ImagePull d pullCtx img encoded w of
             ((_, Some e), w1) \<Rightarrow> (Some (''pulling image '' @ img @ '': '' @ e), w1)
           | ((rd, None), w1) \<Rightarrow>
               (case dc_Drain d rd w1 of
                  (Some e, w2) \<Rightarrow> (Some (''reading pull response for '' @ img @ '': '' @ e), w2)
                | (None, w2) \<Rightarrow> (None, w2))))"

definition docker_ImageExists ::
  "'w DockerClient \<Rightarrow> Ctx \<Rightarrow> string \<Rightarrow> ('w, bool \<times> go_error option) io" where
  "docker_ImageExists d c img w =
     (case dc_ImageInspect d c img w of
        (Some e, w1) \<Rightarrow> if dc_IsErrNotFound d e then ((False, None), w1) else ((False, Some e), w1)
      | (None, w1) \<Rightarrow> ((True, None), w1))"

text \<open>Lines 89 to 124: the two configuration structures of a container.\<close>

definition docker_container_config :: "ContainerConfig \<Rightarrow> DockerContainerConfig" where
  "docker_container_config config =
     \<lparr>dcc_Image = cc_Image config, dcc_Cmd = cc_Command config,
      dcc_Env = cc_Env config, dcc_User = cc_User config\<rparr>"

definition docker_host_config :: "ContainerConfig \<Rightarrow> DockerHostConfig" where
  "docker_host_config config =
     \<lparr>dhc_NanoCPUs = f64_to_i64 (f64_mult (cc_CPULimit config) f64_1e9),
      dhc_Memory = cc_MemoryLimit config,
      dhc_ReadonlyRootfs = cc_ReadOnlyFS config,
      dhc_CapDrop = cc_CapDrop config,
      dhc_NetworkMode = (if cc_NetworkOff config then ''none'' else []),
      dhc_Mounts = (if length (cc_Mounts config) > 0
                    then map (\<lambda>m. \<lparr>dm_Type = ''bind'', dm_Source = mnt_Source m,
                                    dm_Target = mnt_Target m, dm_ReadOnly = mnt_ReadOnly m\<rparr>)
                           (cc_Mounts config)
                    else [])\<rparr>"

definition docker_CreateContainer ::
  "'w DockerClient \<Rightarrow> Ctx \<Rightarrow> ContainerConfig \<Rightarrow> ('w, string \<times> go_error option) io" where
  "docker_CreateContainer d c config w =
     (case dc_ContainerCreate d c (docker_container_config config) (docker_host_config config) w of
        ((_, Some e), w1) \<Rightarrow> (([], Some (''creating container: '' @ e)), w1)
      | ((rid, None), w1) \<Rightarrow> ((rid, None), w1))"

definition docker_WaitContainer ::
  "'w DockerClient \<Rightarrow> Ctx \<Rightarrow> string \<Rightarrow> ('w, i64 \<times> go_error option) io" where
  "docker_WaitContainer d c cid w =
     (case dc_ContainerWait d c cid w of
        (WaitResult status (Some msg), w1) \<Rightarrow> ((status, Some (''container wait error: '' @ msg)), w1)
      | (WaitResult status None, w1) \<Rightarrow> ((status, None), w1)
      | (WaitFailed e, w1) \<Rightarrow> ((-1, Some e), w1))"

definition docker_StopContainer ::
  "'w DockerClient \<Rightarrow> Ctx \<Rightarrow> string \<Rightarrow> duration \<Rightarrow> ('w, go_error option) io" where
  "docker_StopContainer d c cid timeout w = dc_ContainerStop d c cid (whole_seconds timeout) w"

definition docker_GetLogs ::
  "'w DockerClient \<Rightarrow> Ctx \<Rightarrow> string \<Rightarrow> ('w, (string \<times> string) \<times> go_error option) io" where
  "docker_GetLogs d c cid w =
     (case dc_ContainerLogs d c cid w of
        ((_, Some e), w1) \<Rightarrow> ((([], []), Some (''getting container logs: '' @ e)), w1)
      | ((rd, None), w1) \<Rightarrow>
          (case dc_StdCopy d rd w1 of
             ((_, Some e), w2) \<Rightarrow> ((([], []), Some (''reading container logs: '' @ e)), w2)
           | ((logs, None), w2) \<Rightarrow> ((logs, None), w2)))"

text \<open>The methods that hand the call on.\<close>

definition docker_Ping :: "'w DockerClient \<Rightarrow> Ctx \<Rightarrow> ('w, go_error option) io" where
  "docker_Ping d c = dc_Ping d c"

definition docker_StartContainer ::
  "'w DockerClient \<Rightarrow> Ctx \<Rightarrow> string \<Rightarrow> ('w, go_error option) io" where
  "docker_StartContainer d c cid = dc_ContainerStart d c cid"

definition docker_KillContainer ::
  "'w DockerClient \<Rightarrow> Ctx \<Rightarrow> string \<Rightarrow> string \<Rightarrow> ('w, go_error option) io" where
  "docker_KillContainer d c cid sig = dc_ContainerKill d c cid sig"

definition docker_RemoveContainer ::
  "'w DockerClient \<Rightarrow> Ctx \<Rightarrow> string \<Rightarrow> ('w, go_error option) io" where
  "docker_RemoveContainer d c cid = dc_ContainerRemove d c cid True"

lemmas docker_passed_on [simp] =
  docker_Ping_def docker_StartContainer_def docker_KillContainer_def docker_RemoveContainer_def

text \<open>\<^verbatim>\<open>DockerRuntime\<close> with all its methods.\<close>

definition docker_runtime :: "('w \<Rightarrow> int) \<Rightarrow> 'w DockerClient \<Rightarrow> 'w Runtime" where
  "docker_runtime clock d =
     \<lparr>rt_Ping = docker_Ping d,
      rt_PullImage = docker_PullImage clock d,
      rt_ImageExists = docker_ImageExists d,
      rt_CreateContainer = docker_CreateContainer d,
      rt_StartContainer = docker_StartContainer d,
      rt_WaitContainer = docker_WaitContainer d,
      rt_StopContainer = docker_StopContainer d,
      rt_KillContainer = docker_KillContainer d,
      rt_GetLogs = docker_GetLogs d,
      rt_RemoveContainer = docker_RemoveContainer d\<rparr>"

text \<open>
  Constructing a client for a socket may fail; \<open>connect\<close> is the client package's
  constructor, on the host URL of line 31.
\<close>

definition NewDockerRuntime ::
  "('w \<Rightarrow> int) \<Rightarrow> (string \<Rightarrow> go_error + 'w DockerClient) \<Rightarrow> string \<Rightarrow> go_error + 'w Runtime" where
  "NewDockerRuntime clock connect socketPath =
     (case connect (''unix://'' @ socketPath) of
        Inl e \<Rightarrow> Inl e
      | Inr cli \<Rightarrow> Inr (docker_runtime clock cli))"

definition DefaultPodmanSocket :: string where
  "DefaultPodmanSocket = ''/run/podman/podman.sock''"

text \<open>\<^verbatim>\<open>PodmanRuntime\<close> embeds a \<^verbatim>\<open>DockerRuntime\<close> on Podman's socket and adds no method.\<close>

definition NewPodmanRuntime ::
  "('w \<Rightarrow> int) \<Rightarrow> (string \<Rightarrow> go_error + 'w DockerClient) \<Rightarrow> string \<Rightarrow> go_error + 'w Runtime" where
  "NewPodmanRuntime clock connect socketPath =
     NewDockerRuntime clock connect (if socketPath = [] then DefaultPodmanSocket else socketPath)"

definition New ::
  "unicode \<Rightarrow> ('w \<Rightarrow> int) \<Rightarrow> (string \<Rightarrow> go_error + 'w DockerClient) \<Rightarrow> Config \<Rightarrow> go_error + 'w Runtime" where
  "New uc clock connect cfg =
     (if cfg_Runtime cfg = ''docker'' then NewDockerRuntime clock connect (cfg_RuntimeSocket cfg)
      else if cfg_Runtime cfg = ''podman'' then NewPodmanRuntime clock connect (cfg_RuntimeSocket cfg)
      else Inl (''unsupported runtime: '' @ quote uc (cfg_Runtime cfg)))"

section \<open>The adapter keeps the interface's contract\<close>

interpretation docker_rt: container_runtime "docker_runtime clock d" for clock d
  by unfold_locales
    (auto simp: docker_runtime_def docker_CreateContainer_def docker_ImageExists_def docker_GetLogs_def
      split: prod.splits option.splits if_splits)

end
