(* ===== verification/Job_Properties.thy ===== *)
theory Job_Properties
  imports Executor_Proofs Docker_Adapter
begin

text \<open>
  The properties of \<^verbatim>\<open>executeJob\<close>, over all executions: \<open>runs p es = Some (prog_of oc)\<close> says
  that \<open>es\<close> is one of the event sequences of \<open>p\<close> from its start to its end \<open>oc\<close>, with any
  answers of the runtime and any readings of the clock in it.
\<close>

unbundle bit_operations_syntax

section \<open>Sample executions\<close>

definition sample_job :: RunningJob where
  "sample_job = \<lparr>rj_ID = ''id'', rj_Request = sample_request, rj_Result = None,
     rj_LogBuffer = NewLogBuffer, rj_Cancelled = False, rj_Done = False\<rparr>"

definition sample_ctx :: Ctx where
  "sample_ctx = WithTimeout 0 Background (30 * second)"

definition after_second :: "int \<Rightarrow> duration \<Rightarrow> Ctx" where
  "after_second s d = WithTimeout (s * 1000000000) Background d"

text \<open>A job that prints a line and ends with exit code 0.\<close>

definition good_run :: "event list" where
  "good_run =
     [EvNow 0, EvNow 0, EvExists Background ''alpine'' True None,
      EvCreate sample_ctx (BuildContainerConfig [] sample_request sample_config) ''c1'' None,
      EvCall (StartContainer sample_ctx ''c1'') None, EvNow 1000000000,
      EvDo (GoStream sample_ctx ''c1''), EvWait sample_ctx ''c1'' 0 None, EvNow 2000000000,
      EvNow 2000000000, EvLogs (after_second 2 (10 * second)) ''c1'' ''hi'' [] None,
      EvDo (SetResult (zero_result\<lparr>res_JobID := ''id'', res_Status := ''success'',
        res_ExitCode := Some 0, res_Stdout := ''hi'', res_DurationMs := 1000\<rparr>)),
      EvNow 2000000000, EvCall (RemoveContainer (after_second 2 (30 * second)) ''c1'') None,
      EvDo CancelTimeout, EvDo CancelJob, EvDo CloseBuffer, EvDo CloseDone]"

text \<open>A job that runs out of time, whose container cannot be stopped and is killed.\<close>

definition late_run :: "event list" where
  "late_run =
     [EvNow 0, EvNow 0, EvExists Background ''alpine'' False None, EvNow 0,
      EvCall (PullImage (after_second 0 (120 * second)) ''alpine'' None) None,
      EvCreate sample_ctx (BuildContainerConfig [] sample_request sample_config) ''c1'' None,
      EvCall (StartContainer sample_ctx ''c1'') None, EvNow 1000000000,
      EvDo (GoStream sample_ctx ''c1''), EvWait sample_ctx ''c1'' (-1) (Some ''deadline''),
      EvNow 30000000000, EvNow 30000000000,
      EvCall (StopContainer (after_second 30 (15 * second)) ''c1'' gracefulShutdownTimeout) (Some ''no''),
      EvNow 31000000000,
      EvCall (KillContainer (after_second 31 (5 * second)) ''c1'' ''SIGKILL'') None,
      EvNow 32000000000, EvNow 32000000000,
      EvLogs (after_second 32 (10 * second)) ''c1'' [] [] None,
      EvDo (SetResult (zero_result\<lparr>res_JobID := ''id'', res_Status := ''timeout'',
        res_ExitCode := Some (-1), res_DurationMs := 31000\<rparr>)),
      EvNow 32000000000, EvCall (RemoveContainer (after_second 32 (30 * second)) ''c1'') None,
      EvDo CancelTimeout, EvDo CancelJob, EvDo CloseBuffer, EvDo CloseDone]"

lemmas run_exec = job_defs Let_def gracefulShutdownTimeout_def sample_job_def sample_request_def
  sample_config_def sample_ctx_def after_second_def second_def EffectiveTimeout_def CaptureOutput_def
  truncateTail_def RedactSecrets_def final_result_def zero_result_def convert_auth_def
  Milliseconds_def time_since_def sat_i64_def go_quot_def millisecond_def fits_i64_def
  ctx_err_def WithTimeout_def Background_def i64_le_iff

lemma good_run: "runs (executeJob [] sample_config Background sample_job) good_run = Some (prog_of (Returned ()))"
  by (simp add: good_run_def run_exec)

lemma late_run: "runs (executeJob [] sample_config Background sample_job) late_run = Some (prog_of (Returned ()))"
  by (simp add: late_run_def run_exec)

section \<open>The container and its calls\<close>

text \<open>
  C1: every execution follows the life cycle of a container: the image is looked up and pulled
  only when it is absent, the container is created from the request's configuration, started,
  waited for, stopped with ten seconds of grace only after a failed wait, killed only after
  a failed stop, its logs are collected once, and its removal is called for in the end, in panicking
  executions too; nothing is called for it after that.
\<close>

theorem job_lifecycle:
  assumes "runs (executeJob ord cfg ctx job) es = Some (prog_of oc)"
  shows "lc_run ord cfg (rj_Request job) Checking es = Some Over"
  using assms by (rule runs_ends [OF wp_lifecycle])

theorem job_lifecycle_witness: "lc_run [] sample_config sample_request Checking late_run = Some Over"
  using job_lifecycle [OF late_run] by (simp add: sample_job_def)

text \<open>
  C7: what becomes of the containers. When the goroutine ends, by a return or by a panic, it has
  created at most one, and each one it created was either removed or is one whose removal the
  runtime answered with an error, which the code only logs; so an execution whose removal
  succeeds leaks nothing. Before its end it has asked for the removal of none that it did not
  create.
\<close>

theorem job_cleanup:
  "(runs (executeJob ord cfg ctx job) es = Some (prog_of oc) \<longrightarrow>
      created_in es = removed_in es @ unremoved_in es \<and> length (created_in es) \<le> 1)
   \<and> (runs (executeJob ord cfg ctx job) es = Some q \<longrightarrow> prefix (removed_in es @ unremoved_in es) (created_in es))"
proof (intro conjI impI)
  assume "runs (executeJob ord cfg ctx job) es = Some (prog_of oc)"
  from ended_lists [OF this] show "created_in es = removed_in es @ unremoved_in es" "length (created_in es) \<le> 1"
    by blast+
next
  assume "runs (executeJob ord cfg ctx job) es = Some q"
  then obtain t where "lc_lists t (created_in es) (removed_in es) (unremoved_in es)" by (rule partial_lists)
  then show "prefix (removed_in es @ unremoved_in es) (created_in es)" by (cases t) auto
qed

text \<open>The sample execution with a removal that fails.\<close>

definition leaky_run :: "event list" where
  "leaky_run = map (\<lambda>ev. case ev of
     EvCall (RemoveContainer c cid) err \<Rightarrow> EvCall (RemoveContainer c cid) (Some ''busy'') | _ \<Rightarrow> ev) good_run"

lemma leaky_run: "runs (executeJob [] sample_config Background sample_job) leaky_run = Some (prog_of (Returned ()))"
  by (simp add: leaky_run_def good_run_def run_exec)

theorem job_cleanup_witness:
  "(created_in late_run = [''c1''] \<and> removed_in late_run = [''c1''] \<and> unremoved_in late_run = [])
   \<and> (created_in leaky_run = [''c1''] \<and> removed_in leaky_run = [] \<and> unremoved_in leaky_run = [''c1''])"
  using conjunct1 [OF job_cleanup [of "[]" sample_config Background sample_job late_run "Returned ()"]]
    conjunct1 [OF job_cleanup [of "[]" sample_config Background sample_job leaky_run "Returned ()"]]
    late_run leaky_run
  by (simp add: late_run_def leaky_run_def good_run_def)

text \<open>
  C16: the container is created, started and waited for under one context, whose deadline is the
  effective timeout after the job began, so the time of the pull counts; the pull runs under
  its own timeout below the job's context; stop, kill, log collection and removal each get a
  fresh deadline (15, 5, 10 and 30 seconds) that neither the job's timeout nor its
  cancellation cuts short.
\<close>

theorem job_deadlines:
  assumes "runs (executeJob ord cfg ctx job) es = Some (prog_of oc)"
  shows "job_deadlines_ok cfg (rj_Request job) ctx es"
  using assms by (rule runs_ends [OF wp_deadlines])

theorem job_deadlines_witness: "job_deadlines_ok sample_config sample_request Background late_run"
  using job_deadlines [OF late_run] by (simp add: sample_job_def)

section \<open>The result\<close>


text \<open>A pull that fails after its timeout.\<close>

definition pull_late_run :: "event list" where
  "pull_late_run =
     [EvNow 0, EvNow 0, EvExists Background ''alpine'' False None, EvNow 0,
      EvCall (PullImage (after_second 0 (120 * second)) ''alpine'' None) (Some ''deadline''), EvNow 121000000000,
      EvNow 121000000000,
      EvDo (SetResult (zero_result\<lparr>res_JobID := ''id'', res_Status := ''error'',
        res_Error := ''image pull failed: image pull timed out after '' @ Duration_String (120 * second),
        res_DurationMs := 121000\<rparr>)),
      EvDo CancelTimeout, EvDo CancelJob, EvDo CloseBuffer, EvDo CloseDone]"

lemma pull_late_run:
  "runs (executeJob [] sample_config Background sample_job) pull_late_run = Some (prog_of (Returned ()))"
  by (simp add: pull_late_run_def error_result_def run_exec)


text \<open>
  C21: the result is set before anything is closed; then the job's contexts are cancelled, the log
  buffer is closed, and \<^verbatim>\<open>Done\<close> is closed last, after a panic too. Between the last two, a
  log subscriber can see the end of the stream while the job still counts as running.
\<close>

theorem job_effect_order:
  assumes "runs (executeJob ord cfg ctx job) es = Some (prog_of oc)"
  shows "\<exists>pre. effects es = pre @ [CancelTimeout, CancelJob, CloseBuffer, CloseDone]
           \<and> (oc = Panicked \<longleftrightarrow> results pre = [])
           \<and> (\<forall>e \<in> set pre. (\<exists>r. e = SetResult r) \<or> (\<exists>c cid. e = GoStream c cid))"
  using runs_ends [OF wp_effect_order assms]
  by (cases oc) (auto simp: closing_def)

theorem job_effect_order_witness:
  "\<exists>pre. effects good_run = pre @ [CancelTimeout, CancelJob, CloseBuffer, CloseDone] \<and> results pre \<noteq> []"
  using job_effect_order [OF good_run] by auto

text \<open>
  C19: no secret value comes back in the output of a result, whatever the container printed and
  wherever the output was cut, for values that are no piece of the placeholder and contain no
  asterisk. (A piece of a value that the truncation cut is not the value.)
\<close>

theorem job_output_redacted:
  assumes "runs (executeJob ord cfg ctx job) es = Some (Return ())"
    and "s \<in> set (req_Secrets (rj_Request job))" and "sec_Value s \<noteq> []"
    and "CHR ''*'' \<notin> set (sec_Value s)" and "\<not> sublist (sec_Value s) redactionPlaceholder"
  shows "\<exists>r. results (effects es) = [r]
           \<and> \<not> sublist (sec_Value s) (res_Stdout r) \<and> \<not> sublist (sec_Value s) (res_Stderr r)"
proof -
  have "runs (executeJob ord cfg ctx job) es = Some (prog_of (Returned ()))" using assms(1) by simp
  from runs_ends [OF wp_output this]
  obtain r where r: "results (effects es) = [r]" "output_agrees cfg (rj_Request job) es r" by auto
  have red: "\<not> sublist (sec_Value s) (RedactSecrets x (req_Secrets (rj_Request job)) redactionPlaceholder)" for x
    using redact_loop_removes [OF no_overlap_redactionPlaceholder [OF assms(3-5)],
        of "sortSecretsByValueLength (req_Secrets (rj_Request job))" x] assms(2,3)
    by (auto simp: RedactSecrets_def set_sortSecrets)
  from r(2) assms(3) red have "\<not> sublist (sec_Value s) (res_Stdout r) \<and> \<not> sublist (sec_Value s) (res_Stderr r)"
    by (auto simp: output_agrees_def split: option.splits prod.splits)
  with r(1) show ?thesis by blast
qed

text \<open>The sample job with a secret, which its container prints.\<close>

definition secret_job :: RunningJob where
  "secret_job = sample_job\<lparr>rj_Request := sample_request
     \<lparr>req_Secrets := [\<lparr>sec_Name = ''PW'', sec_Value = ''pw'', sec_FilePath = None\<rparr>]\<rparr>\<rparr>"

definition secret_run :: "event list" where
  "secret_run =
     [EvNow 0, EvNow 0, EvExists Background ''alpine'' True None,
      EvCreate sample_ctx (BuildContainerConfig [] (rj_Request secret_job) sample_config) ''c1'' None,
      EvCall (StartContainer sample_ctx ''c1'') None, EvNow 1000000000,
      EvDo (GoStream sample_ctx ''c1''), EvWait sample_ctx ''c1'' 1 None, EvNow 2000000000,
      EvNow 2000000000, EvLogs (after_second 2 (10 * second)) ''c1'' ''pw'' [] None,
      EvDo (SetResult (zero_result\<lparr>res_JobID := ''id'', res_Status := ''failed'',
        res_ExitCode := Some 1, res_Stdout := redactionPlaceholder, res_DurationMs := 1000\<rparr>)),
      EvNow 2000000000, EvCall (RemoveContainer (after_second 2 (30 * second)) ''c1'') None,
      EvDo CancelTimeout, EvDo CancelJob, EvDo CloseBuffer, EvDo CloseDone]"

lemma secret_run: "runs (executeJob [] sample_config Background secret_job) secret_run = Some (Return ())"
proof -
  have "RedactSecrets ''pw'' [\<lparr>sec_Name = ''PW'', sec_Value = ''pw'', sec_FilePath = None\<rparr>]
          redactionPlaceholder = redactionPlaceholder"
    by code_simp
  moreover have "RedactSecrets [] [\<lparr>sec_Name = ''PW'', sec_Value = ''pw'', sec_FilePath = None\<rparr>]
          redactionPlaceholder = []"
    by code_simp
  ultimately show ?thesis
    by (simp add: secret_run_def secret_job_def run_exec del: RedactSecrets_def)
qed

theorem job_output_redacted_witness:
  "\<exists>r. results (effects secret_run) = [r] \<and> \<not> sublist ''pw'' (res_Stdout r)"
  using job_output_redacted
    [OF secret_run, of "\<lparr>sec_Name = ''PW'', sec_Value = ''pw'', sec_FilePath = None\<rparr>"]
  by (auto simp: secret_job_def redactionPlaceholder_def sublist_Cons_right)

text \<open>
  C37: the executor truncates before it redacts, in every execution. When the output limit cuts
  through a secret value, so that the kept tail begins with a proper piece of it, and no whole
  secret value is left in the tail, the result carries the tail as it is: the piece of the
  secret reaches the client in clear, on either stream, wherever the cut falls and whatever the
  other secrets are. (Redaction before truncation would have replaced the value.)
\<close>

theorem truncation_reveals_secret:
  assumes "runs (executeJob ord cfg ctx job) es = Some (Return ())" and "logs_of es = Some (out, errs)"
    and "length out < 2 ^ 63" and "length errs < 2 ^ 63"
    and "s \<in> set (req_Secrets (rj_Request job))" and "sec_Value s = lost @ shown" and "shown \<noteq> []"
    and "sint (cfg_MaxOutputBytes cfg) = int (length (shown @ rest))"
    and "\<forall>t \<in> set (req_Secrets (rj_Request job)). sec_Value t \<noteq> [] \<longrightarrow> \<not> sublist (sec_Value t) (shown @ rest)"
  shows "\<exists>r. results (effects es) = [r]
    \<and> (out = front @ lost @ shown @ rest \<longrightarrow> res_Stdout r = shown @ rest \<and> res_StdoutTruncated r)
    \<and> (errs = front @ lost @ shown @ rest \<longrightarrow> res_Stderr r = shown @ rest \<and> res_StderrTruncated r)"
proof -
  let ?n = "length (shown @ rest)"
  have "runs (executeJob ord cfg ctx job) es = Some (prog_of (Returned ()))" using assms(1) by simp
  from runs_ends [OF wp_output this]
  obtain r where r: "results (effects es) = [r]" "output_agrees cfg (rj_Request job) es r" by auto
  have "lost \<noteq> []"
  proof
    assume "lost = []"
    then have "sublist (sec_Value s) (shown @ rest)" using assms(6) by (auto simp: sublist_def intro: exI [of _ "[]"])
    with assms(5-7,9) show False by auto
  qed
  then have tail: "tail_of (front @ lost @ shown @ rest) ?n = shown @ rest" "?n < length (front @ lost @ shown @ rest)"
    by (simp_all add: tail_of_def)
  have keep: "RedactSecrets (shown @ rest) (req_Secrets (rj_Request job)) redactionPlaceholder = shown @ rest"
    using assms(9) by (rule RedactSecrets_unchanged)
  have "nat (sint (cfg_MaxOutputBytes cfg)) = ?n" "0 \<le> sint (cfg_MaxOutputBytes cfg)" using assms(8) by simp_all
  then have "CaptureOutput out errs (cfg_MaxOutputBytes cfg) =
      Some (tail_of out ?n, tail_of errs ?n, ?n < length out, ?n < length errs)"
    using assms(3,4) by (simp add: CaptureOutput_def truncateTail_nonneg)
  then have "res_Stdout r = RedactSecrets (tail_of out ?n) (req_Secrets (rj_Request job)) redactionPlaceholder"
    "res_Stderr r = RedactSecrets (tail_of errs ?n) (req_Secrets (rj_Request job)) redactionPlaceholder"
    "res_StdoutTruncated r = (?n < length out)" "res_StderrTruncated r = (?n < length errs)"
    using r(2) assms(2) by (simp_all add: output_agrees_def)
  with r(1) tail keep show ?thesis by (metis (no_types))
qed

text \<open>The job with a secret under a limit of two bytes.\<close>

definition cut_config :: Config where
  "cut_config = sample_config\<lparr>cfg_MaxOutputBytes := 2\<rparr>"

definition cut_run :: "event list" where
  "cut_run =
     [EvNow 0, EvNow 0, EvExists Background ''alpine'' True None,
      EvCreate sample_ctx (BuildContainerConfig [] (rj_Request secret_job) cut_config) ''c1'' None,
      EvCall (StartContainer sample_ctx ''c1'') None, EvNow 1000000000,
      EvDo (GoStream sample_ctx ''c1''), EvWait sample_ctx ''c1'' 0 None, EvNow 2000000000,
      EvNow 2000000000, EvLogs (after_second 2 (10 * second)) ''c1'' ''key pw!'' [] None,
      EvDo (SetResult (zero_result\<lparr>res_JobID := ''id'', res_Status := ''success'',
        res_ExitCode := Some 0, res_Stdout := ''w!'', res_StdoutTruncated := True, res_DurationMs := 1000\<rparr>)),
      EvNow 2000000000, EvCall (RemoveContainer (after_second 2 (30 * second)) ''c1'') None,
      EvDo CancelTimeout, EvDo CancelJob, EvDo CloseBuffer, EvDo CloseDone]"

lemma cut_run: "runs (executeJob [] cut_config Background secret_job) cut_run = Some (Return ())"
proof -
  have "RedactSecrets ''w!'' [\<lparr>sec_Name = ''PW'', sec_Value = ''pw'', sec_FilePath = None\<rparr>]
          redactionPlaceholder = ''w!''" by code_simp
  moreover have "RedactSecrets [] [\<lparr>sec_Name = ''PW'', sec_Value = ''pw'', sec_FilePath = None\<rparr>]
          redactionPlaceholder = []" by code_simp
  moreover have "CaptureOutput ''key pw!'' [] 2 = Some (''w!'', [], True, False)"
    by (simp add: CaptureOutput_def truncateTail_nonneg tail_of_def)
  ultimately show ?thesis
    by (simp add: cut_run_def cut_config_def secret_job_def run_exec
        del: RedactSecrets_def CaptureOutput_def truncateTail_def)
qed

theorem truncation_reveals_secret_witness:
  "\<exists>r. results (effects cut_run) = [r] \<and> res_Stdout r = ''w!'' \<and> res_StdoutTruncated r"
  using truncation_reveals_secret [OF cut_run, of "''key pw!''" "[]"
      "\<lparr>sec_Name = ''PW'', sec_Value = ''pw'', sec_FilePath = None\<rparr>" "''p''" "''w''" "''!''" "''key ''"]
  by (simp add: cut_run_def cut_config_def secret_job_def sublist_Cons_right)

section \<open>Panics and error texts\<close>

lemma CaptureOutput_None_iff:
  assumes "length out < 2 ^ 63" and "length errs < 2 ^ 63"
  shows "CaptureOutput out errs m = None \<longleftrightarrow> sint m < 0"
  using assms by (cases "sint m < 0") (auto simp: CaptureOutput_def truncateTail_neg truncateTail_nonneg)

text \<open>
  C23: the goroutine panics, which ends the process, exactly when the output limit is negative
  and the container ran far enough for its logs to be collected; its container is removed and
  \<^verbatim>\<open>Done\<close> is closed even then, but no result is left.
\<close>

theorem job_panics_iff:
  assumes "runs (executeJob ord cfg ctx job) es = Some (prog_of oc)"
    and "\<And>out errs. logs_of es = Some (out, errs) \<Longrightarrow> length out < 2 ^ 63 \<and> length errs < 2 ^ 63"
  shows "oc = Panicked \<longleftrightarrow> sint (cfg_MaxOutputBytes cfg) < 0 \<and> logs_of es \<noteq> None"
proof (cases oc)
  case Panicked
  with runs_ends [OF wp_output assms(1)] obtain out errs where
    "logs_of es = Some (out, errs)" "CaptureOutput out errs (cfg_MaxOutputBytes cfg) = None" by auto
  with assms(2) Panicked show ?thesis by (auto simp: CaptureOutput_None_iff)
next
  case (Returned u)
  with runs_ends [OF wp_output assms(1)] obtain r where "output_agrees cfg (rj_Request job) es r" by auto
  then have "logs_of es = Some (out, errs) \<Longrightarrow> CaptureOutput out errs (cfg_MaxOutputBytes cfg) \<noteq> None" for out errs
    by (auto simp: output_agrees_def split: option.splits)
  then have "logs_of es = Some (out, errs) \<Longrightarrow> \<not> sint (cfg_MaxOutputBytes cfg) < 0" for out errs
    using assms(2) CaptureOutput_None_iff by blast
  with Returned show ?thesis by (cases "logs_of es") auto
qed

text \<open>An execution under a negative limit.\<close>

definition negative_config :: Config where
  "negative_config = sample_config\<lparr>cfg_MaxOutputBytes := -1\<rparr>"

definition panic_run :: "event list" where
  "panic_run =
     [EvNow 0, EvNow 0, EvExists Background ''alpine'' True None,
      EvCreate sample_ctx (BuildContainerConfig [] sample_request negative_config) ''c1'' None,
      EvCall (StartContainer sample_ctx ''c1'') None, EvNow 1000000000,
      EvDo (GoStream sample_ctx ''c1''), EvWait sample_ctx ''c1'' 0 None, EvNow 2000000000,
      EvNow 2000000000, EvLogs (after_second 2 (10 * second)) ''c1'' ''hi'' [] None,
      EvNow 2000000000, EvCall (RemoveContainer (after_second 2 (30 * second)) ''c1'') None,
      EvDo CancelTimeout, EvDo CancelJob, EvDo CloseBuffer, EvDo CloseDone]"

lemma panic_run:
  "runs (executeJob [] negative_config Background sample_job) panic_run = Some (prog_of Panicked)"
proof -
  have "CaptureOutput ''hi'' [] (-1) = None" by (subst CaptureOutput_None_iff) simp_all
  then show ?thesis
    by (simp add: panic_run_def negative_config_def run_exec del: CaptureOutput_def truncateTail_def)
qed

theorem job_panics_iff_witness: "logs_of panic_run \<noteq> None \<and> sint (cfg_MaxOutputBytes negative_config) < 0"
  using job_panics_iff [OF panic_run] by (simp add: panic_run_def)

lemma wp_create_failed:
  "wp (executeJob ord cfg ctx job)
     (\<lambda>es oc. \<forall>c ccfg cid e. EvCreate c ccfg cid (Some e) \<in> set es \<longrightarrow>
        oc = Returned () \<and> created_in es = []
        \<and> (\<exists>r. results (effects es) = [r] \<and> res_Error r = ''container create failed: '' @ e)) []"
  by (simp add: job_defs wp_simps result_fields split: option.splits prod.splits)

text \<open>
  The error text of a result is the runtime's message word for word; unlike the output it is
  not redacted, so a secret value the runtime quotes in its message reaches the client.
\<close>

theorem job_error_not_redacted:
  assumes "runs (executeJob ord cfg ctx job) es = Some (prog_of oc)"
    and "EvCreate c ccfg cid (Some e) \<in> set es"
  shows "\<exists>r. results (effects es) = [r] \<and> res_Error r = ''container create failed: '' @ e"
  using runs_ends [OF wp_create_failed assms(1)] assms(2) by blast

definition create_failed_run :: "event list" where
  "create_failed_run =
     [EvNow 0, EvNow 0, EvExists Background ''alpine'' True None,
      EvCreate sample_ctx (BuildContainerConfig [] (rj_Request secret_job) sample_config) []
        (Some ''bad env PW=pw''),
      EvNow 1000000000,
      EvDo (SetResult (zero_result\<lparr>res_JobID := ''id'', res_Status := ''error'',
        res_Error := ''container create failed: bad env PW=pw'', res_DurationMs := 1000\<rparr>)),
      EvDo CancelTimeout, EvDo CancelJob, EvDo CloseBuffer, EvDo CloseDone]"

lemma create_failed_run:
  "runs (executeJob [] sample_config Background secret_job) create_failed_run = Some (prog_of (Returned ()))"
  by (simp add: create_failed_run_def secret_job_def run_exec error_result_def)

theorem job_error_not_redacted_witness:
  "\<exists>r. results (effects create_failed_run) = [r] \<and> res_Error r = ''container create failed: bad env PW=pw''"
  using job_error_not_redacted
    [OF create_failed_run, of sample_ctx "BuildContainerConfig [] (rj_Request secret_job) sample_config"
      "[]" "''bad env PW=pw''"]
  by (auto simp: create_failed_run_def)

section \<open>On the Docker runtime\<close>

lemma RedactSecrets_Nil: "RedactSecrets [] secrets P = []"
  by (simp add: RedactSecrets_def redact_loop_id)

lemma CaptureOutput_Nil: "0 \<le> sint m \<Longrightarrow> CaptureOutput [] [] m = Some ([], [], False, False)"
  by (simp add: CaptureOutput_def truncateTail_def i64_le_iff)

text \<open>
  On the Docker or Podman runtime, whatever the engine does, a job whose logs cannot be
  collected still ends with its status and an empty output that is not marked as truncated;
  the failure itself is not visible in the result.
\<close>

theorem docker_job_without_logs:
  assumes "run clock (docker_runtime clock d) (executeJob ord cfg ctx job) w = (es, oc, w')"
    and "logs_error_of es = Some e" and "0 \<le> sint (cfg_MaxOutputBytes cfg)"
  shows "oc = Returned () \<and> (\<exists>r. results (effects es) = [r] \<and> (res_Status r, res_ExitCode r) = classify es
           \<and> res_Stdout r = [] \<and> res_Stderr r = [] \<and> \<not> res_StdoutTruncated r \<and> \<not> res_StderrTruncated r)"
proof -
  have logs: "logs_of es = Some ([], [])"
    by (rule lawful_logs_error [OF docker_rt.run_lawful [OF assms(1)] assms(2)])
  note ends = run_ends [OF wp_output assms(1)] run_ends [OF wp_result assms(1)]
  with logs assms(3) have "oc = Returned ()" by (cases oc) (auto simp: CaptureOutput_Nil)
  with ends logs assms(3) show ?thesis
    by (auto simp: output_agrees_def result_agrees_def CaptureOutput_Nil RedactSecrets_Nil)
qed

text \<open>An engine without a clock on which everything works but the logs.\<close>

definition no_logs_client :: "unit DockerClient" where
  "no_logs_client =
     \<lparr>dc_Ping = \<lambda>c w. (None, w), dc_ImagePull = \<lambda>c img auth w. ((0, None), w),
      dc_Drain = \<lambda>rd w. (None, w), dc_ImageInspect = \<lambda>c img w. (None, w),
      dc_IsErrNotFound = \<lambda>e. False, dc_ContainerCreate = \<lambda>c cc hc w. ((''c1'', None), w),
      dc_ContainerStart = \<lambda>c cid w. (None, w),
      dc_ContainerWait = \<lambda>c cid w. (WaitResult 0 None, w),
      dc_ContainerStop = \<lambda>c cid n w. (None, w), dc_ContainerKill = \<lambda>c cid sig w. (None, w),
      dc_ContainerLogs = \<lambda>c cid w. ((0, Some ''gone''), w),
      dc_StdCopy = \<lambda>rd w. ((([], []), None), w),
      dc_ContainerRemove = \<lambda>c cid force w. (None, w), dc_MarshalAuth = \<lambda>u p. Inr []\<rparr>"

lemma no_logs_run:
  "run (\<lambda>_. 0) (docker_runtime (\<lambda>_. 0) no_logs_client)
     (executeJob [] sample_config Background sample_job) () = (es, oc, w') \<Longrightarrow>
   logs_error_of es = Some ''getting container logs: gone''"
  by (simp add: no_logs_client_def docker_runtime_def docker_ImageExists_def docker_CreateContainer_def
      docker_WaitContainer_def docker_GetLogs_def run_exec logged_def)
    (auto split: if_splits)

theorem docker_job_without_logs_witness:
  "\<exists>es w' r. run (\<lambda>_. 0) (docker_runtime (\<lambda>_. 0) no_logs_client)
     (executeJob [] sample_config Background sample_job) () = (es, Returned (), w')
     \<and> results (effects es) = [r] \<and> res_Stdout r = []"
proof -
  obtain es oc w' where r: "run (\<lambda>_. 0) (docker_runtime (\<lambda>_. 0) no_logs_client)
     (executeJob [] sample_config Background sample_job) () = (es, oc, w')"
    by (metis prod_cases3)
  have "0 \<le> sint (cfg_MaxOutputBytes sample_config)" by (simp add: sample_config_def)
  from docker_job_without_logs [OF r no_logs_run [OF r] this] r show ?thesis by blast
qed

section \<open>Job identifiers\<close>

lemma length_hex_Encode [simp]: "length (hex_Encode bs) = 2 * length bs"
  by (induction bs) (simp_all add: hex_Encode_def hex_byte_def)

lemma hex_Encode_Cons: "hex_Encode (b # bs) = hex_char (unat b div 16) # hex_char (unat b mod 16) # hex_Encode bs"
  by (simp add: hex_Encode_def hex_byte_def)

lemma hex_Encode_Nil: "hex_Encode [] = []"
  by (simp add: hex_Encode_def)

definition lower_hex :: "char set" where
  "lower_hex = set ''0123456789abcdef''"

lemma hex_char_lower: "n < 16 \<Longrightarrow> hex_char n \<in> lower_hex"
proof -
  assume "n < 16"
  then have "n \<in> set [0..<16]" by simp
  moreover have "\<forall>n \<in> set [0..<16]. hex_char n \<in> lower_hex" by code_simp
  ultimately show ?thesis by blast
qed

lemma byte_bound: "unat (b :: byte) < 256"
  using unsigned_less [of b] by simp

lemma unat_high: "unat (w :: byte) div 16 = unat (drop_bit 4 w)"
  by (simp only: unat_drop_bit_eq) (simp add: drop_bit_eq_div)

lemma version_digit: "unat (((b :: byte) AND 0x0f) OR 0x40) div 16 = 4"
  by (simp add: unat_high drop_bit_or drop_bit_and del: unat_div)

lemma variant_digit: "unat (((b :: byte) AND 0x3f) OR 0x80) div 16 \<in> {8, 9, 10, 11}"
proof -
  have "drop_bit 4 ((b AND 0x3f) OR 0x80) = (drop_bit 4 b AND mask 2) OR (8 :: byte)"
    by (simp add: drop_bit_or drop_bit_and mask_eq_exp_minus_1)
  then have "unat ((b AND 0x3f) OR 0x80) div 16 = unat (take_bit 2 (drop_bit 4 b) OR (8 :: byte))"
    by (simp only: unat_high take_bit_eq_mask)
  also have "\<dots> = take_bit 2 (unat (drop_bit 4 b)) OR 8"
    by (simp only: unsigned_or_eq unsigned_take_bit_eq unat_numeral) (simp)
  finally have eq: "unat ((b AND 0x3f) OR 0x80) div 16 = take_bit 2 (unat (drop_bit 4 b)) OR 8" .
  have "take_bit 2 (unat (drop_bit 4 b)) < 4" using take_bit_nat_less_exp [of 2] by simp
  then have "take_bit 2 (unat (drop_bit 4 b)) \<in> {0, 1, 2, 3}" by auto
  then show ?thesis unfolding eq by auto
qed

definition uuid_v4 :: "string \<Rightarrow> bool" where
  "uuid_v4 s \<longleftrightarrow> length s = 36
     \<and> list_all (\<lambda>i. if i \<in> {8, 13, 18, 23} then s ! i = CHR ''-'' else s ! i \<in> lower_hex) [0..<36]
     \<and> s ! 14 = CHR ''4'' \<and> s ! 19 \<in> set ''89ab''"

text \<open>
  C36: whatever the sixteen random bytes are, the job identifier has the form of a version 4 UUID:
  groups of 8, 4, 4, 4 and 12 lower-case hexadecimal digits between hyphens, the version
  digit 4 and a variant digit 8, 9, a or b.
\<close>

theorem generateJobID_uuid:
  assumes "length rnd = 16"
  shows "uuid_v4 (generateJobID rnd)"
proof -
  obtain a b c d e f g h i j k l m n p q where
    rnd: "rnd = [a, b, c, d, e, f, g, h, i, j, k, l, m, n, p, q]"
    using assms by (auto simp: length_Suc_conv numeral_eq_Suc)
  have lh [simp]: "hex_char (unat x div 16) \<in> lower_hex" "hex_char (unat x mod 16) \<in> lower_hex" for x :: byte
    using byte_bound [of x] by (auto intro: hex_char_lower)
  have v: "hex_char (unat ((i AND 0x3f) OR 0x80) div 16) \<in> set ''89ab''"
  proof -
    have "\<forall>k \<in> {8, 9, 10, 11}. hex_char k \<in> set ''89ab''" by code_simp
    with variant_digit [of i] show ?thesis by blast
  qed
  have "hex_char (unat ((g AND 0x0f) OR 0x40) div 16) = CHR ''4''"
    by (simp only: version_digit) code_simp
  moreover have "CHR ''4'' \<in> lower_hex" by (simp add: lower_hex_def)
  ultimately show ?thesis using v
    by (simp add: rnd uuid_v4_def generateJobID_def slice_def hex_Encode_Cons hex_Encode_Nil
        upt_conv_Cons del: unat_div unat_mod)
qed

theorem generateJobID_uuid_witness: "uuid_v4 (generateJobID (replicate 16 0xff))"
  by (rule generateJobID_uuid) simp

section \<open>The length of an execution\<close>

lemma wp_bounded: "wp (executeJob ord cfg ctx job) (\<lambda>es oc. length es \<le> 25) []"
  by (simp add: job_defs wp_simps split: option.splits prod.splits)

text \<open>
  No execution has more than 25 calls, clock readings and effects; a job whose image is pulled
  and whose container has to be killed has that many.
\<close>

lemma executeJob_bounded:
  assumes "runs (executeJob ord cfg ctx job) es = Some q"
  shows "length es \<le> 25"
proof -
  obtain fs oc where "runs q fs = Some (prog_of oc)" using runs_extend by blast
  then have "runs (executeJob ord cfg ctx job) (es @ fs) = Some (prog_of oc)"
    using assms by (simp add: runs_append)
  from runs_ends [OF wp_bounded this] show ?thesis by simp
qed

lemma late_run_length: "length late_run = 25"
  by (simp add: late_run_def)

end
