(* ===== verification/Docker_Proofs.thy ===== *)
theory Docker_Proofs
  imports Docker_Adapter Executor
begin

text \<open>
  What reaches the container engine: the sandbox settings and limits of every container, the
  deadline and the credentials of a pull, and the choice between Docker and Podman.
\<close>

section \<open>The CPU limit in nanoseconds of CPU time\<close>

text \<open>
  Scaling a limit \<open>m * 2 ^ (- s)\<close> between 0.1 and 4.0 by the exact constant \<open>1e9\<close>, rounding
  the product to 53 bits and truncating it keeps it between the scaled bounds: both are
  multiples of the unit in the last place.
\<close>

lemma div_between:
  fixes a :: int
  assumes "lo * 2 ^ n \<le> a" and "a \<le> hi * 2 ^ n"
  shows "lo \<le> a div 2 ^ n \<and> a div 2 ^ n \<le> hi"
proof
  show "lo \<le> a div 2 ^ n" using zdiv_mono1 [OF assms(1), of "2 ^ n"] by simp
  show "a div 2 ^ n \<le> hi" using zdiv_mono1 [OF assms(2), of "2 ^ n"] by simp
qed

lemma rounded_between:
  fixes p :: int
  assumes "lo * 2 ^ j * 2 ^ k \<le> p" and "p \<le> hi * 2 ^ j * 2 ^ k"
  shows "lo * 2 ^ j \<le> p div 2 ^ k"
    and "p mod 2 ^ k \<noteq> 0 \<Longrightarrow> p div 2 ^ k + 1 \<le> hi * 2 ^ j"
    and "p div 2 ^ k \<le> hi * 2 ^ j"
proof -
  show "lo * 2 ^ j \<le> p div 2 ^ k" "p div 2 ^ k \<le> hi * 2 ^ j"
    using div_between [OF assms] by simp_all
  assume "p mod 2 ^ k \<noteq> 0"
  moreover have "0 \<le> p mod 2 ^ k" by (rule pos_mod_sign) simp
  ultimately have "0 < p mod 2 ^ k" by linarith
  then have "p div 2 ^ k * 2 ^ k < p" by (metis add.commute div_mult_mod_eq less_add_same_cancel1 add.right_neutral)
  also note assms(2)
  finally have "p div 2 ^ k < hi * 2 ^ j" by (rule mult_right_less_imp_less) simp
  then show "p div 2 ^ k + 1 \<le> hi * 2 ^ j" by linarith
qed

lemma round_to_i64:
  fixes p :: int
  assumes lo: "0 < lo" "lo * 2 ^ s \<le> p" and hi: "p \<le> hi * 2 ^ s" "hi < 2 ^ 52"
  shows "lo \<le> sint (f64_to_i64 (f64_round p (- int s))) \<and> sint (f64_to_i64 (f64_round p (- int s))) \<le> hi"
proof -
  let ?k = "nat (bitlen p - 53)"
  have "0 < lo * 2 ^ s" using lo(1) by simp
  with lo(2) have p: "0 < p" by linarith
  have fits: "lo \<le> x \<Longrightarrow> x \<le> hi \<Longrightarrow> sint (word_of_int x :: i64) = x" for x
    using lo(1) hi(2) by (intro sint_word_of_int_fits) (simp add: fits_i64_def)
  show ?thesis
  proof (cases "?k = 0")
    case True
    have "f64_to_i64 (f64_round p (- int s)) = word_of_int (p div 2 ^ s)"
      using True p by (cases "s = 0") (simp_all add: f64_round_def)
    with div_between [OF lo(2) hi(1)] show ?thesis by (simp add: fits)
  next
    case False
    have "2 ^ nat (bitlen p - 1) \<le> p" using bitlen_bounds [OF p] by simp
    moreover have "nat (bitlen p - 1) = 52 + ?k" using False by simp
    ultimately have "(2 :: int) ^ (52 + ?k) \<le> hi * 2 ^ s" using hi(1) by simp
    also have "\<dots> < 2 ^ (52 + s)" using hi(2) by (simp add: power_add)
    finally have "?k < s" by (metis add_less_cancel_left one_less_numeral_iff power_less_imp_less_exp semiring_norm(76))
    define j where "j = s - ?k"
    then have s: "s = j + ?k" "0 < j" using \<open>?k < s\<close> by simp_all
    have b: "lo * 2 ^ j * 2 ^ ?k \<le> p" "p \<le> hi * 2 ^ j * 2 ^ ?k"
      using lo(2) hi(1) by (simp_all add: s(1) power_add mult.assoc)
    define q where "q = (if 2 * (p mod 2 ^ ?k) > 2 ^ ?k \<or> (2 * (p mod 2 ^ ?k) = 2 ^ ?k \<and> odd (p div 2 ^ ?k))
      then p div 2 ^ ?k + 1 else p div 2 ^ ?k)"
    have "2 * (p mod 2 ^ ?k) > 2 ^ ?k \<or> 2 * (p mod 2 ^ ?k) = 2 ^ ?k \<Longrightarrow> p mod 2 ^ ?k \<noteq> 0"
      by (metis less_irrefl mult_zero_right zero_less_numeral zero_less_power not_less_iff_gr_or_eq)
    then have q: "lo * 2 ^ j \<le> q" "q \<le> hi * 2 ^ j"
      using rounded_between [OF b] by (auto simp: q_def)
    have "0 < lo * 2 ^ j" using lo(1) by simp
    with q(1) have "0 < q" by linarith
    have "f64_round p (- int s) = F64 q (- int j)"
      using p False s by (simp add: f64_round_def q_def Let_def)
    then have "f64_to_i64 (f64_round p (- int s)) = word_of_int (q div 2 ^ j)"
      using \<open>0 < q\<close> s(2) by simp
    with div_between [OF q] show ?thesis by (simp add: fits)
  qed
qed

lemma f64_limits_scaled:
  assumes "\<not> f64_less (F64 m e) f64_0_1" and "\<not> f64_less f64_4_0 (F64 m e)" and "e < 0"
  shows "2 ^ nat (- e) \<le> 10 * m" and "m \<le> 4 * 2 ^ nat (- e)"
proof -
  have m4: "m * 2 ^ nat (e - min 0 e) \<le> 4 * 2 ^ nat (0 - min 0 e)"
    using assms(2) by (simp add: f64_4_0_def not_less)
  then show "m \<le> 4 * 2 ^ nat (- e)" using assms(3) by (simp add: min_def)
  have m0: "3602879701896397 * 2 ^ nat (- 55 - min e (- 55)) \<le> m * 2 ^ nat (e - min e (- 55))"
    using assms(1) by (simp add: f64_0_1_def not_less)
  show "2 ^ nat (- e) \<le> 10 * m"
  proof (cases "e \<le> - 55")
    case True
    then have "nat (- e) = 55 + nat (- 55 - e)" by simp
    then have "(2 :: int) ^ nat (- e) = 36028797018963968 * 2 ^ nat (- 55 - e)" by (simp add: power_add)
    also have "\<dots> \<le> 10 * (3602879701896397 * 2 ^ nat (- 55 - e))" by simp
    also have "\<dots> \<le> 10 * m" using m0 True by (simp add: min_def)
    finally show ?thesis .
  next
    case False
    then have le: "3602879701896397 \<le> m * 2 ^ nat (e + 55)" using m0 by (simp add: min_def)
    have "55 = nat (- e) + nat (e + 55)" using False assms(3) by simp
    then have "(2 :: int) ^ nat (- e) * 2 ^ nat (e + 55) = 2 ^ 55" by (metis power_add)
    also have "\<dots> \<le> 10 * m * 2 ^ nat (e + 55)" using le by simp
    finally show ?thesis by (rule mult_right_le_imp_le) simp
  qed
qed

lemma nano_cpus_between:
  assumes "\<not> f64_less x f64_0_1" and "\<not> f64_less f64_4_0 x"
  shows "100000000 \<le> sint (f64_to_i64 (f64_mult x f64_1e9)) \<and> sint (f64_to_i64 (f64_mult x f64_1e9)) \<le> 4000000000"
proof (cases x)
  case (F64 m e)
  show ?thesis
  proof (cases "e < 0")
    case True
    note b = f64_limits_scaled [OF assms [unfolded F64] True]
    have "100000000 * 2 ^ nat (- e) \<le> m * 1000000000" "m * 1000000000 \<le> 4000000000 * 2 ^ nat (- e)"
      using b by simp_all
    from round_to_i64 [OF _ this] show ?thesis using True by (simp add: F64 f64_1e9_def)
  next
    case False
    have m4: "m * 2 ^ nat e \<le> 4" using assms(2) False by (simp add: F64 f64_4_0_def not_less)
    have "0 < m"
    proof (rule ccontr)
      assume "\<not> 0 < m"
      then have "m * 2 ^ nat (e - min e (- 55)) \<le> 0" by (simp add: mult_nonpos_nonneg)
      moreover have "0 < (3602879701896397 :: int) * 2 ^ nat (- 55 - min e (- 55))" by simp
      moreover have "3602879701896397 * 2 ^ nat (- 55 - min e (- 55)) \<le> m * 2 ^ nat (e - min e (- 55))"
        using assms(1) by (simp only: F64 f64_0_1_def f64_less.simps not_less)
      ultimately show False by linarith
    qed
    then have "m * 1 \<le> m * 2 ^ nat e" by (intro mult_left_mono) simp_all
    with \<open>0 < m\<close> m4 have m: "0 < m * 2 ^ nat e" "m * 2 ^ nat e \<le> 4" "m \<le> 4" by linarith+
    have "bitlen (m * 1000000000) \<le> 53"
      using m(3) \<open>0 < m\<close> bitlen_le_iff_power [of "m * 1000000000" 53] by simp
    then have "f64_mult x f64_1e9 = F64 (m * 1000000000) e"
      using \<open>0 < m\<close> by (simp add: F64 f64_1e9_def f64_round_def)
    then have "f64_to_i64 (f64_mult x f64_1e9) = word_of_int (m * 2 ^ nat e * 1000000000)"
      using False by (simp add: mult.assoc mult.commute)
    moreover have "sint (word_of_int (m * 2 ^ nat e * 1000000000) :: i64) = m * 2 ^ nat e * 1000000000"
      using m by (intro sint_word_of_int_fits) (simp add: fits_i64_def)
    ultimately show ?thesis using m by simp
  qed
qed

section \<open>The sandbox as the engine sees it\<close>

text \<open>
  C10: for every request that passed validation, whatever else it asks for, the engine is asked for
  a container with a read-only root file system, all capabilities dropped, user 1000:1000, no
  network unless the request enables it, read-only bind mounts only, between 0.1 and 4 CPUs
  (in nanoseconds of CPU time per second, after the float64 arithmetic) and between 16 MB and
  8 GB of memory, so no limit arrives as 0, which the engine would read as unlimited.
\<close>

theorem engine_sandbox:
  assumes "memory_ok req" and "cpu_ok req"
  shows "let cc = BuildContainerConfig ord req cfg; hc = docker_host_config cc in
     dhc_ReadonlyRootfs hc \<and> dhc_CapDrop hc = [''ALL''] \<and> dcc_User (docker_container_config cc) = ''1000:1000''
     \<and> dhc_NetworkMode hc = (if req_NetworkAccess req then '''' else ''none'')
     \<and> list_all (\<lambda>m. dm_Type m = ''bind'' \<and> dm_ReadOnly m) (dhc_Mounts hc)
     \<and> 100000000 \<le> sint (dhc_NanoCPUs hc) \<and> sint (dhc_NanoCPUs hc) \<le> 4000000000
     \<and> 16 * 1048576 \<le> sint (dhc_Memory hc) \<and> sint (dhc_Memory hc) \<le> 8192 * 1048576"
proof -
  let ?cc = "BuildContainerConfig ord req cfg"
  note limits = container_limits [OF assms, of ord cfg]
  have "list_all (\<lambda>m. dm_Type m = ''bind'' \<and> dm_ReadOnly m) (dhc_Mounts (docker_host_config ?cc))"
    by (auto simp: docker_host_config_def cc_Mounts_eq list_all_iff)
  moreover have "cc_ReadOnlyFS ?cc" "cc_CapDrop ?cc = [''ALL'']" "cc_User ?cc = ''1000:1000''"
    "cc_NetworkOff ?cc = (\<not> req_NetworkAccess req)"
    by (simp_all add: BuildContainerConfig_def defaultUser_def split: prod.splits)
  ultimately show ?thesis
    using limits nano_cpus_between [of "cc_CPULimit ?cc"]
    by (simp add: docker_host_config_def docker_container_config_def)
qed

theorem engine_sandbox_witness:
  "dhc_NetworkMode (docker_host_config (BuildContainerConfig [] sample_request sample_config)) = ''none''
   \<and> 100000000 \<le> sint (dhc_NanoCPUs (docker_host_config (BuildContainerConfig [] sample_request sample_config)))"
  using engine_sandbox [of sample_request "[]" sample_config]
  by (simp add: memory_ok_def cpu_ok_def sample_request_def Let_def)

section \<open>Pulling an image\<close>

text \<open>
  C30: no pull runs longer than 120 seconds. Whatever deadline the caller's context carries, the
  adapter hands the engine a context whose deadline is at most 120 seconds after the call
  and no later than the caller's, so a longer \<^verbatim>\<open>IMAGE_PULL_TIMEOUT\<close> has no effect: two engines
  that agree on such contexts cannot be told apart.
\<close>

theorem pull_at_most_120s:
  assumes "\<And>c' t w'. ctx_deadline c' = Some t \<Longrightarrow> t \<le> clock w + 120000000000
      \<Longrightarrow> (\<And>u. ctx_deadline c = Some u \<Longrightarrow> t \<le> u) \<Longrightarrow> pull c' w' = dc_ImagePull d c' w'"
  shows "docker_PullImage clock (d\<lparr>dc_ImagePull := pull\<rparr>) c img auth w = docker_PullImage clock d c img auth w"
proof -
  let ?c = "WithTimeout (clock w) c imagePullTimeout"
  have "sint imagePullTimeout = 120000000000"
    by (simp add: imagePullTimeout_def second_def)
  then have "pull ?c = dc_ImagePull d ?c"
    by (intro ext assms [where t = "the (ctx_deadline ?c)"])
      (auto simp: WithTimeout_def split: option.splits)
  moreover have "pull_auth (d\<lparr>dc_ImagePull := pull\<rparr>) auth = pull_auth d auth"
    by (simp add: pull_auth_def encodeAuthConfig_def split: option.splits)
  ultimately show ?thesis
    by (simp add: docker_PullImage_def Let_def split: sum.splits prod.splits option.splits)
qed

text \<open>An engine on which everything works at once, and whose clock stands still.\<close>

definition quick_client :: "unit DockerClient" where
  "quick_client =
     \<lparr>dc_Ping = \<lambda>c w. (None, w), dc_ImagePull = \<lambda>c img auth w. ((0, None), w),
      dc_Drain = \<lambda>rd w. (None, w), dc_ImageInspect = \<lambda>c img w. (None, w),
      dc_IsErrNotFound = \<lambda>e. False, dc_ContainerCreate = \<lambda>c cc hc w. ((''c1'', None), w),
      dc_ContainerStart = \<lambda>c cid w. (None, w),
      dc_ContainerWait = \<lambda>c cid w. (WaitResult 0 None, w),
      dc_ContainerStop = \<lambda>c cid n w. (if n = 10 then Some ''busy'' else None, w),
      dc_ContainerKill = \<lambda>c cid sig w. (None, w),
      dc_ContainerLogs = \<lambda>c cid w. ((0, None), w), dc_StdCopy = \<lambda>rd w. (((''hi'', []), None), w),
      dc_ContainerRemove = \<lambda>c cid force w. (None, w), dc_MarshalAuth = \<lambda>u p. Inr []\<rparr>"

text \<open>An engine that refuses to pull for longer than two minutes behaves like it.\<close>

definition strict_pull :: "Ctx \<Rightarrow> string \<Rightarrow> string \<Rightarrow> (unit, reader \<times> go_error option) io" where
  "strict_pull c img auth w =
     (case ctx_deadline c of
        None \<Rightarrow> ((0, Some ''too long''), w)
      | Some t \<Rightarrow> ((0, if t \<le> 120000000000 then None else Some ''too long''), w))"

theorem pull_at_most_120s_witness:
  "docker_PullImage (\<lambda>_. 0) (quick_client\<lparr>dc_ImagePull := strict_pull\<rparr>)
       (WithTimeout 0 Background (600 * second)) ''alpine'' None ()
     = docker_PullImage (\<lambda>_. 0) quick_client (WithTimeout 0 Background (600 * second)) ''alpine'' None ()"
  by (rule pull_at_most_120s) (auto simp: strict_pull_def quick_client_def fun_eq_iff)

section \<open>Choosing the runtime\<close>

lemma loaded_runtime:
  assumes "Load uc env = Inr cfg"
  shows "cfg_RuntimeSocket cfg \<noteq> []
    \<and> New uc clock connect cfg = (case connect (''unix://'' @ cfg_RuntimeSocket cfg) of
         Inl e \<Rightarrow> Inl e | Inr cli \<Rightarrow> Inr (docker_runtime clock cli))"
  using assms
  by (auto simp: Load_def New_def NewDockerRuntime_def NewPodmanRuntime_def docker_socket_def
      podman_socket_def Let_def split: if_splits)

text \<open>
  A configuration that \<open>Load\<close> accepts always selects a runtime: \<open>New\<close> connects to the socket
  of the configuration, which is never empty, and fails only when the client cannot be
  constructed.
\<close>

theorem New_after_Load:
  assumes "Load uc env = Inr cfg"
  shows "cfg_RuntimeSocket cfg \<noteq> []
    \<and> New uc clock connect cfg = (case connect (''unix://'' @ cfg_RuntimeSocket cfg) of
         Inl e \<Rightarrow> Inl e | Inr cli \<Rightarrow> Inr (docker_runtime clock cli))"
  using assms by (rule loaded_runtime)

theorem New_after_Load_witness:
  "New plain_unicode (\<lambda>_. 0) (\<lambda>url. if url = ''unix:///var/run/docker.sock'' then Inr quick_client else Inl ''no'')
     sample_config = Inr (docker_runtime (\<lambda>_. 0) quick_client)"
  using New_after_Load [OF Load_empty_environment, of plain_unicode "\<lambda>_. 0"
      "\<lambda>url. if url = ''unix:///var/run/docker.sock'' then Inr quick_client else Inl ''no''"]
  by (simp add: sample_config_def docker_socket_def)

section \<open>Stopping a container\<close>

text \<open>
  On the Docker runtime the timeout handler asks the engine to stop the container with ten
  seconds of grace, and sends it SIGKILL exactly when that call fails; it returns in every
  case.
\<close>

theorem handleTimeout_on_docker:
  "run clock (docker_runtime clock d) (handleTimeout cid) w =
     (let c1 = WithTimeout (clock w) Background (15 * second) in
      case dc_ContainerStop d c1 cid 10 w of
        (None, w1) \<Rightarrow>
          ([EvNow (clock w), EvCall (StopContainer c1 cid gracefulShutdownTimeout) None], Returned (), w1)
      | (Some e, w1) \<Rightarrow>
          (let c2 = WithTimeout (clock w1) Background (5 * second) in
           case dc_ContainerKill d c2 cid ''SIGKILL'' w1 of
             (err, w2) \<Rightarrow>
               ([EvNow (clock w), EvCall (StopContainer c1 cid gracefulShutdownTimeout) (Some e),
                 EvNow (clock w1), EvCall (KillContainer c2 cid ''SIGKILL'') err], Returned (), w2)))"
proof -
  have secs: "whole_seconds (10 * second) = 10"
    by (simp add: whole_seconds_def go_quot_def second_def)
  obtain err w1 where
    "dc_ContainerStop d (WithTimeout (clock w) Background (15 * second)) cid 10 w = (err, w1)"
    by (metis surj_pair)
  moreover obtain err2 w2 where
    "dc_ContainerKill d (WithTimeout (clock w1) Background (5 * second)) cid ''SIGKILL'' w1 = (err2, w2)"
    by (metis surj_pair)
  ultimately show ?thesis
    by (cases err) (simp_all add: handleTimeout_def docker_runtime_def docker_StopContainer_def
        gracefulShutdownTimeout_def secs logged_def)
qed

end
