(* ===== verification/Worker.thy ===== *)
theory Worker
  imports Executor
begin

text \<open>
  The part of \<^verbatim>\<open>pkg/executor/executor.go\<close> that several goroutines share: the executor with its
  current job. Jobs are objects on a heap, the pointer \<^verbatim>\<open>e.current\<close> is an address. The
  functions the HTTP handlers call hold the mutex while they read or write the pointer, so
  each of them is one step; the goroutines a job has started run beside them, one call or one
  effect at a time.
\<close>

section \<open>The state\<close>

text \<open>A goroutine: the rest of its program, and the events it has behind it.\<close>

record thread =
  th_prog :: "unit prog"
  th_events :: "event list"

definition spawn :: "unit prog \<Rightarrow> thread" where
  "spawn p = \<lparr>th_prog = p, th_events = []\<rparr>"

text \<open>
  The goroutine of the job at address \<open>i\<close> is \<open>ex_threads ! i\<close>; the streaming goroutines come
  with the address of the job whose buffer they write.
\<close>

record Executor =
  ex_config :: Config
  ex_jobs :: "RunningJob list"
  ex_threads :: "thread list"
  ex_streams :: "(nat \<times> thread) list"
  ex_current :: "nat option"
  ex_crashed :: bool

definition NewExecutor :: "Config \<Rightarrow> Executor" where
  "NewExecutor cfg = \<lparr>ex_config = cfg, ex_jobs = [], ex_threads = [], ex_streams = [],
     ex_current = None, ex_crashed = False\<rparr>"

section \<open>What the handlers call\<close>

definition current_job :: "Executor \<Rightarrow> RunningJob option" where
  "current_job e = map_option (\<lambda>i. ex_jobs e ! i) (ex_current e)"

definition IsReady :: "Executor \<Rightarrow> bool" where
  "IsReady e = (case current_job e of None \<Rightarrow> True | Some job \<Rightarrow> rj_Done job)"

definition CurrentJobID :: "Executor \<Rightarrow> string" where
  "CurrentJobID e = (case current_job e of None \<Rightarrow> [] | Some job \<Rightarrow> rj_ID job)"

text \<open>
  \<open>Submit\<close> gets the order in which the builder will visit the environment and the random
  bytes of the identifier. The busy message is read from the same state here; in the code
  the mutex is free again when line 62 reads the pointer.
\<close>

definition new_job :: "byte list \<Rightarrow> JobRequest \<Rightarrow> RunningJob" where
  "new_job rnd req =
     \<lparr>rj_ID = generateJobID rnd, rj_Request = req, rj_Result = None,
      rj_LogBuffer = NewLogBuffer, rj_Cancelled = False, rj_Done = False\<rparr>"

definition launch :: "string list \<Rightarrow> RunningJob \<Rightarrow> Executor \<Rightarrow> Executor" where
  "launch order job e =
     e\<lparr>ex_jobs := ex_jobs e @ [job],
       ex_threads := ex_threads e @ [spawn (executeJob order (ex_config e) Background job)],
       ex_current := Some (length (ex_jobs e))\<rparr>"

definition Submit ::
  "string list \<Rightarrow> byte list \<Rightarrow> JobRequest \<Rightarrow> Executor \<Rightarrow> (go_error + string) \<times> Executor" where
  "Submit order rnd req e =
     (if \<not> IsReady e
      then (Inl (''worker busy: job '' @ CurrentJobID e @ '' is currently executing''), e)
      else (let job = new_job rnd req in (Inr (rj_ID job), launch order job e)))"

definition GetResult :: "string \<Rightarrow> Executor \<Rightarrow> ExecutionResult option \<times> bool" where
  "GetResult jid e =
     (case current_job e of
        None \<Rightarrow> (None, False)
      | Some job \<Rightarrow>
          if rj_ID job \<noteq> jid then (None, False)
          else if rj_Done job then (rj_Result job, rj_Result job \<noteq> None)
          else (None, False))"

text \<open>
  \<open>StreamLogs\<close>: the address of the job whose buffer the caller is subscribed to, \<open>None\<close> for a
  nil channel. The subscriber itself is in \<open>Log_Buffer\<close>.
\<close>

definition StreamLogs :: "string \<Rightarrow> Executor \<Rightarrow> nat option" where
  "StreamLogs jid e =
     (case ex_current e of
        None \<Rightarrow> None
      | Some i \<Rightarrow> if rj_ID (ex_jobs e ! i) \<noteq> jid then None else Some i)"

section \<open>The goroutines\<close>

text \<open>An effect on the job, at the time \<open>now\<close>.\<close>

fun apply_effect :: "int \<Rightarrow> effect \<Rightarrow> RunningJob \<Rightarrow> RunningJob" where
  "apply_effect now (SetResult r) job = job\<lparr>rj_Result := Some r\<rparr>"
| "apply_effect now CancelJob job = job\<lparr>rj_Cancelled := True\<rparr>"
| "apply_effect now CloseBuffer job = job\<lparr>rj_LogBuffer := buf_Close (rj_LogBuffer job)\<rparr>"
| "apply_effect now CloseDone job = job\<lparr>rj_Done := True\<rparr>"
| "apply_effect now (WriteBuffer stream data) job =
     job\<lparr>rj_LogBuffer := buf_Write \<lparr>ll_Timestamp = now, ll_Stream = stream, ll_Data = data\<rparr>
                          (rj_LogBuffer job)\<rparr>"
| "apply_effect now _ job = job"

fun apply_event :: "int \<Rightarrow> event \<Rightarrow> RunningJob \<Rightarrow> RunningJob" where
  "apply_event now (EvDo e) job = apply_effect now e job"
| "apply_event now _ job = job"

fun spawned :: "nat \<Rightarrow> event \<Rightarrow> (nat \<times> thread) list" where
  "spawned i (EvDo (GoStream c cid)) = [(i, spawn (streamContainerLogs c cid))]"
| "spawned i _ = []"

definition advance :: "unit prog \<Rightarrow> event \<Rightarrow> thread \<Rightarrow> thread" where
  "advance p ev t = t\<lparr>th_prog := p, th_events := th_events t @ [ev]\<rparr>"

definition job_event :: "int \<Rightarrow> nat \<Rightarrow> event \<Rightarrow> unit prog \<Rightarrow> Executor \<Rightarrow> Executor" where
  "job_event now i ev p e =
     e\<lparr>ex_jobs := (ex_jobs e)[i := apply_event now ev (ex_jobs e ! i)],
       ex_threads := (ex_threads e)[i := advance p ev (ex_threads e ! i)],
       ex_streams := ex_streams e @ spawned i ev\<rparr>"

definition stream_event :: "int \<Rightarrow> nat \<Rightarrow> event \<Rightarrow> unit prog \<Rightarrow> Executor \<Rightarrow> Executor" where
  "stream_event now k ev p e =
     (case ex_streams e ! k of
        (i, t) \<Rightarrow> e\<lparr>ex_jobs := (ex_jobs e)[i := apply_event now ev (ex_jobs e ! i)],
                     ex_streams := (ex_streams e)[k := (i, advance p ev t)]\<rparr>)"

text \<open>
  A panic that no goroutine recovers ends the process: nothing steps any more. The handlers'
  calls that only read the state are no steps.
\<close>

inductive ex_step :: "Executor \<Rightarrow> Executor \<Rightarrow> bool" where
  submit: "\<not> ex_crashed e \<Longrightarrow> length rnd = 16 \<Longrightarrow> ex_step e (snd (Submit order rnd req e))"
| job: "\<not> ex_crashed e \<Longrightarrow> i < length (ex_threads e) \<Longrightarrow> after (th_prog (ex_threads e ! i)) ev = Some p \<Longrightarrow>
    ex_step e (job_event now i ev p e)"
| stream: "\<not> ex_crashed e \<Longrightarrow> k < length (ex_streams e) \<Longrightarrow>
    after (th_prog (snd (ex_streams e ! k))) ev = Some p \<Longrightarrow>
    ex_step e (stream_event now k ev p e)"
| panic: "\<not> ex_crashed e \<Longrightarrow> i < length (ex_threads e) \<Longrightarrow> th_prog (ex_threads e ! i) = Panic \<Longrightarrow>
    ex_step e (e\<lparr>ex_crashed := True\<rparr>)"

definition ex_start :: "Executor \<Rightarrow> bool" where
  "ex_start e \<longleftrightarrow> (\<exists>cfg. e = NewExecutor cfg)"

abbreviation ex_reach :: "Executor \<Rightarrow> bool" where
  "ex_reach \<equiv> reach ex_start ex_step"

section \<open>The contract the callers rely on\<close>

text \<open>
  A slot for one job, as the HTTP handlers see it: it accepts a job exactly when it is ready,
  it is busy from then on, and a result is there only for the job it names as current.
\<close>

locale job_slot =
  fixes ready :: "'s \<Rightarrow> bool"
    and put :: "JobRequest \<Rightarrow> 's \<Rightarrow> (go_error + string) \<times> 's"
    and get :: "string \<Rightarrow> 's \<Rightarrow> ExecutionResult option \<times> bool"
    and holder :: "'s \<Rightarrow> string"
  assumes put_ready: "ready s \<Longrightarrow> \<exists>jid s'. put r s = (Inr jid, s')"
    and put_busy: "\<not> ready s \<Longrightarrow> \<exists>e. put r s = (Inl e, s)"
    and put_holder: "put r s = (Inr jid, s') \<Longrightarrow> \<not> ready s' \<and> holder s' = jid"
    and get_ready: "get jid s = (x, True) \<Longrightarrow> ready s \<and> holder s = jid"
    and get_found: "get jid s = (x, found) \<Longrightarrow> found = (x \<noteq> None)"
begin

lemma put_iff: "(\<exists>jid. fst (put r s) = Inr jid) \<longleftrightarrow> ready s"
  using put_ready put_busy by (metis Inl_Inr_False fst_conv)

lemma put_fails_id: "put r s = (Inl e, s') \<Longrightarrow> s' = s"
  using put_ready put_busy by (metis Inl_Inr_False prod.inject)

lemma put_twice: "put r s = (Inr jid, s') \<Longrightarrow> \<exists>e. put r' s' = (Inl e, s')"
  using put_holder put_busy by blast

lemma get_busy: "\<not> ready s \<Longrightarrow> get jid s = (None, False)"
  using get_ready get_found by (metis (full_types) surj_pair)

lemma get_one: "get i s = (Some r, True) \<Longrightarrow> get j s = (Some r', True) \<Longrightarrow> i = j"
  using get_ready by blast

lemma get_after_put: "put r s = (Inr jid, s') \<Longrightarrow> get j s' = (None, False)"
  using put_holder get_busy by blast

end

interpretation slot: job_slot IsReady "Submit order rnd" GetResult CurrentJobID for order rnd
proof unfold_locales
  fix r and s :: Executor
  show "IsReady s \<Longrightarrow> \<exists>jid s'. Submit order rnd r s = (Inr jid, s')"
    by (simp add: Submit_def Let_def)
  show "\<not> IsReady s \<Longrightarrow> \<exists>e. Submit order rnd r s = (Inl e, s)"
    by (simp add: Submit_def)
next
  fix r and s s' :: Executor and jid
  assume "Submit order rnd r s = (Inr jid, s')"
  then show "\<not> IsReady s' \<and> CurrentJobID s' = jid"
    by (auto simp: Submit_def Let_def launch_def new_job_def IsReady_def CurrentJobID_def
        current_job_def split: if_splits)
next
  fix jid x and s :: Executor
  assume "GetResult jid s = (x, True)"
  then show "IsReady s \<and> CurrentJobID s = jid"
    by (auto simp: GetResult_def IsReady_def CurrentJobID_def split: option.splits if_splits)
next
  fix jid x found and s :: Executor
  assume "GetResult jid s = (x, found)"
  then show "found = (x \<noteq> None)" by (auto simp: GetResult_def split: option.splits if_splits)
qed

end
