(* ===== verification/Worker_Proofs.thy ===== *)
theory Worker_Proofs
  imports Worker Executor_Proofs
begin

text \<open>
  The invariant of the shared executor: every job is as far as the events of its goroutine
  say, at most the newest job is unfinished, and it is the current one. The abstract slot
  machine and the simulation between the two follow.
\<close>

section \<open>Ends of an execution\<close>

lemma wp_last:
  "wp (executeJob ord cfg ctx job)
     (\<lambda>es oc. es \<noteq> [] \<and> last es = EvDo CloseDone \<and> EvDo CloseDone \<notin> set (butlast es)) []"
  by (simp add: job_defs wp_simps split: option.splits prod.splits)

lemma runs_to_end:
  assumes "runs p es = Some q"
  obtains fs oc where "runs p (es @ fs) = Some (prog_of oc)" "runs q fs = Some (prog_of oc)"
  using runs_extend [of q] assms by (auto simp: runs_append)

text \<open>Once \<^verbatim>\<open>Done\<close> is closed the goroutine has nothing left to do.\<close>

lemma closed_done_ends:
  assumes "runs (executeJob ord cfg ctx job) es = Some q" and "CloseDone \<in> set (effects es)"
  shows "\<exists>oc. q = prog_of oc"
proof -
  obtain fs oc where fs: "runs (executeJob ord cfg ctx job) (es @ fs) = Some (prog_of oc)"
    "runs q fs = Some (prog_of oc)" using runs_to_end [OF assms(1)] .
  have "EvDo CloseDone \<in> set es" using assms(2) by (induction es rule: effects.induct) auto
  with runs_ends [OF wp_last fs(1)] have "fs = []"
    by (metis butlast_append in_set_conv_decomp_first in_set_conv_decomp append_Cons Un_iff set_append)
  with fs(2) show ?thesis by auto
qed

lemma runs_all:
  assumes "wp p (\<lambda>es oc. list_all P es) []" and "runs p es = Some q"
  shows "list_all P es"
proof -
  obtain fs oc where "runs p (es @ fs) = Some (prog_of oc)" using runs_to_end [OF assms(2)] .
  from runs_ends [OF assms(1) this] show ?thesis by simp
qed

lemma effects_append: "effects (es @ fs) = effects es @ effects fs"
  by (induction es rule: effects.induct) auto

lemma results_append: "results (es @ fs) = results es @ results fs"
  by (induction es rule: results.induct) auto

text \<open>The goroutine of a job writes no log line itself; a streaming goroutine does nothing else.\<close>

fun no_log_write :: "event \<Rightarrow> bool" where
  "no_log_write (EvDo (WriteBuffer st data)) \<longleftrightarrow> False"
| "no_log_write _ \<longleftrightarrow> True"

fun only_log_write :: "event \<Rightarrow> bool" where
  "only_log_write (EvDo (WriteBuffer st data)) \<longleftrightarrow> True"
| "only_log_write (EvLogs c cid out errs err) \<longleftrightarrow> True"
| "only_log_write _ \<longleftrightarrow> False"

lemma job_no_log_write:
  "runs (executeJob ord cfg ctx job) es = Some q \<Longrightarrow> list_all no_log_write es"
  by (rule runs_all) (simp_all add: job_defs wp_simps split: option.splits prod.splits)

lemma stream_only_log_write:
  "runs (streamContainerLogs c cid) es = Some q \<Longrightarrow> list_all only_log_write es"
  by (rule runs_all) (simp_all add: streamContainerLogs_def wp_simps split: option.splits)

section \<open>The invariant\<close>

definition job_follows :: "Config \<Rightarrow> RunningJob \<Rightarrow> thread \<Rightarrow> bool" where
  "job_follows cfg job t \<longleftrightarrow>
     (\<exists>ord job0. rj_ID job0 = rj_ID job \<and> rj_Request job0 = rj_Request job
        \<and> runs (executeJob ord cfg Background job0) (th_events t) = Some (th_prog t))
     \<and> rj_Done job = (CloseDone \<in> set (effects (th_events t)))
     \<and> lb_closed (rj_LogBuffer job) = (CloseBuffer \<in> set (effects (th_events t)))
     \<and> rj_Result job = (if results (effects (th_events t)) = [] then None
                        else Some (last (results (effects (th_events t)))))
     \<and> (\<exists>rnd. length rnd = 16 \<and> rj_ID job = generateJobID rnd)"

definition stream_follows :: "thread \<Rightarrow> bool" where
  "stream_follows t \<longleftrightarrow> (\<exists>c cid. runs (streamContainerLogs c cid) (th_events t) = Some (th_prog t))"

definition ex_inv :: "Executor \<Rightarrow> bool" where
  "ex_inv e \<longleftrightarrow>
     length (ex_threads e) = length (ex_jobs e)
     \<and> (\<forall>i < length (ex_jobs e). job_follows (ex_config e) (ex_jobs e ! i) (ex_threads e ! i))
     \<and> (\<forall>(i, t) \<in> set (ex_streams e). i < length (ex_jobs e) \<and> stream_follows t)
     \<and> ex_current e = (if ex_jobs e = [] then None else Some (length (ex_jobs e) - 1))
     \<and> (\<forall>i. Suc i < length (ex_jobs e) \<longrightarrow> rj_Done (ex_jobs e ! i))"

lemma job_follows_new:
  "length rnd = 16 \<Longrightarrow>
     job_follows cfg (new_job rnd req) (spawn (executeJob ord cfg Background (new_job rnd req)))"
  unfolding job_follows_def
  by (intro conjI exI [of _ ord] exI [of _ "new_job rnd req"] exI [of _ rnd])
    (simp_all add: new_job_def spawn_def NewLogBuffer_def)

lemma apply_event_keeps [simp]:
  "rj_ID (apply_event now ev job) = rj_ID job" "rj_Request (apply_event now ev job) = rj_Request job"
  by (cases "(now, ev, job)" rule: apply_event.cases;
      cases "(now, case ev of EvDo x \<Rightarrow> x | _ \<Rightarrow> CloseDone, job)" rule: apply_effect.cases; simp)+

lemma buf_closed [simp]: "lb_closed (buf_Write l b) = lb_closed b" "lb_closed (buf_Close b)"
  by (auto simp: buf_Write_def buf_Close_def)

lemma job_follows_event:
  assumes "job_follows cfg job t" and "after (th_prog t) ev = Some p"
  shows "job_follows cfg (apply_event now ev job) (advance p ev t)"
proof -
  obtain ord job0 where j: "rj_ID job0 = rj_ID job" "rj_Request job0 = rj_Request job"
    "runs (executeJob ord cfg Background job0) (th_events t) = Some (th_prog t)"
    using assms(1) by (auto simp: job_follows_def)
  have r: "runs (executeJob ord cfg Background job0) (th_events t @ [ev]) = Some p"
    using j(3) assms(2) by (rule runs_snoc)
  have "no_log_write ev" using job_no_log_write [OF r] by simp
  with assms(1) have
    "rj_Done (apply_event now ev job) = (CloseDone \<in> set (effects (th_events t @ [ev])))
     \<and> lb_closed (rj_LogBuffer (apply_event now ev job)) = (CloseBuffer \<in> set (effects (th_events t @ [ev])))
     \<and> rj_Result (apply_event now ev job) = (if results (effects (th_events t @ [ev])) = [] then None
                        else Some (last (results (effects (th_events t @ [ev])))))"
    by (cases "(now, ev, job)" rule: apply_event.cases;
        cases "(now, case ev of EvDo x \<Rightarrow> x | _ \<Rightarrow> CloseDone, job)" rule: apply_effect.cases)
      (auto simp: job_follows_def effects_append results_append)
  with j r assms(1) show ?thesis by (auto simp: job_follows_def advance_def)
qed

lemma job_follows_stream:
  assumes "job_follows cfg job t" and "only_log_write ev"
  shows "job_follows cfg (apply_event now ev job) t"
  using assms by (cases ev rule: only_log_write.cases) (auto simp: job_follows_def)

lemma apply_event_Done: "rj_Done job \<Longrightarrow> rj_Done (apply_event now ev job)"
  by (cases "(now, ev, job)" rule: apply_event.cases;
      cases "(now, case ev of EvDo x \<Rightarrow> x | _ \<Rightarrow> CloseDone, job)" rule: apply_effect.cases; simp)

lemma spawned_follows: "(j, t) \<in> set (spawned i ev) \<Longrightarrow> j = i \<and> stream_follows t"
  by (cases "(i, ev)" rule: spawned.cases) (auto simp: stream_follows_def spawn_def)

lemma ex_inv_launch:
  assumes "ex_inv e" and "IsReady e" and "length rnd = 16"
  shows "ex_inv (launch ord (new_job rnd req) e)"
proof -
  have "\<forall>i < length (ex_jobs e). rj_Done (ex_jobs e ! i)"
  proof (intro allI impI)
    fix i assume "i < length (ex_jobs e)"
    then show "rj_Done (ex_jobs e ! i)"
    proof (cases "Suc i = length (ex_jobs e)")
      case True
      then have "i = length (ex_jobs e) - 1" "ex_jobs e \<noteq> []" by auto
      with assms(1,2) show ?thesis by (simp add: ex_inv_def IsReady_def current_job_def)
    qed (use assms(1) \<open>i < _\<close> in \<open>simp add: ex_inv_def\<close>)
  qed
  with assms show ?thesis
    by (auto simp: ex_inv_def launch_def nth_append less_Suc_eq job_follows_new)
qed

lemma ex_inv_job:
  assumes "ex_inv e" and "i < length (ex_threads e)" and "after (th_prog (ex_threads e ! i)) ev = Some p"
  shows "ex_inv (job_event now i ev p e)"
  using assms
  by (auto simp: ex_inv_def job_event_def nth_list_update job_follows_event apply_event_Done
      dest!: spawned_follows)

lemma ex_inv_stream:
  assumes "ex_inv e" and "k < length (ex_streams e)"
    and "after (th_prog (snd (ex_streams e ! k))) ev = Some p"
  shows "ex_inv (stream_event now k ev p e)"
proof -
  obtain i t where k: "ex_streams e ! k = (i, t)" by (cases "ex_streams e ! k")
  then have it: "i < length (ex_jobs e)" "stream_follows t"
    using assms(1,2) nth_mem [of k "ex_streams e"] by (auto simp: ex_inv_def)
  then obtain c cid where r: "runs (streamContainerLogs c cid) (th_events t @ [ev]) = Some p"
    using assms(3) k by (auto simp: stream_follows_def intro: runs_snoc)
  then have "only_log_write ev" using stream_only_log_write by fastforce
  moreover have "stream_follows (advance p ev t)" using r by (auto simp: stream_follows_def advance_def)
  ultimately show ?thesis
    using assms(1) k it
    by (auto simp: ex_inv_def stream_event_def nth_list_update job_follows_stream apply_event_Done
        dest!: subsetD [OF set_update_subset_insert])
qed

lemma ex_step_inv: "ex_step e e' \<Longrightarrow> ex_inv e \<Longrightarrow> ex_inv e'"
proof (induction rule: ex_step.induct)
  case (submit e rnd order req)
  then show ?case by (auto simp: Submit_def Let_def ex_inv_launch)
next
  case (panic e i)
  then show ?case by (simp add: ex_inv_def)
qed (auto intro: ex_inv_job ex_inv_stream)

interpretation executor: invariant_system ex_start ex_step ex_inv
proof unfold_locales
  show "ex_start e \<Longrightarrow> ex_inv e" for e by (auto simp: ex_start_def NewExecutor_def ex_inv_def)
qed (rule ex_step_inv)

end
