(* ===== verification/Worker_Properties.thy ===== *)
theory Worker_Properties
  imports Worker_Proofs Job_Properties
begin

text \<open>
  What the shared executor promises its callers, in every state the worker can reach: one job
  and one container at a time, results that agree with what happened, results that stay, and
  the abstract slot it implements.
\<close>

section \<open>Running one goroutine\<close>

lemma apply_event_lines:
  "no_log_write ev \<Longrightarrow> lb_lines (rj_LogBuffer (apply_event now ev job)) = lb_lines (rj_LogBuffer job)"
  by (cases "(now, ev, job)" rule: apply_event.cases;
      cases "(now, case ev of EvDo x \<Rightarrow> x | _ \<Rightarrow> CloseDone, job)" rule: apply_effect.cases)
    (simp_all add: buf_Close_def)

text \<open>The goroutine of a job can be run through any of its event sequences.\<close>

lemma run_thread:
  assumes "ex_reach e" and "\<not> ex_crashed e" and "i < length (ex_threads e)"
    and "runs (th_prog (ex_threads e ! i)) es = Some p"
  obtains e' where "ex_step\<^sup>*\<^sup>* e e'" "ex_reach e'" "\<not> ex_crashed e'" "ex_current e' = ex_current e"
    "ex_config e' = ex_config e" "length (ex_jobs e') = length (ex_jobs e)"
    "ex_threads e' ! i = \<lparr>th_prog = p, th_events = th_events (ex_threads e ! i) @ es\<rparr>"
    "rj_ID (ex_jobs e' ! i) = rj_ID (ex_jobs e ! i)"
    "rj_Request (ex_jobs e' ! i) = rj_Request (ex_jobs e ! i)"
    "ex_streams e' = ex_streams e @ concat (map (spawned i) es)"
    "lb_lines (rj_LogBuffer (ex_jobs e' ! i)) = lb_lines (rj_LogBuffer (ex_jobs e ! i))"
  using assms
proof (induction es arbitrary: e thesis)
  case Nil
  then show ?case by (intro Nil.prems(1) [of e]) (simp_all add: thread.equality)
next
  case (Cons ev es)
  from Cons.prems(5) obtain q where q: "after (th_prog (ex_threads e ! i)) ev = Some q" "runs q es = Some p"
    by (auto split: option.splits)
  let ?e = "job_event 0 i ev q e"
  have inv: "ex_inv e" using Cons.prems(2) by (rule executor.reach_inv)
  have st: "ex_step e ?e" using Cons.prems(3,4) q(1) by (rule ex_step.job)
  have "ex_reach ?e" using Cons.prems(2) st by (rule reach.reach_step)
  moreover have "\<not> ex_crashed ?e" "i < length (ex_threads ?e)" "runs (th_prog (ex_threads ?e ! i)) es = Some p"
    using Cons.prems(3,4) q(2) by (simp_all add: job_event_def advance_def)
  ultimately obtain e' where e': "ex_step\<^sup>*\<^sup>* ?e e'" "ex_reach e'" "\<not> ex_crashed e'"
    "ex_current e' = ex_current ?e" "ex_config e' = ex_config ?e" "length (ex_jobs e') = length (ex_jobs ?e)"
    "ex_threads e' ! i = \<lparr>th_prog = p, th_events = th_events (ex_threads ?e ! i) @ es\<rparr>"
    "rj_ID (ex_jobs e' ! i) = rj_ID (ex_jobs ?e ! i)"
    "rj_Request (ex_jobs e' ! i) = rj_Request (ex_jobs ?e ! i)"
    "ex_streams e' = ex_streams ?e @ concat (map (spawned i) es)"
    "lb_lines (rj_LogBuffer (ex_jobs e' ! i)) = lb_lines (rj_LogBuffer (ex_jobs ?e ! i))"
    using Cons.IH by blast
  have il: "i < length (ex_jobs e)" using inv Cons.prems(4) by (simp add: ex_inv_def)
  then have "job_follows (ex_config e) (ex_jobs e ! i) (ex_threads e ! i)" using inv by (simp add: ex_inv_def)
  then obtain ord job0 where "runs (executeJob ord (ex_config e) Background job0)
      (th_events (ex_threads e ! i)) = Some (th_prog (ex_threads e ! i))"
    by (auto simp: job_follows_def)
  from job_no_log_write [OF runs_snoc [OF this q(1)]] have "no_log_write ev" by simp
  then have "lb_lines (rj_LogBuffer (apply_event 0 ev (ex_jobs e ! i))) = lb_lines (rj_LogBuffer (ex_jobs e ! i))"
    by (rule apply_event_lines)
  with e' st il Cons.prems(4) show ?case
    by (intro Cons.prems(1) [of e'])
      (auto simp: job_event_def advance_def intro: converse_rtranclp_into_rtranclp)
qed

definition sample_bytes :: "byte list" where
  "sample_bytes = replicate 16 0"

definition sample_id :: string where
  "sample_id = generateJobID sample_bytes"

definition sample_busy :: Executor where
  "sample_busy = launch [] (new_job sample_bytes sample_request) (NewExecutor sample_config)"

lemma sample_busy_reach: "ex_reach sample_busy"
proof -
  have "ex_reach (NewExecutor sample_config)" by (rule reach_start) (auto simp: ex_start_def)
  moreover have "ex_step (NewExecutor sample_config)
      (snd (Submit [] sample_bytes sample_request (NewExecutor sample_config)))"
    by (rule ex_step.submit) (simp_all add: NewExecutor_def sample_bytes_def)
  moreover have "snd (Submit [] sample_bytes sample_request (NewExecutor sample_config)) = sample_busy"
    by (simp add: Submit_def Let_def sample_busy_def IsReady_def current_job_def NewExecutor_def)
  ultimately show ?thesis by (metis reach.reach_step)
qed

lemma sample_busy_simps:
  "\<not> ex_crashed sample_busy" "ex_current sample_busy = Some 0" "length (ex_jobs sample_busy) = 1"
  "length (ex_threads sample_busy) = 1" "rj_ID (ex_jobs sample_busy ! 0) = sample_id"
  "th_events (ex_threads sample_busy ! 0) = []"
  "th_prog (ex_threads sample_busy ! 0) =
     executeJob [] sample_config Background (new_job sample_bytes sample_request)"
  by (simp_all add: sample_busy_def launch_def NewExecutor_def spawn_def new_job_def sample_id_def)

text \<open>The good execution, with the identifier the executor has chosen.\<close>

definition sample_events :: "event list" where
  "sample_events = map (\<lambda>ev. case ev of
     EvDo (SetResult r) \<Rightarrow> EvDo (SetResult (r\<lparr>res_JobID := sample_id\<rparr>)) | _ \<Rightarrow> ev) good_run"

lemma sample_events_run:
  "runs (executeJob [] sample_config Background (new_job sample_bytes sample_request)) sample_events
     = Some (Return ())"
  by (simp add: sample_events_def good_run_def run_exec new_job_def sample_id_def)

lemma sample_finished:
  obtains e where "ex_reach e" "\<not> ex_crashed e" "ex_step\<^sup>*\<^sup>* sample_busy e" "ex_current e = Some 0"
    "length (ex_jobs e) = 1" "th_events (ex_threads e ! 0) = sample_events"
    "rj_ID (ex_jobs e ! 0) = sample_id"
proof -
  have "0 < length (ex_threads sample_busy)" by (simp add: sample_busy_simps)
  moreover have "runs (th_prog (ex_threads sample_busy ! 0)) sample_events = Some (Return ())"
    by (simp add: sample_busy_simps sample_events_run)
  ultimately obtain e where "ex_step\<^sup>*\<^sup>* sample_busy e" "ex_reach e" "\<not> ex_crashed e"
    "ex_current e = ex_current sample_busy" "length (ex_jobs e) = length (ex_jobs sample_busy)"
    "ex_threads e ! 0 = \<lparr>th_prog = Return (), th_events = th_events (ex_threads sample_busy ! 0) @ sample_events\<rparr>"
    "rj_ID (ex_jobs e ! 0) = rj_ID (ex_jobs sample_busy ! 0)"
    by (rule run_thread [OF sample_busy_reach sample_busy_simps(1)])
  then show ?thesis by (intro that [of e]) (simp_all add: sample_busy_simps)
qed

section \<open>Facts about the current job\<close>

lemma current_job_cases:
  assumes "ex_inv e" and "current_job e = Some job"
  obtains i where "ex_current e = Some i" "Suc i = length (ex_jobs e)" "job = ex_jobs e ! i"
    "job_follows (ex_config e) job (ex_threads e ! i)" "i < length (ex_threads e)"
proof -
  from assms have "ex_jobs e \<noteq> []" by (auto simp: ex_inv_def current_job_def split: if_splits)
  then have l: "length (ex_jobs e) - 1 < length (ex_jobs e)" "Suc (length (ex_jobs e) - 1) = length (ex_jobs e)"
    by simp_all
  with assms \<open>ex_jobs e \<noteq> []\<close> show ?thesis
    by (intro that [of "length (ex_jobs e) - 1"]) (auto simp: ex_inv_def current_job_def)
qed

text \<open>A job whose \<^verbatim>\<open>Done\<close> is closed has run to its end.\<close>

lemma job_done_complete:
  assumes "job_follows cfg job t" and "rj_Done job"
  obtains ord job0 oc where "rj_ID job0 = rj_ID job" "rj_Request job0 = rj_Request job"
    "runs (executeJob ord cfg Background job0) (th_events t) = Some (prog_of oc)"
    "th_prog t = prog_of oc"
  using assms closed_done_ends unfolding job_follows_def by metis

lemma job_done_removed:
  assumes "job_follows cfg job t" and "rj_Done job"
  shows "created_in (th_events t) = removed_in (th_events t) @ unremoved_in (th_events t)"
  using job_done_complete [OF assms] ended_lists by metis

lemma job_done_result:
  assumes "job_follows cfg job t" and "rj_Done job"
  shows "case rj_Result job of
           None \<Rightarrow> th_prog t = Panic
         | Some r \<Rightarrow> th_prog t = Return () \<and> result_agrees cfg job (th_events t) r"
proof -
  obtain ord job0 oc where j: "rj_ID job0 = rj_ID job"
    "runs (executeJob ord cfg Background job0) (th_events t) = Some (prog_of oc)" "th_prog t = prog_of oc"
    using job_done_complete [OF assms] by metis
  from runs_ends [OF wp_result j(2)] have "one_result cfg job0 (th_events t) oc" .
  then show ?thesis
    using assms(1) j(1,3) by (cases oc) (auto simp: job_follows_def result_agrees_def)
qed

section \<open>One job, one container\<close>

text \<open>
  The containers of a goroutine that exist: it has created them, and no call to remove them has
  succeeded. Those for which that call has failed are the leaked ones.
\<close>

definition live :: "thread \<Rightarrow> string list" where
  "live t = drop (length (removed_in (th_events t))) (created_in (th_events t))"

definition leaked :: "thread \<Rightarrow> string list" where
  "leaked t = unremoved_in (th_events t)"

definition live_containers :: "Executor \<Rightarrow> string list" where
  "live_containers e = concat (map live (ex_threads e))"

definition leaked_containers :: "Executor \<Rightarrow> string list" where
  "leaked_containers e = concat (map leaked (ex_threads e))"

lemma live_leaked:
  assumes "job_follows cfg job t"
  obtains xs where "live t = leaked t @ xs" "length xs \<le> 1" "rj_Done job \<longrightarrow> xs = []"
proof -
  obtain ord job0 where "runs (executeJob ord cfg Background job0) (th_events t) = Some (th_prog t)"
    using assms by (auto simp: job_follows_def)
  then obtain l where l: "lc_lists l (created_in (th_events t)) (removed_in (th_events t)) (unremoved_in (th_events t))"
    by (rule partial_lists)
  show thesis
  proof (cases "rj_Done job")
    case True
    then show thesis using job_done_removed [OF assms] by (intro that [of "[]"]) (simp_all add: live_def leaked_def)
  next
    case False
    then show thesis using l that [of "live t"] that [of "[]"] by (cases l) (auto simp: live_def leaked_def)
  qed
qed

lemma live_done: "job_follows cfg job t \<Longrightarrow> rj_Done job \<Longrightarrow> live t = leaked t"
  using live_leaked by fastforce

lemma ex_inv_not_last:
  assumes "ex_inv e" and "i < length (ex_jobs e)" and "\<not> rj_Done (ex_jobs e ! i)"
  shows "Suc i = length (ex_jobs e)"
proof -
  have "\<not> Suc i < length (ex_jobs e)" using assms(1,3) unfolding ex_inv_def by blast
  with assms(2) show ?thesis by simp
qed

text \<open>All goroutines but the last have ended, so what they left are leaked containers.\<close>

lemma live_containers_last:
  assumes "ex_inv e"
  obtains xs where "live_containers e = leaked_containers e @ xs" "length xs \<le> 1" "IsReady e \<longrightarrow> xs = []"
proof (cases "current_job e")
  case None
  with assms have "ex_threads e = []" by (auto simp: ex_inv_def current_job_def split: if_splits)
  then show thesis by (intro that [of "[]"]) (simp_all add: live_containers_def leaked_containers_def)
next
  case (Some job)
  from current_job_cases [OF assms Some] obtain i where i: "Suc i = length (ex_jobs e)"
    "job_follows (ex_config e) job (ex_threads e ! i)" "i < length (ex_threads e)" by metis
  have len: "length (ex_threads e) = length (ex_jobs e)" using assms by (simp add: ex_inv_def)
  then have th: "ex_threads e = take i (ex_threads e) @ [ex_threads e ! i]"
    using i(1,3) take_Suc_conv_app_nth [of i "ex_threads e"] by simp
  have "live t = leaked t" if t: "t \<in> set (take i (ex_threads e))" for t
  proof -
    obtain k where "k < i" "t = ex_threads e ! k" using t i(3) by (auto simp: in_set_conv_nth)
    with assms i(1) show ?thesis
      by (intro live_done [of "ex_config e" "ex_jobs e ! k"]) (auto simp: ex_inv_def)
  qed
  then have old: "map live (take i (ex_threads e)) = map leaked (take i (ex_threads e))" by simp
  obtain xs where xs: "live (ex_threads e ! i) = leaked (ex_threads e ! i) @ xs" "length xs \<le> 1"
    "rj_Done job \<longrightarrow> xs = []" using live_leaked [OF i(2)] .
  have "live_containers e = leaked_containers e @ xs"
    unfolding live_containers_def leaked_containers_def by (subst (1 2) th) (simp add: old xs(1))
  with xs(2,3) Some that show thesis by (simp add: IsReady_def)
qed

text \<open>
  C2: in every reachable state at most one job is unfinished, and it is the current one. The
  containers that exist, over all jobs ever accepted, are those whose removal has failed and at
  most one more, which is gone when the executor reports that it is ready; so as long as no
  removal has failed there is at most one container, and none when the executor is ready.
  (A container exists from the answer of the create call until a removal call succeeds. After a
  removal that fails the worker is ready all the same: the witness has such a state.)
\<close>

theorem one_job_one_container:
  assumes "ex_reach e"
  shows "(\<forall>i < length (ex_jobs e). \<not> rj_Done (ex_jobs e ! i) \<longrightarrow> ex_current e = Some i)
    \<and> (\<exists>xs. live_containers e = leaked_containers e @ xs \<and> length xs \<le> 1 \<and> (IsReady e \<longrightarrow> xs = []))"
proof (intro conjI allI impI)
  have inv: "ex_inv e" using assms by (rule executor.reach_inv)
  show "ex_current e = Some i" if "i < length (ex_jobs e)" "\<not> rj_Done (ex_jobs e ! i)" for i
    using ex_inv_not_last [OF inv that] inv that(1) by (auto simp: ex_inv_def)
  obtain xs where "live_containers e = leaked_containers e @ xs" "length xs \<le> 1" "IsReady e \<longrightarrow> xs = []"
    using live_containers_last [OF inv] .
  then show "\<exists>xs. live_containers e = leaked_containers e @ xs \<and> length xs \<le> 1 \<and> (IsReady e \<longrightarrow> xs = [])"
    by blast
qed

text \<open>The execution whose removal fails, with the identifier the executor has chosen.\<close>

definition leaky_events :: "event list" where
  "leaky_events = map (\<lambda>ev. case ev of
     EvCall (RemoveContainer c cid) err \<Rightarrow> EvCall (RemoveContainer c cid) (Some ''busy'') | _ \<Rightarrow> ev) sample_events"

lemma leaky_finished:
  obtains e where "ex_reach e" "ex_current e = Some 0" "length (ex_jobs e) = 1" "length (ex_threads e) = 1"
    "th_events (ex_threads e ! 0) = leaky_events"
proof -
  have "runs (th_prog (ex_threads sample_busy ! 0)) leaky_events = Some (Return ())"
    by (simp add: sample_busy_simps leaky_events_def sample_events_def good_run_def run_exec new_job_def sample_id_def)
  moreover have "0 < length (ex_threads sample_busy)" by (simp add: sample_busy_simps)
  ultimately obtain e where e: "ex_reach e" "ex_current e = ex_current sample_busy"
    "length (ex_jobs e) = length (ex_jobs sample_busy)"
    "th_events (ex_threads e ! 0) = th_events (ex_threads sample_busy ! 0) @ leaky_events"
    using run_thread [OF sample_busy_reach sample_busy_simps(1)] by (metis thread.select_convs(2))
  have "length (ex_threads e) = length (ex_jobs e)" using executor.reach_inv [OF e(1)] by (simp add: ex_inv_def)
  with e show thesis by (intro that [of e]) (simp_all add: sample_busy_simps)
qed

theorem one_job_one_container_witness:
  "(\<exists>e. ex_reach e \<and> ex_current e = Some 0 \<and> \<not> IsReady e \<and> leaked_containers e = []
      \<and> length (live_containers e) \<le> 1)
   \<and> (\<exists>e. ex_reach e \<and> IsReady e \<and> leaked_containers e = [''c1''] \<and> live_containers e = [''c1''])"
proof
  have "\<not> IsReady sample_busy"
    by (simp add: sample_busy_def IsReady_def current_job_def launch_def NewExecutor_def new_job_def)
  moreover have "leaked_containers sample_busy = []"
    by (simp add: leaked_containers_def leaked_def sample_busy_def launch_def NewExecutor_def spawn_def)
  ultimately show "\<exists>e. ex_reach e \<and> ex_current e = Some 0 \<and> \<not> IsReady e \<and> leaked_containers e = []
      \<and> length (live_containers e) \<le> 1"
    using one_job_one_container [OF sample_busy_reach] sample_busy_reach sample_busy_simps(2)
    by (metis append_Nil)
  obtain e where e: "ex_reach e" "ex_current e = Some 0" "length (ex_jobs e) = 1" "length (ex_threads e) = 1"
    "th_events (ex_threads e ! 0) = leaky_events" using leaky_finished .
  have "job_follows (ex_config e) (ex_jobs e ! 0) (ex_threads e ! 0)"
    using executor.reach_inv [OF e(1)] e(3) by (simp add: ex_inv_def)
  then have ready: "IsReady e"
    using e(2,5) by (simp add: job_follows_def IsReady_def current_job_def leaky_events_def sample_events_def good_run_def)
  have "ex_threads e = [ex_threads e ! 0]" using e(4) by (cases "ex_threads e") simp_all
  then have "leaked_containers e = leaked (ex_threads e ! 0)"
    unfolding leaked_containers_def by (metis append_Nil2 concat.simps list.simps(8,9))
  then have l: "leaked_containers e = [''c1'']"
    using e(5) by (simp add: leaked_def leaky_events_def sample_events_def good_run_def)
  with one_job_one_container [OF e(1)] ready have "live_containers e = [''c1'']" by auto
  with l ready e(1) show "\<exists>e. ex_reach e \<and> IsReady e \<and> leaked_containers e = [''c1''] \<and> live_containers e = [''c1'']"
    by blast
qed

section \<open>The handlers' view\<close>

text \<open>
  In every state, a submission is accepted exactly when \<open>IsReady\<close> holds. A rejected one
  changes nothing. An accepted one makes its identifier the current one, makes the executor
  busy, so that the next submission is rejected, and makes every earlier result unavailable.
\<close>

theorem Submit_contract:
  "(\<exists>jid. fst (Submit ord rnd req e) = Inr jid) = IsReady e
   \<and> (\<forall>msg e'. Submit ord rnd req e = (Inl msg, e') \<longrightarrow> e' = e)
   \<and> (\<forall>jid e'. Submit ord rnd req e = (Inr jid, e') \<longrightarrow>
        \<not> IsReady e' \<and> CurrentJobID e' = jid \<and> (\<forall>j. GetResult j e' = (None, False))
        \<and> (\<forall>ord' rnd' req'. \<exists>msg. Submit ord' rnd' req' e' = (Inl msg, e')))"
proof (intro conjI allI impI)
  show "(\<exists>jid. fst (Submit ord rnd req e) = Inr jid) = IsReady e" by (rule slot.put_iff)
  show "Submit ord rnd req e = (Inl msg, e') \<Longrightarrow> e' = e" for msg e' by (rule slot.put_fails_id)
  fix jid e' assume s: "Submit ord rnd req e = (Inr jid, e')"
  from slot.put_holder [OF s] show "\<not> IsReady e'" "CurrentJobID e' = jid" by simp_all
  show "GetResult j e' = (None, False)" for j using s by (rule slot.get_after_put)
  show "\<exists>msg. Submit ord' rnd' req' e' = (Inl msg, e')" for ord' rnd' req'
    using \<open>\<not> IsReady e'\<close> by (rule slot.put_busy)
qed

theorem Submit_contract_witness:
  "\<exists>jid e'. Submit [] sample_bytes sample_request (NewExecutor sample_config) = (Inr jid, e') \<and> \<not> IsReady e'"
proof -
  have "IsReady (NewExecutor sample_config)" by (simp add: IsReady_def current_job_def NewExecutor_def)
  with Submit_contract [of "[]" sample_bytes sample_request "NewExecutor sample_config"] show ?thesis
    by (metis prod.collapse)
qed

lemma result_of_current:
  assumes "ex_reach e" and "GetResult jid e = (Some r, True)"
  shows "\<exists>i. ex_current e = Some i \<and> rj_ID (ex_jobs e ! i) = jid \<and> res_JobID r = jid
           \<and> rj_Done (ex_jobs e ! i) \<and> th_prog (ex_threads e ! i) = Return ()
           \<and> created_in (th_events (ex_threads e ! i)) =
               removed_in (th_events (ex_threads e ! i)) @ unremoved_in (th_events (ex_threads e ! i))
           \<and> (res_Status r, res_ExitCode r) = classify (th_events (ex_threads e ! i))
           \<and> res_Error r = failure (ex_config e) (th_events (ex_threads e ! i))
           \<and> res_Status r \<in> {''success'', ''failed'', ''timeout'', ''error''}"
proof -
  obtain job where job: "current_job e = Some job" "rj_ID job = jid" "rj_Done job" "rj_Result job = Some r"
    using assms(2) by (auto simp: GetResult_def split: option.splits if_splits)
  from current_job_cases [OF executor.reach_inv [OF assms(1)] job(1)] obtain i where
    i: "ex_current e = Some i" "job = ex_jobs e ! i" "job_follows (ex_config e) job (ex_threads e ! i)" by metis
  have a: "th_prog (ex_threads e ! i) = Return ()" "result_agrees (ex_config e) job (th_events (ex_threads e ! i)) r"
    using job_done_result [OF i(3) job(3)] job(4) by simp_all
  then have "res_Status r = fst (classify (th_events (ex_threads e ! i)))"
    by (metis fst_conv result_agrees_def)
  then have "res_Status r \<in> {''success'', ''failed'', ''timeout'', ''error''}"
    by (auto simp: classify_def split: option.splits)
  with a i job job_done_removed [OF i(3) job(3)] show ?thesis by (auto simp: result_agrees_def)
qed


lemma sample_finished_result:
  obtains e r where "ex_reach e" "\<not> ex_crashed e" "ex_step\<^sup>*\<^sup>* sample_busy e"
    "GetResult sample_id e = (Some r, True)" "ex_current e = Some 0" "length (ex_jobs e) = 1"
proof -
  obtain e where e: "ex_reach e" "\<not> ex_crashed e" "ex_step\<^sup>*\<^sup>* sample_busy e" "ex_current e = Some 0"
    "length (ex_jobs e) = 1" "th_events (ex_threads e ! 0) = sample_events"
    "rj_ID (ex_jobs e ! 0) = sample_id" using sample_finished by blast
  have "job_follows (ex_config e) (ex_jobs e ! 0) (ex_threads e ! 0)"
    using executor.reach_inv [OF e(1)] e(5) by (simp add: ex_inv_def)
  moreover have "CloseDone \<in> set (effects sample_events)" "results (effects sample_events) \<noteq> []"
    by (simp_all add: sample_events_def good_run_def)
  ultimately have "rj_Done (ex_jobs e ! 0)" "rj_Result (ex_jobs e ! 0) \<noteq> None"
    using e(6) by (auto simp: job_follows_def)
  then have "\<exists>r. GetResult sample_id e = (Some r, True)"
    using e(4,7) by (auto simp: GetResult_def current_job_def)
  with e that show ?thesis by blast
qed


section \<open>The abstract slot\<close>

text \<open>What the executor is to a client: a slot that is free, taken, or holds the last outcome.\<close>

datatype slot_state =
    Empty
  | Busy string
  | Finished string "ExecutionResult option"

inductive slot_step :: "slot_state \<Rightarrow> slot_state \<Rightarrow> bool" where
  accept: "slot_step Empty (Busy jid)"
| replace: "slot_step (Finished jid r) (Busy jid')"
| finish: "res_JobID r = jid \<Longrightarrow> slot_step (Busy jid) (Finished jid (Some r))"
| die: "slot_step (Busy jid) (Finished jid None)"

inductive_cases slot_step_FinishedE: "slot_step (Finished jid r) s"

definition slot_of :: "Executor \<Rightarrow> slot_state" where
  "slot_of e =
     (case current_job e of
        None \<Rightarrow> Empty
      | Some job \<Rightarrow> if rj_Done job then Finished (rj_ID job) (rj_Result job) else Busy (rj_ID job))"

definition slot_start :: "slot_state \<Rightarrow> bool" where
  "slot_start s \<longleftrightarrow> s = Empty"

lemma slot_of_launch:
  "slot_of (launch ord (new_job rnd req) e) = Busy (generateJobID rnd)"
  by (simp add: slot_of_def launch_def current_job_def new_job_def)

lemma apply_event_same:
  "ev \<noteq> EvDo CloseDone \<Longrightarrow> rj_Done (apply_event now ev job) = rj_Done job"
  "only_log_write ev \<Longrightarrow> rj_Result (apply_event now ev job) = rj_Result job"
  by (cases "(now, ev, job)" rule: apply_event.cases;
      cases "(now, case ev of EvDo x \<Rightarrow> x | _ \<Rightarrow> CloseDone, job)" rule: apply_effect.cases; simp)+

lemma after_final: "after (prog_of oc) ev = None"
  by (cases oc; cases ev) simp_all

lemma slot_job_event:
  assumes "ex_inv e" and "i < length (ex_threads e)" and "after (th_prog (ex_threads e ! i)) ev = Some p"
  shows "slot_of (job_event now i ev p e) = slot_of e
    \<or> slot_step (slot_of e) (slot_of (job_event now i ev p e)) \<and> (\<exists>jid. slot_of e = Busy jid)"
proof -
  let ?e = "job_event now i ev p e" and ?job = "ex_jobs e ! i"
  have il: "i < length (ex_jobs e)" and f: "job_follows (ex_config e) ?job (ex_threads e ! i)"
    using assms(1,2) by (auto simp: ex_inv_def)
  have nd: "\<not> rj_Done ?job"
  proof
    assume "rj_Done ?job"
    from job_done_complete [OF f this] obtain oc where "th_prog (ex_threads e ! i) = prog_of oc" by metis
    with assms(3) show False by (simp add: after_final)
  qed
  with ex_inv_not_last [OF assms(1) il] assms(1) il have cur: "ex_current e = Some i"
    by (auto simp: ex_inv_def)
  have cj: "current_job e = Some ?job" "current_job ?e = Some (apply_event now ev ?job)"
    using cur il by (simp_all add: current_job_def job_event_def)
  show ?thesis
  proof (cases "ev = EvDo CloseDone")
    case False
    with nd cj show ?thesis by (simp add: slot_of_def apply_event_same)
  next
    case True
    have "job_follows (ex_config e) (apply_event now ev ?job) (advance p ev (ex_threads e ! i))"
      using f assms(3) by (rule job_follows_event)
    moreover have d: "rj_Done (apply_event now ev ?job)" using True by simp
    ultimately have "rj_Result (apply_event now ev ?job) = Some r \<Longrightarrow> res_JobID r = rj_ID ?job" for r
      using job_done_result by (fastforce simp: result_agrees_def)
    with nd d cj show ?thesis
      by (cases "rj_Result (apply_event now ev ?job)") (auto simp: slot_of_def intro: slot_step.intros)
  qed
qed

lemma slot_stream_event:
  assumes "ex_inv e" and "k < length (ex_streams e)"
    and "after (th_prog (snd (ex_streams e ! k))) ev = Some p"
  shows "slot_of (stream_event now k ev p e) = slot_of e"
proof -
  obtain i t where k: "ex_streams e ! k = (i, t)" by (cases "ex_streams e ! k")
  then have it: "i < length (ex_jobs e)" "stream_follows t"
    using assms(1,2) nth_mem [of k "ex_streams e"] by (auto simp: ex_inv_def)
  then obtain c cid where "runs (streamContainerLogs c cid) (th_events t @ [ev]) = Some p"
    using assms(3) k by (auto simp: stream_follows_def intro: runs_snoc)
  then have w: "only_log_write ev" using stream_only_log_write by fastforce
  then have "ev \<noteq> EvDo CloseDone" by auto
  with w k it(1) show ?thesis
    by (auto simp: slot_of_def current_job_def stream_event_def apply_event_same nth_list_update
        split: option.splits)
qed

interpretation slot_refinement: simulation ex_start ex_step ex_inv slot_of slot_start slot_step
proof unfold_locales
  show "ex_start s \<Longrightarrow> slot_start (slot_of s)" for s
    by (auto simp: ex_start_def NewExecutor_def slot_start_def slot_of_def current_job_def)
  show "slot_of t = slot_of s \<or> slot_step (slot_of s) (slot_of t)" if "ex_inv s" "ex_step s t" for s t
    using that(2,1)
  proof (induction rule: ex_step.induct)
    case (submit e rnd ord req)
    then show ?case
      by (auto simp: Submit_def Let_def slot_of_launch)
        (auto simp: slot_of_def IsReady_def split: option.splits if_splits intro: slot_step.intros)
  next
    case (panic e i)
    then show ?case by (simp add: slot_of_def current_job_def)
  qed (use slot_job_event slot_stream_event in blast)+
qed



section \<open>Results stay\<close>

lemma slot_of_Finished:
  "slot_of e = Finished jid (Some r) \<longleftrightarrow> GetResult jid e = (Some r, True)"
  by (auto simp: slot_of_def GetResult_def split: option.splits)

lemma ex_step_finished:
  assumes "ex_step e e'" and "ex_inv e" and "slot_of e = Finished jid r"
  shows "slot_of e' = Finished jid r \<and> length (ex_jobs e') = length (ex_jobs e)
    \<or> length (ex_jobs e) < length (ex_jobs e')"
  using assms
proof (induction rule: ex_step.induct)
  case (submit e rnd order req)
  then show ?case by (auto simp: Submit_def Let_def launch_def)
next
  case (job e i ev p now)
  then show ?case using slot_job_event [of e i ev p now] by (auto simp: job_event_def)
next
  case (stream e k ev p now)
  then show ?case
    using slot_stream_event [of e k ev p now] by (auto simp: stream_event_def split: prod.splits)
next
  case (panic e i)
  then show ?case by (simp add: slot_of_def current_job_def)
qed

lemma ex_step_length: "ex_step e e' \<Longrightarrow> length (ex_jobs e) \<le> length (ex_jobs e')"
  by (induction rule: ex_step.induct)
    (auto simp: Submit_def Let_def launch_def job_event_def stream_event_def split: prod.splits)

lemma steps_keep_current:
  assumes "ex_reach e" and "ex_step\<^sup>*\<^sup>* e e'" and "current_job e \<noteq> None"
  shows "current_job e' \<noteq> None"
proof -
  have "ex_jobs e \<noteq> []"
    using executor.reach_inv [OF assms(1)] assms(3) by (auto simp: ex_inv_def current_job_def split: if_splits)
  moreover have "length (ex_jobs e) \<le> length (ex_jobs e')"
    using assms(2) by (induction rule: rtranclp_induct) (auto dest: ex_step_length)
  ultimately show ?thesis
    using executor.steps_inv [OF executor.reach_inv [OF assms(1)] assms(2)]
    by (auto simp: ex_inv_def current_job_def)
qed

text \<open>
  C20: once a result can be fetched it can be fetched, unchanged, until the next job is accepted,
  whatever the goroutines that are still running do.
\<close>

theorem result_stays:
  assumes "ex_reach e" and "GetResult jid e = (Some r, True)"
    and "ex_step\<^sup>*\<^sup>* e e'" and "ex_current e' = ex_current e"
  shows "GetResult jid e' = (Some r, True)"
proof -
  have inv: "ex_inv e" using assms(1) by (rule executor.reach_inv)
  let ?P = "\<lambda>u. slot_of u = Finished jid (Some r) \<and> length (ex_jobs u) = length (ex_jobs e)
    \<or> length (ex_jobs e) < length (ex_jobs u)"
  have "?P e'"
  proof (rule executor.steps_mono [OF assms(3) inv])
    fix u v assume "ex_inv u" "ex_step u v" "?P u"
    then show "?P v" using ex_step_finished [of u v jid "Some r"] ex_step_length [of u v] by auto
  qed (use assms(2) in \<open>simp add: slot_of_Finished\<close>)
  moreover have "length (ex_jobs e') = length (ex_jobs e)"
    using inv executor.steps_inv [OF inv assms(3)] assms(4)
    by (auto simp: ex_inv_def split: if_splits) (metis Suc_pred length_greater_0_conv)+
  ultimately show ?thesis by (simp add: slot_of_Finished)
qed

theorem result_stays_witness:
  "\<exists>e r. GetResult sample_id e = (Some r, True)
     \<and> GetResult sample_id (snd (Submit [] sample_bytes sample_request e)) \<noteq> (Some r, True)"
proof -
  obtain e r where e: "ex_reach e" "GetResult sample_id e = (Some r, True)"
    using sample_finished_result .
  have "GetResult sample_id e = (Some r, True)"
    using result_stays [OF e rtranclp.rtrancl_refl refl] .
  moreover have "IsReady e" using slot.get_ready [OF e(2)] by simp
  then have "GetResult sample_id (snd (Submit [] sample_bytes sample_request e)) = (None, False)"
    by (simp add: Submit_def Let_def launch_def new_job_def GetResult_def current_job_def)
  ultimately show ?thesis by (intro exI [of _ e] exI [of _ r]) simp
qed

section \<open>A job ends, and the end of its log is visible first\<close>

lemma event_effect: "EvDo x \<in> set es \<Longrightarrow> x \<in> set (effects es)"
  by (induction es rule: effects.induct) auto

text \<open>The last event of a job, and what it means to be just before it.\<close>

lemma busy_to_end:
  assumes "ex_reach e" and "\<not> ex_crashed e" and "current_job e = Some job" and "\<not> rj_Done job"
  obtains i fs p oc where "ex_current e = Some i" "i < length (ex_threads e)" "job = ex_jobs e ! i"
    "runs (th_prog (ex_threads e ! i)) fs = Some p" "after p (EvDo CloseDone) = Some (prog_of oc)"
    "\<exists>ord job0. runs (executeJob ord (ex_config e) Background job0)
       (th_events (ex_threads e ! i) @ fs @ [EvDo CloseDone]) = Some (prog_of oc)"
proof -
  obtain i where i: "ex_current e = Some i" "job = ex_jobs e ! i"
    "job_follows (ex_config e) job (ex_threads e ! i)" "i < length (ex_threads e)"
    using current_job_cases [OF executor.reach_inv [OF assms(1)] assms(3)] by metis
  let ?t = "ex_threads e ! i"
  from i(3) obtain ord job0 where r: "runs (executeJob ord (ex_config e) Background job0) (th_events ?t) = Some (th_prog ?t)"
    by (auto simp: job_follows_def)
  obtain gs oc where gs: "runs (executeJob ord (ex_config e) Background job0) (th_events ?t @ gs) = Some (prog_of oc)"
    "runs (th_prog ?t) gs = Some (prog_of oc)" using runs_to_end [OF r] .
  note l = runs_ends [OF wp_last gs(1)]
  have "EvDo CloseDone \<notin> set (th_events ?t)"
    using i(3) assms(4) by (auto simp: job_follows_def dest: event_effect)
  then have "gs \<noteq> []" using l by (metis append_Nil2 last_in_set)
  then obtain fs where g: "gs = fs @ [EvDo CloseDone]" using l by (metis append_butlast_last_id last_appendR)
  then obtain p where "runs (th_prog ?t) fs = Some p" "after p (EvDo CloseDone) = Some (prog_of oc)"
    using gs(2) by (auto simp: runs_append split: option.splits)
  with i g gs(1) that show ?thesis by metis
qed

text \<open>The steps of the goroutine of job \<open>i\<close>, with whatever answers and clock readings.\<close>

definition job_step :: "nat \<Rightarrow> Executor \<Rightarrow> Executor \<Rightarrow> bool" where
  "job_step i e e' \<longleftrightarrow> \<not> ex_crashed e \<and> i < length (ex_threads e)
     \<and> (\<exists>now ev p. after (th_prog (ex_threads e ! i)) ev = Some p \<and> e' = job_event now i ev p e)"

lemma job_step_ex_step: "job_step i e e' \<Longrightarrow> ex_step e e'"
  by (auto simp: job_step_def intro: ex_step.job)

lemma job_step_keeps:
  "job_step i e e' \<Longrightarrow> \<not> ex_crashed e' \<and> ex_current e' = ex_current e
     \<and> length (ex_threads e') = length (ex_threads e)
     \<and> length (th_events (ex_threads e' ! i)) = Suc (length (th_events (ex_threads e ! i)))"
  by (auto simp: job_step_def job_event_def advance_def)

lemma job_steps_keep:
  assumes "(job_step i ^^ n) e e'" and "ex_reach e" and "\<not> ex_crashed e"
  shows "ex_reach e' \<and> \<not> ex_crashed e' \<and> ex_current e' = ex_current e
    \<and> length (ex_threads e') = length (ex_threads e) \<and> n \<le> length (th_events (ex_threads e' ! i))"
  using assms(1)
proof (induction n arbitrary: e')
  case 0
  with assms show ?case by simp
next
  case (Suc n)
  then obtain u where u: "(job_step i ^^ n) e u" "job_step i u e'" by (auto simp: relcompp_apply)
  from Suc.IH [OF u(1)] u(2) show ?case
    using job_step_keeps [OF u(2)] by (auto intro: reach.reach_step job_step_ex_step)
qed

lemma enabled_or_ended: "(\<exists>ev q. after p ev = Some q) \<or> (\<exists>oc. p = prog_of oc)"
proof (cases p)
  case (Return x)
  then show ?thesis by (intro disjI2 exI [of _ "Returned x"]) simp
next
  case Panic
  then show ?thesis by (intro disjI2 exI [of _ Panicked]) simp
next
  case (Now k)
  then show ?thesis by (intro disjI1 exI [of _ "EvNow 0"]) simp
next
  case (Do e p)
  then show ?thesis by (intro disjI1 exI [of _ "EvDo e"]) simp
next
  case (Call c k)
  then show ?thesis by (intro disjI1 exI [of _ "EvCall c None"]) simp
next
  case (ImageExists c img k)
  then show ?thesis by (intro disjI1 exI [of _ "EvExists c img True None"]) simp
next
  case (CreateContainer c cfg k)
  then show ?thesis by (intro disjI1 exI [of _ "EvCreate c cfg [] None"]) simp
next
  case (WaitContainer c cid k)
  then show ?thesis by (intro disjI1 exI [of _ "EvWait c cid 0 None"]) simp
next
  case (GetLogs c cid k)
  then show ?thesis by (intro disjI1 exI [of _ "EvLogs c cid [] [] None"]) simp
qed

text \<open>Where the goroutine of the current job has no step, the executor is ready.\<close>

lemma stuck_is_ready:
  assumes "ex_reach e" and "\<not> ex_crashed e" and "ex_current e = Some i" and "\<nexists>e'. job_step i e e'"
  shows "IsReady e"
proof -
  have inv: "ex_inv e" using assms(1) by (rule executor.reach_inv)
  then have i: "i < length (ex_jobs e)" "i < length (ex_threads e)"
    using assms(3) by (auto simp: ex_inv_def split: if_splits)
  then have f: "job_follows (ex_config e) (ex_jobs e ! i) (ex_threads e ! i)" using inv by (simp add: ex_inv_def)
  have "after (th_prog (ex_threads e ! i)) ev = None" for ev
    using assms(2,4) i(2) by (cases "after (th_prog (ex_threads e ! i)) ev") (auto simp: job_step_def)
  then obtain oc where "th_prog (ex_threads e ! i) = prog_of oc"
    using enabled_or_ended [of "th_prog (ex_threads e ! i)"] by auto
  then obtain ord job0 where
    "runs (executeJob ord (ex_config e) Background job0) (th_events (ex_threads e ! i)) = Some (prog_of oc)"
    using f by (auto simp: job_follows_def)
  from runs_ends [OF wp_last this] have "EvDo CloseDone \<in> set (th_events (ex_threads e ! i))"
    by (metis last_in_set)
  then have "rj_Done (ex_jobs e ! i)" using f by (simp add: job_follows_def event_effect)
  then show ?thesis using assms(3) by (simp add: IsReady_def current_job_def)
qed

lemma job_steps_bounded:
  assumes "ex_reach e" and "i < length (ex_threads e)"
  shows "length (th_events (ex_threads e ! i)) \<le> 25"
proof -
  have inv: "ex_inv e" using assms(1) by (rule executor.reach_inv)
  then have "job_follows (ex_config e) (ex_jobs e ! i) (ex_threads e ! i)"
    using assms(2) by (simp add: ex_inv_def)
  then show ?thesis unfolding job_follows_def using executeJob_bounded by metis
qed

lemma job_steps_finish:
  assumes "ex_reach e" and "\<not> ex_crashed e" and "ex_current e = Some i"
  shows "\<exists>e'. (job_step i)\<^sup>*\<^sup>* e e' \<and> IsReady e'"
proof (rule ccontr)
  assume no: "\<not> ?thesis"
  have i: "i < length (ex_threads e)"
    using executor.reach_inv [OF assms(1)] assms(3) by (auto simp: ex_inv_def split: if_splits)
  have "\<exists>e'. (job_step i ^^ n) e e'" for n
  proof (induction n)
    case (Suc n)
    then obtain u where u: "(job_step i ^^ n) e u" by blast
    note k = job_steps_keep [OF u assms(1,2)]
    have "\<not> IsReady u" using no u by (auto dest: relpowp_imp_rtranclp)
    then obtain e' where "job_step i u e'" using stuck_is_ready [of u i] k assms(3) by auto
    with u show ?case by (auto simp: relcompp_apply)
  qed simp
  then obtain u where "(job_step i ^^ 26) e u" by blast
  from job_steps_keep [OF this assms(1,2)] job_steps_bounded [of u i] i show False by simp
qed

text \<open>
  C8: from every reachable state of a living process with a job in progress, the goroutine of the
  current job alone brings the job to its end, whatever the runtime answers: its own steps lead
  to a state in which the executor is ready, and no sequence of them is longer than 25 or gets
  stuck before that, every one either has a next step or has reached such a state. What
  containers are left then are those whose removal has failed.
\<close>

theorem busy_worker_finishes:
  assumes "ex_reach e" and "\<not> ex_crashed e" and "\<not> IsReady e"
  shows "\<exists>i. ex_current e = Some i \<and> (\<exists>e'. (job_step i)\<^sup>*\<^sup>* e e' \<and> IsReady e')
     \<and> (\<forall>n e'. (job_step i ^^ n) e e' \<longrightarrow> n \<le> 25 \<and> \<not> ex_crashed e' \<and> ex_current e' = Some i
          \<and> ((\<exists>e''. job_step i e' e'') \<or> IsReady e' \<and> live_containers e' = leaked_containers e'))"
proof -
  obtain i where i: "ex_current e = Some i"
    using assms(3) by (cases "ex_current e") (auto simp: IsReady_def current_job_def)
  then have l: "i < length (ex_threads e)"
    using executor.reach_inv [OF assms(1)] by (auto simp: ex_inv_def split: if_splits)
  have "n \<le> 25 \<and> \<not> ex_crashed e' \<and> ex_current e' = Some i
      \<and> ((\<exists>e''. job_step i e' e'') \<or> IsReady e' \<and> live_containers e' = leaked_containers e')"
    if st: "(job_step i ^^ n) e e'" for n e'
  proof -
    note k = job_steps_keep [OF st assms(1,2)]
    then have "IsReady e' \<Longrightarrow> live_containers e' = leaked_containers e'"
      using live_containers_last [OF executor.reach_inv [of e']] by (metis append_Nil2)
    then show ?thesis
      using k i l job_steps_bounded [of e' i] stuck_is_ready [of e' i] by auto
  qed
  with i job_steps_finish [OF assms(1,2) i] show ?thesis by blast
qed

theorem busy_worker_finishes_witness:
  "\<exists>e'. (job_step 0)\<^sup>*\<^sup>* sample_busy e' \<and> IsReady e' \<and> \<not> IsReady sample_busy"
proof -
  have "\<not> IsReady sample_busy"
    by (simp add: sample_busy_def IsReady_def current_job_def launch_def NewExecutor_def new_job_def)
  with busy_worker_finishes [OF sample_busy_reach sample_busy_simps(1)] sample_busy_simps(2)
  show ?thesis by auto
qed

lemma log_end_state:
  assumes "ex_reach e" and "\<not> ex_crashed e" and "current_job e = Some job" and "\<not> rj_Done job"
  shows "\<exists>e' job'. ex_step\<^sup>*\<^sup>* e e' \<and> current_job e' = Some job' \<and> rj_ID job' = rj_ID job
     \<and> lb_closed (rj_LogBuffer job') \<and> GetResult (rj_ID job) e' = (None, False)
     \<and> (\<forall>r. rj_Result job = Some r \<longrightarrow> rj_Result job' = Some r)"
proof -
  obtain i fs p oc ord job0 where f: "ex_current e = Some i" "i < length (ex_threads e)" "job = ex_jobs e ! i"
    "runs (th_prog (ex_threads e ! i)) fs = Some p"
    "runs (executeJob ord (ex_config e) Background job0)
       (th_events (ex_threads e ! i) @ fs @ [EvDo CloseDone]) = Some (prog_of oc)"
    using busy_to_end [OF assms] by metis
  from run_thread [OF assms(1,2) f(2,4)] obtain e' where e': "ex_step\<^sup>*\<^sup>* e e'" "ex_reach e'"
    "ex_current e' = ex_current e" "length (ex_jobs e') = length (ex_jobs e)"
    "th_events (ex_threads e' ! i) = th_events (ex_threads e ! i) @ fs"
    "rj_ID (ex_jobs e' ! i) = rj_ID (ex_jobs e ! i)"
    by (metis thread.select_convs(2))
  let ?evs = "th_events (ex_threads e' ! i)"
  have full: "runs (executeJob ord (ex_config e) Background job0) (?evs @ [EvDo CloseDone]) = Some (prog_of oc)"
    using f(5) e'(5) by simp
  have "i < length (ex_jobs e')"
    using f(2) e'(4) executor.reach_inv [OF assms(1)] by (auto simp: ex_inv_def)
  then have fol: "job_follows (ex_config e') (ex_jobs e' ! i) (ex_threads e' ! i)"
    using executor.reach_inv [OF e'(2)] by (auto simp: ex_inv_def)
  obtain pre where "effects ?evs = pre @ [CancelTimeout, CancelJob, CloseBuffer]" "CloseDone \<notin> set pre"
    using runs_ends [OF wp_effect_order full] by (cases oc) (auto simp: closing_def effects_append)
  then have "CloseBuffer \<in> set (effects ?evs)" "CloseDone \<notin> set (effects ?evs)" by auto
  with fol have "lb_closed (rj_LogBuffer (ex_jobs e' ! i))" "\<not> rj_Done (ex_jobs e' ! i)"
    by (simp_all add: job_follows_def)
  moreover have "rj_Result (ex_jobs e' ! i) = Some r" if "rj_Result job = Some r" for r
  proof -
    have "job_follows (ex_config e) job (ex_threads e ! i)"
      using f(2,3) executor.reach_inv [OF assms(1)] by (simp add: ex_inv_def)
    then have old: "results (effects (th_events (ex_threads e ! i))) \<noteq> []"
      "last (results (effects (th_events (ex_threads e ! i)))) = r"
      using that by (auto simp: job_follows_def split: if_splits)
    have "length (results (effects (?evs @ [EvDo CloseDone]))) \<le> 1"
      using runs_ends [OF wp_result full] by (cases oc) auto
    then have "results (effects ?evs) = results (effects (th_events (ex_threads e ! i)))"
      using old(1) e'(5) by (cases "results (effects (th_events (ex_threads e ! i)))")
        (auto simp: effects_append results_append)
    with fol old show ?thesis by (simp add: job_follows_def)
  qed
  ultimately show ?thesis
    using e'(1,3,6) f(1,3) by (intro exI [of _ e'] exI [of _ "ex_jobs e' ! i"])
      (simp add: current_job_def GetResult_def)
qed

text \<open>
  The end of the log stream comes before the result. From every reachable state with a job
  in progress the worker can reach a state in which the job's log buffer is closed, so that its
  subscribers have seen the end of the stream, while \<open>GetResult\<close> still finds nothing: the
  closing event of the stream then reports the status as unknown.
\<close>

theorem log_ends_before_result:
  assumes "ex_reach e" and "\<not> ex_crashed e" and "current_job e = Some job" and "\<not> rj_Done job"
  shows "\<exists>e' job'. ex_step\<^sup>*\<^sup>* e e' \<and> current_job e' = Some job' \<and> rj_ID job' = rj_ID job
     \<and> lb_closed (rj_LogBuffer job') \<and> GetResult (rj_ID job) e' = (None, False)"
  using log_end_state [OF assms] by blast

theorem log_ends_before_result_witness:
  "\<exists>e' job'. ex_step\<^sup>*\<^sup>* sample_busy e' \<and> current_job e' = Some job'
     \<and> lb_closed (rj_LogBuffer job') \<and> GetResult sample_id e' = (None, False)"
proof -
  have "current_job sample_busy = Some (new_job sample_bytes sample_request)"
    by (simp add: sample_busy_def current_job_def launch_def NewExecutor_def)
  from log_ends_before_result [OF sample_busy_reach sample_busy_simps(1) this]
  show ?thesis by (auto simp: new_job_def sample_id_def)
qed

text \<open>
  A job that has ended has a result, unless its goroutine panicked: in every reachable state
  in which the current job is done, \<open>GetResult\<close> finds a result for its identifier exactly when
  the goroutine returned.
\<close>

theorem GetResult_complete:
  assumes "ex_reach e" and "current_job e = Some job" and "rj_Done job"
  shows "snd (GetResult (rj_ID job) e) \<longleftrightarrow>
     (\<exists>i. ex_current e = Some i \<and> th_prog (ex_threads e ! i) = Return ())"
proof -
  obtain i where i: "ex_current e = Some i" "job_follows (ex_config e) job (ex_threads e ! i)"
    using current_job_cases [OF executor.reach_inv [OF assms(1)] assms(2)] by metis
  from job_done_result [OF i(2) assms(3)] assms(2,3) i(1) show ?thesis
    by (cases "rj_Result job") (auto simp: GetResult_def)
qed

theorem GetResult_complete_witness:
  "\<exists>(e :: Executor) i. ex_current e = Some i \<and> th_prog (ex_threads e ! i) = Return ()"
proof -
  obtain e r where e: "ex_reach e" "GetResult sample_id e = (Some r, True)" using sample_finished_result .
  then obtain job where job: "current_job e = Some job" "rj_Done job" "rj_ID job = sample_id"
    by (auto simp: GetResult_def split: option.splits if_splits)
  have "snd (GetResult (rj_ID job) e)" using e(2) job(3) by simp
  with GetResult_complete [OF e(1) job(1,2)] show ?thesis by blast
qed

section \<open>What the log stream carries\<close>

lemma launched_reach:
  assumes "length rnd = 16"
  shows "ex_reach (launch ord (new_job rnd req) (NewExecutor cfg))"
proof -
  have "ex_reach (NewExecutor cfg)" by (rule reach_start) (auto simp: ex_start_def)
  moreover have "ex_step (NewExecutor cfg) (snd (Submit ord rnd req (NewExecutor cfg)))"
    by (rule ex_step.submit) (simp_all add: NewExecutor_def assms)
  moreover have "snd (Submit ord rnd req (NewExecutor cfg)) = launch ord (new_job rnd req) (NewExecutor cfg)"
    by (simp add: Submit_def Let_def IsReady_def current_job_def NewExecutor_def)
  ultimately show ?thesis by (metis reach.reach_step)
qed

text \<open>The first events of a job whose container starts.\<close>

definition started_events :: "string list \<Rightarrow> Config \<Rightarrow> JobRequest \<Rightarrow> event list" where
  "started_events ord cfg req =
     (let tctx = WithTimeout 0 Background (EffectiveTimeout req cfg) in
      [EvNow 0, EvNow 0, EvExists Background (req_Image req) True None,
       EvCreate tctx (BuildContainerConfig ord req cfg) ''c1'' None,
       EvCall (StartContainer tctx ''c1'') None, EvNow 0, EvDo (GoStream tctx ''c1'')])"

lemma started_events_run:
  "\<exists>p. runs (executeJob ord cfg Background (new_job rnd req)) (started_events ord cfg req) = Some p"
  by (simp add: started_events_def job_defs Let_def new_job_def)

text \<open>The streaming goroutine of a started job writes what the runtime returns.\<close>

lemma stdout_streamed:
  assumes "length rnd = 16" and "out \<noteq> []"
  shows "\<exists>e now. ex_reach e \<and> \<not> ex_crashed e \<and> StreamLogs (generateJobID rnd) e = Some 0
     \<and> rj_Request (ex_jobs e ! 0) = req
     \<and> lb_lines (rj_LogBuffer (ex_jobs e ! 0)) = [\<lparr>ll_Timestamp = now, ll_Stream = ''stdout'', ll_Data = out\<rparr>]"
proof -
  let ?e0 = "launch ord (new_job rnd req) (NewExecutor cfg)"
    and ?tctx = "WithTimeout 0 Background (EffectiveTimeout req cfg)"
  have e0: "\<not> ex_crashed ?e0" "length (ex_threads ?e0) = 1" "ex_current ?e0 = Some 0"
    "ex_streams ?e0 = []" "length (ex_jobs ?e0) = 1" "ex_jobs ?e0 ! 0 = new_job rnd req"
    "ex_threads ?e0 ! 0 = spawn (executeJob ord cfg Background (new_job rnd req))"
    by (simp_all add: launch_def NewExecutor_def)
  obtain p where "runs (executeJob ord cfg Background (new_job rnd req)) (started_events ord cfg req) = Some p"
    using started_events_run by blast
  then have p: "runs (th_prog (ex_threads ?e0 ! 0)) (started_events ord cfg req) = Some p"
    by (simp add: e0 spawn_def)
  have "0 < length (ex_threads ?e0)" by (simp add: e0)
  from run_thread [OF launched_reach [OF assms(1)] e0(1) this p] obtain e1 where e1:
    "ex_reach e1" "\<not> ex_crashed e1" "ex_current e1 = ex_current ?e0"
    "length (ex_jobs e1) = length (ex_jobs ?e0)"
    "ex_threads e1 ! 0 = \<lparr>th_prog = p, th_events = th_events (ex_threads ?e0 ! 0) @ started_events ord cfg req\<rparr>"
    "rj_ID (ex_jobs e1 ! 0) = rj_ID (ex_jobs ?e0 ! 0)" "rj_Request (ex_jobs e1 ! 0) = rj_Request (ex_jobs ?e0 ! 0)"
    "ex_streams e1 = ex_streams ?e0 @ concat (map (spawned 0) (started_events ord cfg req))"
    "lb_lines (rj_LogBuffer (ex_jobs e1 ! 0)) = lb_lines (rj_LogBuffer (ex_jobs ?e0 ! 0))"
    by metis
  have job1: "length (ex_jobs e1) = 1" "rj_ID (ex_jobs e1 ! 0) = generateJobID rnd"
    "rj_Request (ex_jobs e1 ! 0) = req" "lb_lines (rj_LogBuffer (ex_jobs e1 ! 0)) = []"
    "ex_streams e1 = [(0, spawn (streamContainerLogs ?tctx ''c1''))]" "ex_current e1 = Some 0"
    using e1 e0 by (simp_all add: new_job_def NewLogBuffer_def started_events_def Let_def)
  have "job_follows (ex_config e1) (ex_jobs e1 ! 0) (ex_threads e1 ! 0)"
    using executor.reach_inv [OF e1(1)] job1(1) by (simp add: ex_inv_def)
  then have open1: "\<not> lb_closed (rj_LogBuffer (ex_jobs e1 ! 0))"
    using e1(5) e0(7) by (simp add: job_follows_def started_events_def Let_def spawn_def)
  let ?e2 = "stream_event 0 0 (EvLogs ?tctx ''c1'' out [] None) (Do (WriteBuffer ''stdout'' out) (Return ())) e1"
  let ?e3 = "stream_event 0 0 (EvDo (WriteBuffer ''stdout'' out)) (Return ()) ?e2"
  have "ex_step e1 ?e2"
    using e1(2) job1(5) assms(2) by (intro ex_step.stream) (simp_all add: spawn_def streamContainerLogs_def)
  moreover have "ex_step ?e2 ?e3"
    using e1(2) job1(5) by (intro ex_step.stream) (simp_all add: stream_event_def advance_def)
  ultimately have "ex_reach ?e3" using e1(1) by (blast intro: reach.reach_step)
  moreover obtain j where "ex_jobs e1 = [j]" using job1(1) by (metis One_nat_def length_0_conv length_Suc_conv)
  ultimately show ?thesis
    using job1 open1 e1(2) by (intro exI [of _ ?e3]) (simp add: stream_event_def StreamLogs_def buf_Write_def)
qed

text \<open>
  C38: the log stream is not redacted. For every configuration, every request with whatever
  secrets, and every output, there is an execution in which the log buffer of the job, which
  \<^verbatim>\<open>GET /jobs/{id}/logs\<close> hands out, holds the container's output as it is.
\<close>

theorem streamed_logs_not_redacted:
  assumes "length rnd = 16" and "out \<noteq> []"
  shows "\<exists>e. ex_reach e \<and> StreamLogs (generateJobID rnd) e = Some 0
     \<and> rj_Request (ex_jobs e ! 0) = req \<and> map ll_Data (lb_lines (rj_LogBuffer (ex_jobs e ! 0))) = [out]"
proof -
  obtain e now where "ex_reach e" "StreamLogs (generateJobID rnd) e = Some 0" "rj_Request (ex_jobs e ! 0) = req"
    "lb_lines (rj_LogBuffer (ex_jobs e ! 0)) = [\<lparr>ll_Timestamp = now, ll_Stream = ''stdout'', ll_Data = out\<rparr>]"
    using stdout_streamed [OF assms] by blast
  then show ?thesis by (intro exI [of _ e]) simp
qed

theorem streamed_logs_not_redacted_witness:
  "\<exists>e. ex_reach e \<and> rj_Request (ex_jobs e ! 0) = rj_Request secret_job
     \<and> map ll_Data (lb_lines (rj_LogBuffer (ex_jobs e ! 0))) = [''PW=pw'']"
proof -
  have "length sample_bytes = 16" by (simp add: sample_bytes_def)
  moreover have "''PW=pw'' \<noteq> []" by simp
  ultimately obtain e where "ex_reach e" "rj_Request (ex_jobs e ! 0) = rj_Request secret_job"
    "map ll_Data (lb_lines (rj_LogBuffer (ex_jobs e ! 0))) = [''PW=pw'']"
    using streamed_logs_not_redacted by metis
  then show ?thesis by (intro exI [of _ e] conjI)
qed

end
