(* ===== verification/Job_Time.thy ===== *)
theory Job_Time
  imports Job_Properties Worker_Proofs
begin

text \<open>
  How long a job can take. Every call of the executor but one goes to the runtime under a
  deadline; with a runtime that keeps deadlines, up to a grace period, the goroutine ends within
  a time the configuration and the request determine. The theory gives the programs a reading
  in time and adds the deadlines up.
\<close>

section \<open>Runtimes that keep deadlines\<close>

fun call_ctx :: "err_call \<Rightarrow> Ctx" where
  "call_ctx (PullImage c img auth) = c"
| "call_ctx (StartContainer c cid) = c"
| "call_ctx (StopContainer c cid d) = c"
| "call_ctx (KillContainer c cid sig) = c"
| "call_ctx (RemoveContainer c cid) = c"

text \<open>
  A call that starts at \<open>t\<close> is back at \<open>t'\<close>: at most \<open>g\<close> after the deadline of its context, or
  after its start if the deadline had passed. Nothing is said of a context without deadline.
\<close>

definition in_time :: "int \<Rightarrow> Ctx \<Rightarrow> int \<Rightarrow> int \<Rightarrow> bool" where
  "in_time g c t t' \<longleftrightarrow> (\<forall>d. ctx_deadline c = Some d \<longrightarrow> t' \<le> max t d + g)"

text \<open>
  The look-up of the image runs under the job's context, which has no deadline, so that its
  duration is bounded by the assumption alone.
\<close>

definition punctual :: "('w \<Rightarrow> int) \<Rightarrow> int \<Rightarrow> 'w Runtime \<Rightarrow> bool" where
  "punctual clock g rt \<longleftrightarrow>
     (\<forall>c w err w'. do_call rt c w = (err, w') \<longrightarrow> in_time g (call_ctx c) (clock w) (clock w'))
     \<and> (\<forall>c img w x w'. rt_ImageExists rt c img w = (x, w') \<longrightarrow> clock w' \<le> clock w + g)
     \<and> (\<forall>c cfg w x w'. rt_CreateContainer rt c cfg w = (x, w') \<longrightarrow> in_time g c (clock w) (clock w'))
     \<and> (\<forall>c cid w x w'. rt_WaitContainer rt c cid w = (x, w') \<longrightarrow> in_time g c (clock w) (clock w'))
     \<and> (\<forall>c cid w x w'. rt_GetLogs rt c cid w = (x, w') \<longrightarrow> in_time g c (clock w) (clock w'))"

lemma in_time_WithTimeout: "in_time g (WithTimeout t0 c d) t t' \<Longrightarrow> t' \<le> max t (t0 + sint d) + g"
  by (cases "ctx_deadline c") (auto simp: in_time_def WithTimeout_def max_def min_def split: if_splits)

section \<open>Programs in time\<close>

text \<open>
  \<open>timed g p Q t\<close>: started at \<open>t\<close>, whatever the calls return and however long they take within
  their deadlines, \<open>p\<close> ends with an outcome and at a time that satisfy \<open>Q\<close>.
\<close>

primrec timed :: "int \<Rightarrow> 'a prog \<Rightarrow> ('a outcome \<Rightarrow> int \<Rightarrow> bool) \<Rightarrow> int \<Rightarrow> bool" where
  "timed g (Return x) Q = (\<lambda>t. Q (Returned x) t)"
| "timed g Panic Q = (\<lambda>t. Q Panicked t)"
| "timed g (Now k) Q = (\<lambda>t. timed g (k t) Q t)"
| "timed g (Do e p) Q = (\<lambda>t. timed g p Q t)"
| "timed g (Call c k) Q = (\<lambda>t. \<forall>err t'. in_time g (call_ctx c) t t' \<longrightarrow> timed g (k err) Q t')"
| "timed g (ImageExists c img k) Q = (\<lambda>t. \<forall>x err t'. t' \<le> t + g \<longrightarrow> timed g (k x err) Q t')"
| "timed g (CreateContainer c cfg k) Q = (\<lambda>t. \<forall>cid err t'. in_time g c t t' \<longrightarrow> timed g (k cid err) Q t')"
| "timed g (WaitContainer c cid k) Q = (\<lambda>t. \<forall>code err t'. in_time g c t t' \<longrightarrow> timed g (k code err) Q t')"
| "timed g (GetLogs c cid k) Q = (\<lambda>t. \<forall>out errs err t'. in_time g c t t' \<longrightarrow> timed g (k out errs err) Q t')"

lemma timed_mono: "timed g p Q t \<Longrightarrow> (\<And>oc t. Q oc t \<Longrightarrow> R oc t) \<Longrightarrow> timed g p R t"
  by (induction p arbitrary: t rule: prog_induct) auto

lemma timed_bind:
  "timed g (bind p f) Q t \<longleftrightarrow>
     timed g p (\<lambda>oc t. case oc of Returned x \<Rightarrow> timed g (f x) Q t | Panicked \<Rightarrow> Q Panicked t) t"
  by (induction p arbitrary: t rule: prog_induct) auto

lemma timed_deferring:
  "timed g (deferring d p) Q t \<longleftrightarrow>
     timed g p (\<lambda>oc t. timed g d (\<lambda>oc' t. Q (case oc' of Returned _ \<Rightarrow> oc | Panicked \<Rightarrow> Panicked) t) t) t"
proof (induction p arbitrary: t rule: prog_induct)
  case (Return x)
  then show ?case by (simp add: timed_bind) (rule iffI; erule timed_mono; simp split: outcome.splits)
next
  case Panic
  then show ?case by (simp add: timed_bind) (rule iffI; erule timed_mono; simp split: outcome.splits)
qed auto

text \<open>An execution against a punctual runtime is one of those.\<close>

lemma run_timed:
  assumes "punctual clock g rt"
  shows "timed g p Q (clock w) \<Longrightarrow> run clock rt p w = (es, oc, w') \<Longrightarrow> Q oc (clock w')"
proof (induction p arbitrary: w es rule: prog_induct)
  case (Call c k)
  obtain err u where u: "do_call rt c w = (err, u)" by fastforce
  then have "in_time g (call_ctx c) (clock w) (clock u)" using assms by (simp add: punctual_def)
  moreover obtain fs where "run clock rt (k err) u = (fs, oc, w')" using Call.prems(2) u by auto
  ultimately show ?case using Call.IH Call.prems(1) unfolding timed.simps by blast
next
  case (ImageExists c img k)
  obtain x err u where u: "rt_ImageExists rt c img w = ((x, err), u)" by (metis surj_pair)
  then have "clock u \<le> clock w + g" using assms unfolding punctual_def by blast
  moreover obtain fs where "run clock rt (k x err) u = (fs, oc, w')" using ImageExists.prems(2) u by auto
  ultimately show ?case using ImageExists.IH ImageExists.prems(1) unfolding timed.simps by blast
next
  case (CreateContainer c cfg k)
  obtain cid err u where u: "rt_CreateContainer rt c cfg w = ((cid, err), u)" by (metis surj_pair)
  then have "in_time g c (clock w) (clock u)" using assms unfolding punctual_def by blast
  moreover obtain fs where "run clock rt (k cid err) u = (fs, oc, w')" using CreateContainer.prems(2) u by auto
  ultimately show ?case using CreateContainer.IH CreateContainer.prems(1) unfolding timed.simps by blast
next
  case (WaitContainer c cid k)
  obtain code err u where u: "rt_WaitContainer rt c cid w = ((code, err), u)" by (metis surj_pair)
  then have "in_time g c (clock w) (clock u)" using assms unfolding punctual_def by blast
  moreover obtain fs where "run clock rt (k code err) u = (fs, oc, w')" using WaitContainer.prems(2) u by auto
  ultimately show ?case using WaitContainer.IH WaitContainer.prems(1) unfolding timed.simps by blast
next
  case (GetLogs c cid k)
  obtain out errs err u where u: "rt_GetLogs rt c cid w = (((out, errs), err), u)" by (metis surj_pair)
  then have "in_time g c (clock w) (clock u)" using assms unfolding punctual_def by blast
  moreover obtain fs where "run clock rt (k out errs err) u = (fs, oc, w')" using GetLogs.prems(2) u by auto
  ultimately show ?case using GetLogs.IH GetLogs.prems(1) unfolding timed.simps by blast
qed auto

section \<open>The parts of a job\<close>

text \<open>The end of \<open>p\<close>, started at \<open>t\<close>, is not after \<open>b\<close>.\<close>

abbreviation ends_by :: "int \<Rightarrow> 'a prog \<Rightarrow> int \<Rightarrow> int \<Rightarrow> bool" where
  "ends_by g p t b \<equiv> timed g p (\<lambda>_ t'. t' \<le> b) t"

lemma ends_by_bind:
  assumes "ends_by g p t c" and "\<And>x u. u \<le> c \<Longrightarrow> ends_by g (f x) u b" and "c \<le> b"
  shows "ends_by g (bind p f) t b"
  unfolding timed_bind
  by (rule timed_mono [OF assms(1)]) (use assms(2,3) in \<open>auto split: outcome.split\<close>)

lemma ends_by_deferring:
  assumes "ends_by g p t c" and "\<And>u. u \<le> c \<Longrightarrow> ends_by g d u b"
  shows "ends_by g (deferring d p) t b"
  unfolding timed_deferring
  by (rule timed_mono [OF assms(1)]) (use assms(2) in auto)

lemma ends_by_pull:
  assumes "0 \<le> g" and "t + max 0 (sint (cfg_ImagePullTimeout cfg)) + 2 * g \<le> b"
  shows "ends_by g (pullImageIfNeeded cfg ctx job) t b"
  using assms by (auto simp: pullImageIfNeeded_def Let_def split: option.split dest!: in_time_WithTimeout)

lemma ends_by_fail: "t \<le> b \<Longrightarrow> ends_by g (fail_job job start msg) t b"
  by (simp add: fail_job_def)

lemma sint_seconds:
  "sint (10 * second) = 10000000000" "sint (15 * second) = 15000000000" "sint (5 * second) = 5000000000"
  "sint (30 * second) = 30000000000" "sint (gracefulShutdownTimeout + 5 * second) = 15000000000"
  by (simp_all add: second_def gracefulShutdownTimeout_def)

lemma ends_by_handleTimeout:
  assumes "0 \<le> g" and "t + 20000000000 + 2 * g \<le> b"
  shows "ends_by g (handleTimeout cid) t b"
  using assms
  by (auto simp: handleTimeout_def Let_def sint_seconds split: option.split dest!: in_time_WithTimeout)

lemma ends_by_collect:
  assumes "0 \<le> g" and "t + 10000000000 + g \<le> b"
  shows "ends_by g (collect_output cfg job cid dur late code err) t b"
  using assms
  by (auto simp: collect_output_def Let_def sint_seconds split: option.split prod.split dest!: in_time_WithTimeout)

lemma ends_by_remove:
  assumes "0 \<le> g" and "t + 30000000000 + g \<le> b"
  shows "ends_by g (removeContainer cid) t b"
  using assms by (auto simp: removeContainer_def Let_def sint_seconds dest!: in_time_WithTimeout)

lemma ends_by_run:
  assumes "0 \<le> g" and "max t (t0 + sint T) + 30000000000 + 5 * g \<le> b"
  shows "ends_by g (run_container cfg job (WithTimeout t0 ctx T) start cid) t b"
proof -
  let ?D = "t0 + sint T" and ?tctx = "WithTimeout t0 ctx T"
  have wait: "ends_by g (bind (if err \<noteq> None then Now (\<lambda>t. Return (ctx_err ?tctx t)) else Return False)
      (\<lambda>late. bind (if late then handleTimeout cid else Return ())
        (\<lambda>_. Now (\<lambda>t. collect_output cfg job cid (time_since t exec) late code err)))) u b"
    if u: "u \<le> max t ?D + 2 * g" for u exec code and err :: "go_error option"
  proof (rule ends_by_bind [where c = u])
    fix late u' assume u': "u' \<le> u"
    show "ends_by g (bind (if late then handleTimeout cid else Return ())
        (\<lambda>_. Now (\<lambda>t. collect_output cfg job cid (time_since t exec) late code err))) u' b"
    proof (rule ends_by_bind [where c = "u + 20000000000 + 2 * g"])
      show "ends_by g (if late then handleTimeout cid else Return ()) u' (u + 20000000000 + 2 * g)"
        using u' assms(1) by (auto intro: ends_by_handleTimeout)
      show "ends_by g (Now (\<lambda>t. collect_output cfg job cid (time_since t exec) late code err)) v b"
        if "v \<le> u + 20000000000 + 2 * g" for v
        using that u assms by (simp) (rule ends_by_collect; simp)
    qed (use u assms in simp)
  qed (use u assms in auto)
  show ?thesis
    unfolding run_container_def timed.simps
  proof (intro allI impI)
    fix err u assume "in_time g (call_ctx (StartContainer ?tctx cid)) t u"
    then have u: "u \<le> max t ?D + g" by (simp add: in_time_WithTimeout)
    show "ends_by g (case err of
         Some e \<Rightarrow> fail_job job start (''container start failed: '' @ e)
       | None \<Rightarrow>
           Now (\<lambda>execStart.
             Do (GoStream ?tctx cid)
               (WaitContainer ?tctx cid (\<lambda>exitCode waitErr.
                 bind (if waitErr \<noteq> None then Now (\<lambda>t. Return (ctx_err ?tctx t))
                       else Return False) (\<lambda>timedOut.
                 bind (if timedOut then handleTimeout cid else Return ()) (\<lambda>_.
                 Now (\<lambda>t.
                   collect_output cfg job cid (time_since t execStart)
                     timedOut exitCode waitErr))))))) u b"
    proof (cases err)
      case None
      have "v \<le> max t ?D + 2 * g" if "in_time g ?tctx u v" for v
        using in_time_WithTimeout [OF that] u assms(1) by simp
      then show ?thesis unfolding None option.case timed.simps using wait by blast
    next
      case (Some e)
      with u assms show ?thesis by (simp add: ends_by_fail)
    qed
  qed
qed

lemma ends_by_executeJob:
  assumes "0 \<le> g"
  shows "ends_by g (executeJob ord cfg ctx job) t
    (t + max (max 0 (sint (cfg_ImagePullTimeout cfg)) + 2 * g) (sint (EffectiveTimeout (rj_Request job) cfg))
       + 60000000000 + 7 * g)"
proof -
  let ?T = "EffectiveTimeout (rj_Request job) cfg" and ?P = "max 0 (sint (cfg_ImagePullTimeout cfg)) + 2 * g"
  let ?A = "t + max ?P (sint ?T)"
  have later: "ends_by g (CreateContainer (WithTimeout t ctx ?T) ccfg (\<lambda>cid err. case err of
        Some e \<Rightarrow> fail_job job t (''container create failed: '' @ e)
      | None \<Rightarrow> deferring (removeContainer cid) (run_container cfg job (WithTimeout t ctx ?T) t cid))) u
      (?A + 60000000000 + 7 * g)" if u: "u \<le> t + ?P" for u ccfg
    unfolding timed.simps
  proof (intro allI impI)
    fix cid err v assume "in_time g (WithTimeout t ctx ?T) u v"
    then have v: "v \<le> ?A + g" using in_time_WithTimeout [of g t ctx ?T u v] u assms by simp
    show "ends_by g (case err of
        Some e \<Rightarrow> fail_job job t (''container create failed: '' @ e)
      | None \<Rightarrow> deferring (removeContainer cid) (run_container cfg job (WithTimeout t ctx ?T) t cid)) v
      (?A + 60000000000 + 7 * g)"
    proof (cases err)
      case None
      have "ends_by g (deferring (removeContainer cid) (run_container cfg job (WithTimeout t ctx ?T) t cid)) v
          (?A + 60000000000 + 7 * g)"
      proof (rule ends_by_deferring [where c = "?A + 30000000000 + 6 * g"])
        show "ends_by g (run_container cfg job (WithTimeout t ctx ?T) t cid) v (?A + 30000000000 + 6 * g)"
          using v assms by (intro ends_by_run) auto
        show "ends_by g (removeContainer cid) z (?A + 60000000000 + 7 * g)" if "z \<le> ?A + 30000000000 + 6 * g" for z
          using that assms by (intro ends_by_remove) auto
      qed
      with None show ?thesis by simp
    next
      case (Some e)
      with v assms show ?thesis by (simp add: ends_by_fail)
    qed
  qed
  have "ends_by g (bind (pullImageIfNeeded cfg ctx job) (\<lambda>err. case err of
        Some e \<Rightarrow> fail_job job t (''image pull failed: '' @ e)
      | None \<Rightarrow> CreateContainer (WithTimeout t ctx ?T) (BuildContainerConfig ord (rj_Request job) cfg) (\<lambda>cid err. case err of
          Some e \<Rightarrow> fail_job job t (''container create failed: '' @ e)
        | None \<Rightarrow> deferring (removeContainer cid) (run_container cfg job (WithTimeout t ctx ?T) t cid)))) t
      (?A + 60000000000 + 7 * g)"
  proof (rule ends_by_bind [where c = "t + ?P"])
    show "ends_by g (pullImageIfNeeded cfg ctx job) t (t + ?P)" using assms by (intro ends_by_pull) auto
    fix err u assume u: "u \<le> t + ?P"
    show "ends_by g (case err of
        Some e \<Rightarrow> fail_job job t (''image pull failed: '' @ e)
      | None \<Rightarrow> CreateContainer (WithTimeout t ctx ?T) (BuildContainerConfig ord (rj_Request job) cfg) (\<lambda>cid err. case err of
          Some e \<Rightarrow> fail_job job t (''container create failed: '' @ e)
        | None \<Rightarrow> deferring (removeContainer cid) (run_container cfg job (WithTimeout t ctx ?T) t cid))) u
      (?A + 60000000000 + 7 * g)"
    proof (cases err)
      case None
      then show ?thesis using later [OF u] by (simp only: option.case)
    next
      case (Some e)
      with u assms show ?thesis by (simp add: ends_by_fail)
    qed
  qed (use assms in auto)
  then show ?thesis
    unfolding executeJob_def execute_body_def Let_def
    by (simp only: timed_deferring timed.simps)
qed

text \<open>
  C15: with a runtime that keeps its deadlines up to a grace period \<open>g\<close>, the goroutine of a job
  ends, having closed \<^verbatim>\<open>Done\<close> as its last action, after at most the pull timeout with two grace
  periods or the effective timeout of the job, whichever is longer, plus a minute for stopping,
  killing, reading the logs and removing (15, 5, 10 and 30 seconds), plus seven grace periods.
  The assumption on the look-up of the image cannot be derived from a deadline, since it has none.
\<close>

theorem executeJob_ends_in_time:
  assumes "punctual clock g rt" and "0 \<le> g"
    and "run clock rt (executeJob ord cfg ctx job) w = (es, oc, w')"
  shows "clock w' \<le> clock w
      + max (max 0 (sint (cfg_ImagePullTimeout cfg)) + 2 * g) (sint (EffectiveTimeout (rj_Request job) cfg))
      + 60 * 1000000000 + 7 * g
    \<and> es \<noteq> [] \<and> last es = EvDo CloseDone"
  using run_timed [OF assms(1) ends_by_executeJob [OF assms(2)] assms(3)]
    run_ends [OF wp_last assms(3)] by simp

text \<open>A runtime whose world is the time and every call of which takes until its deadline.\<close>

definition until_deadline :: "Ctx \<Rightarrow> int \<Rightarrow> int" where
  "until_deadline c t = (case ctx_deadline c of None \<Rightarrow> t | Some d \<Rightarrow> max t d)"

definition slow_runtime :: "int Runtime" where
  "slow_runtime =
     \<lparr>rt_Ping = \<lambda>c t. (None, until_deadline c t), rt_PullImage = \<lambda>c img auth t. (None, until_deadline c t),
      rt_ImageExists = \<lambda>c img t. ((False, None), t),
      rt_CreateContainer = \<lambda>c cfg t. ((''c1'', None), until_deadline c t),
      rt_StartContainer = \<lambda>c cid t. (None, until_deadline c t),
      rt_WaitContainer = \<lambda>c cid t. ((0, Some ''deadline''), until_deadline c t),
      rt_StopContainer = \<lambda>c cid d t. (Some ''deadline'', until_deadline c t),
      rt_KillContainer = \<lambda>c cid sig t. (None, until_deadline c t),
      rt_GetLogs = \<lambda>c cid t. ((([], []), None), until_deadline c t),
      rt_RemoveContainer = \<lambda>c cid t. (None, until_deadline c t)\<rparr>"

lemma slow_runtime_punctual: "punctual (\<lambda>t. t) 0 slow_runtime"
proof -
  have c: "in_time 0 c t (until_deadline c t)" for c t by (simp add: in_time_def until_deadline_def)
  have "snd (do_call slow_runtime e t) = until_deadline (call_ctx e) t" for e t
    by (cases e) (simp_all add: slow_runtime_def)
  then have "do_call slow_runtime e t = (err, t') \<Longrightarrow> in_time 0 (call_ctx e) t t'" for e t err t'
    using c by (metis snd_conv)
  then show ?thesis using c by (auto simp: punctual_def slow_runtime_def)
qed

theorem executeJob_ends_in_time_witness:
  "\<exists>es oc t. run (\<lambda>t. t) slow_runtime (executeJob [] sample_config Background sample_job) 0 = (es, oc, t)
     \<and> t \<le> 180 * 1000000000 \<and> last es = EvDo CloseDone"
proof -
  obtain es oc t where r: "run (\<lambda>t. t) slow_runtime (executeJob [] sample_config Background sample_job) 0 = (es, oc, t)"
    by (metis prod_cases3)
  have "sint (EffectiveTimeout (rj_Request sample_job) sample_config) = 30000000000"
    by (simp add: EffectiveTimeout_def sample_job_def sample_request_def sample_config_def second_def i64_less_iff)
  moreover have "sint (cfg_ImagePullTimeout sample_config) = 120000000000"
    by (simp add: sample_config_def second_def)
  ultimately show ?thesis
    using executeJob_ends_in_time [OF slow_runtime_punctual order_refl r] r by auto
qed

text \<open>
  The exception: in no execution has the look-up of the image a deadline, neither the job's timeout
  nor another, so an engine that does not answer it keeps the worker busy for good.
\<close>

theorem image_check_without_deadline:
  assumes "runs (executeJob ord cfg Background job) es = Some q" and "EvExists c img x err \<in> set es"
  shows "ctx_deadline c = None"
proof -
  have "list_all (\<lambda>ev. \<forall>c img x err. ev = EvExists c img x err \<longrightarrow> ctx_deadline c = None) es"
    using assms(1) by (rule runs_all [rotated])
      (simp add: job_defs wp_simps Background_def split: option.splits prod.splits)
  with assms(2) show ?thesis by (auto simp: list_all_iff)
qed

end
