(* ===== verification/Live_Logs.thy ===== *)
theory Live_Logs
  imports Worker_Properties Log_Buffer_Proofs
begin

text \<open>
  The log streams of the running worker: the executor with its goroutines and, beside them, the
  subscriber goroutines that \<open>StreamLogs\<close> starts on the buffers of its jobs. The theory puts the
  two step relations together and says what a client of a stream can receive.
\<close>

section \<open>The system\<close>

text \<open>A subscriber comes with the address of the job whose buffer it reads.\<close>

record worker_sys =
  ws_exec :: Executor
  ws_subs :: "(nat \<times> subscriber) list"

abbreviation job_buffer :: "Executor \<Rightarrow> nat \<Rightarrow> LogBuffer" where
  "job_buffer e i \<equiv> rj_LogBuffer (ex_jobs e ! i)"

definition with_buffer :: "nat \<Rightarrow> LogBuffer \<Rightarrow> Executor \<Rightarrow> Executor" where
  "with_buffer i b e = e\<lparr>ex_jobs := (ex_jobs e)[i := (ex_jobs e ! i)\<lparr>rj_LogBuffer := b\<rparr>]\<rparr>"

inductive ws_step :: "worker_sys \<Rightarrow> worker_sys \<Rightarrow> bool" where
  ws_executor: "ex_step (ws_exec s) e \<Longrightarrow> ws_step s (s\<lparr>ws_exec := e\<rparr>)"
| ws_subscribe: "\<not> ex_crashed (ws_exec s) \<Longrightarrow> StreamLogs jid (ws_exec s) = Some i \<Longrightarrow>
    ws_step s (s\<lparr>ws_subs := ws_subs s @ [(i, Subscribe)]\<rparr>)"
| ws_run: "\<not> ex_crashed (ws_exec s) \<Longrightarrow> k < length (ws_subs s) \<Longrightarrow> ws_subs s ! k = (i, u) \<Longrightarrow>
    sub_step (job_buffer (ws_exec s) i) u b u' \<Longrightarrow>
    ws_step s (s\<lparr>ws_exec := with_buffer i b (ws_exec s), ws_subs := (ws_subs s)[k := (i, u')]\<rparr>)"
| ws_receive: "k < length (ws_subs s) \<Longrightarrow> ws_subs s ! k = (i, u) \<Longrightarrow> sub_chan u = l # ls \<Longrightarrow>
    ws_step s (s\<lparr>ws_subs := (ws_subs s)[k := (i, u\<lparr>sub_chan := ls, sub_got := sub_got u @ [l]\<rparr>)]\<rparr>)"
| ws_cancel: "k < length (ws_subs s) \<Longrightarrow> ws_subs s ! k = (i, u) \<Longrightarrow>
    ws_step s (s\<lparr>ws_subs := (ws_subs s)[k := (i, u\<lparr>sub_cancelled := True\<rparr>)]\<rparr>)"

definition ws_start :: "worker_sys \<Rightarrow> bool" where
  "ws_start s \<longleftrightarrow> ex_start (ws_exec s) \<and> ws_subs s = []"

abbreviation ws_reach :: "worker_sys \<Rightarrow> bool" where
  "ws_reach \<equiv> reach ws_start ws_step"

section \<open>What a streaming goroutine writes\<close>

fun written :: "event list \<Rightarrow> (string \<times> string) list" where
  "written [] = []"
| "written (EvDo (WriteBuffer st data) # es) = (st, data) # written es"
| "written (_ # es) = written es"

lemma written_append: "written (es @ fs) = written es @ written fs"
  by (induction es rule: written.induct) auto

text \<open>The whole of standard output and of standard error, each as one chunk unless it is empty.\<close>

definition chunks :: "string \<Rightarrow> string \<Rightarrow> (string \<times> string) list" where
  "chunks out errs =
     (if out = [] then [] else [(''stdout'', out)]) @ (if errs = [] then [] else [(''stderr'', errs)])"

fun chunks_of :: "event list \<Rightarrow> (string \<times> string) list" where
  "chunks_of (EvLogs c cid out errs None # es) = chunks out errs"
| "chunks_of _ = []"

lemma wp_stream:
  "wp (streamContainerLogs c cid) (\<lambda>es oc. es \<noteq> [] \<and> written es = chunks_of es) []"
  by (simp add: streamContainerLogs_def wp_simps chunks_def split: option.split)

lemma stream_written:
  assumes "runs (streamContainerLogs c cid) es = Some q"
  shows "prefix (written es) (chunks_of es)"
proof (cases es)
  case (Cons ev es')
  obtain fs oc where "runs (streamContainerLogs c cid) (es @ fs) = Some (prog_of oc)"
    using runs_to_end [OF assms] .
  then have "written (es @ fs) = chunks_of (es @ fs)" using runs_ends [OF wp_stream] by blast
  moreover have "chunks_of (es @ fs) = chunks_of es" using Cons by (cases "ev # es'" rule: chunks_of.cases) auto
  ultimately show ?thesis by (simp add: written_append) (metis prefixI)
qed simp

section \<open>One streaming goroutine per job\<close>

definition streams_of :: "Executor \<Rightarrow> nat \<Rightarrow> thread list" where
  "streams_of e i = map snd (filter (\<lambda>(j, t). j = i) (ex_streams e))"

fun go_streams :: "event list \<Rightarrow> nat" where
  "go_streams [] = 0"
| "go_streams (EvDo (GoStream c cid) # es) = Suc (go_streams es)"
| "go_streams (_ # es) = go_streams es"

lemma go_streams_append: "go_streams (es @ fs) = go_streams es + go_streams fs"
  by (induction es rule: go_streams.induct) auto

lemma wp_go_streams: "wp (executeJob ord cfg ctx job) (\<lambda>es oc. go_streams es \<le> 1) []"
  by (simp add: job_defs wp_simps split: option.splits prod.splits)

lemma one_stream:
  assumes "runs (executeJob ord cfg ctx job) es = Some q"
  shows "go_streams es \<le> 1"
proof -
  obtain fs oc where "runs (executeJob ord cfg ctx job) (es @ fs) = Some (prog_of oc)"
    using runs_to_end [OF assms] .
  from runs_ends [OF wp_go_streams this] show ?thesis by (simp add: go_streams_append)
qed

lemma filter_spawned: "filter (\<lambda>(j', t). j' = j) (spawned i ev) = (if j = i then spawned i ev else [])"
  by (cases "(i, ev)" rule: spawned.cases) auto

lemma length_spawned: "length (spawned i ev) = go_streams [ev]"
  by (cases "(i, ev)" rule: spawned.cases) auto

section \<open>The invariant\<close>

definition buffer_text :: "LogBuffer \<Rightarrow> (string \<times> string) list" where
  "buffer_text b = map (\<lambda>l. (ll_Stream l, ll_Data l)) (lb_lines b)"

definition all_written :: "thread list \<Rightarrow> (string \<times> string) list" where
  "all_written ts = concat (map (\<lambda>t. written (th_events t)) ts)"

text \<open>A buffer holds what was written, or what was written of it before it was closed.\<close>

definition fed :: "LogBuffer \<Rightarrow> (string \<times> string) list \<Rightarrow> bool" where
  "fed b w \<longleftrightarrow> prefix (buffer_text b) w \<and> (\<not> lb_closed b \<longrightarrow> buffer_text b = w)"

lemma fed_simps [simp]:
  "fed NewLogBuffer []" "fed b w \<Longrightarrow> fed (buf_Close b) w" "fed (b\<lparr>lb_notify := x\<rparr>) w = fed b w"
  by (auto simp: fed_def buffer_text_def NewLogBuffer_def buf_Close_def)

lemma fed_Write:
  "fed b w \<Longrightarrow> fed (buf_Write \<lparr>ll_Timestamp = now, ll_Stream = st, ll_Data = data\<rparr> b) (w @ [(st, data)])"
  by (auto simp: fed_def buffer_text_def buf_Write_def prefix_append)

definition live_inv :: "Executor \<Rightarrow> bool" where
  "live_inv e \<longleftrightarrow> ex_inv e \<and>
     (\<forall>i < length (ex_jobs e). length (streams_of e i) = go_streams (th_events (ex_threads e ! i))
        \<and> fed (job_buffer e i) (all_written (streams_of e i)))"

lemma streams_of_le_1:
  assumes "live_inv e" and "i < length (ex_jobs e)"
  shows "length (streams_of e i) \<le> 1"
proof -
  have "job_follows (ex_config e) (ex_jobs e ! i) (ex_threads e ! i)"
    using assms by (simp add: live_inv_def ex_inv_def)
  then have "go_streams (th_events (ex_threads e ! i)) \<le> 1" unfolding job_follows_def using one_stream by metis
  with assms show ?thesis by (simp add: live_inv_def)
qed

text \<open>What an event does to the buffer of its job.\<close>

lemma event_buffer:
  "no_log_write ev \<Longrightarrow> rj_LogBuffer (apply_event now ev job) = rj_LogBuffer job
     \<or> rj_LogBuffer (apply_event now ev job) = buf_Close (rj_LogBuffer job)"
  by (cases "(now, ev, job)" rule: apply_event.cases;
      cases "(now, case ev of EvDo x \<Rightarrow> x | _ \<Rightarrow> CloseDone, job)" rule: apply_effect.cases) auto

lemma stream_event_fed:
  "only_log_write ev \<Longrightarrow> fed (rj_LogBuffer job) (written es) \<Longrightarrow>
     fed (rj_LogBuffer (apply_event now ev job)) (written (es @ [ev]))"
  by (cases ev rule: only_log_write.cases) (simp_all add: written_append fed_Write)

lemma live_inv_launch:
  assumes "live_inv e" and "IsReady e" and "length rnd = 16"
  shows "live_inv (launch ord (new_job rnd req) e)"
proof -
  have inv: "ex_inv e" using assms(1) by (simp add: live_inv_def)
  have "ex_inv (launch ord (new_job rnd req) e)" using inv assms(2,3) by (rule ex_inv_launch)
  moreover have "streams_of (launch ord (new_job rnd req) e) i = streams_of e i" for i
    by (simp add: streams_of_def launch_def)
  moreover have "streams_of e (length (ex_jobs e)) = []"
    using inv by (auto simp: streams_of_def ex_inv_def filter_empty_conv)
  moreover have "length (ex_threads e) = length (ex_jobs e)" using inv by (simp add: ex_inv_def)
  ultimately show ?thesis using assms(1)
    by (auto simp: live_inv_def launch_def nth_append less_Suc_eq new_job_def spawn_def all_written_def)
qed

lemma live_inv_job:
  assumes "live_inv e" and "i < length (ex_threads e)" and "after (th_prog (ex_threads e ! i)) ev = Some p"
  shows "live_inv (job_event now i ev p e)"
proof -
  have inv: "ex_inv e" using assms(1) by (simp add: live_inv_def)
  have ej: "ex_inv (job_event now i ev p e)" using inv assms(2,3) by (rule ex_inv_job)
  have l: "length (ex_threads e) = length (ex_jobs e)" using inv by (simp add: ex_inv_def)
  have "job_follows (ex_config e) (ex_jobs e ! i) (ex_threads e ! i)" using inv assms(2) l by (simp add: ex_inv_def)
  then obtain ord job0 where "runs (executeJob ord (ex_config e) Background job0) (th_events (ex_threads e ! i) @ [ev]) = Some p"
    using assms(3) by (auto simp: job_follows_def intro: runs_snoc)
  then have "no_log_write ev" using job_no_log_write by fastforce
  note b = event_buffer [OF this, of now "ex_jobs e ! i"]
  have s: "streams_of (job_event now i ev p e) j = streams_of e j @ (if j = i then map snd (spawned i ev) else [])" for j
    by (simp add: streams_of_def job_event_def filter_spawned)
  have w: "all_written (ts @ (if j = i then map snd (spawned i ev) else [])) = all_written ts" for ts j
    by (cases "(i, ev)" rule: spawned.cases) (simp_all add: all_written_def spawn_def)
  show ?thesis unfolding live_inv_def
  proof (intro conjI allI impI ej)
    fix j assume j: "j < length (ex_jobs (job_event now i ev p e))"
    then show "length (streams_of (job_event now i ev p e) j) = go_streams (th_events (ex_threads (job_event now i ev p e) ! j))"
      unfolding s using assms(1,2) l length_spawned [of i ev]
      by (auto simp: live_inv_def job_event_def nth_list_update advance_def go_streams_append)
    show "fed (job_buffer (job_event now i ev p e) j) (all_written (streams_of (job_event now i ev p e) j))"
      unfolding s w using assms(1,2) l b j by (auto simp: live_inv_def job_event_def nth_list_update)
  qed
qed

lemma streams_of_update:
  assumes "k < length (ex_streams e)" and "ex_streams e ! k = (i, t)" and "length (streams_of e i) \<le> 1"
    and "ex_streams e' = (ex_streams e)[k := (i, t')]"
  shows "streams_of e i = [t]" and "streams_of e' i = [t']" and "j \<noteq> i \<Longrightarrow> streams_of e' j = streams_of e j"
proof -
  let ?f = "\<lambda>j xs. map snd (filter (\<lambda>(j', t). j' = j) xs)"
  have o: "ex_streams e = take k (ex_streams e) @ (i, t) # drop (Suc k) (ex_streams e)"
    using id_take_nth_drop [OF assms(1)] assms(2) by simp
  have n: "ex_streams e' = take k (ex_streams e) @ (i, t') # drop (Suc k) (ex_streams e)"
    using assms(1,4) by (simp add: upd_conv_take_nth_drop)
  have oi: "streams_of e j = ?f j (take k (ex_streams e)) @ (if j = i then [t] else []) @ ?f j (drop (Suc k) (ex_streams e))" for j
    unfolding streams_of_def by (subst o) simp
  have ni: "streams_of e' j = ?f j (take k (ex_streams e)) @ (if j = i then [t'] else []) @ ?f j (drop (Suc k) (ex_streams e))" for j
    unfolding streams_of_def by (subst n) simp
  have "?f i (take k (ex_streams e)) = []" "?f i (drop (Suc k) (ex_streams e)) = []"
    using assms(3) oi [of i] by auto
  then show "streams_of e i = [t]" "streams_of e' i = [t']" using oi [of i] ni [of i] by simp_all
  show "j \<noteq> i \<Longrightarrow> streams_of e' j = streams_of e j" using oi [of j] ni [of j] by simp
qed

lemma live_inv_stream:
  assumes "live_inv e" and "k < length (ex_streams e)"
    and "after (th_prog (snd (ex_streams e ! k))) ev = Some p"
  shows "live_inv (stream_event now k ev p e)"
proof -
  obtain i t where k: "ex_streams e ! k = (i, t)" by (cases "ex_streams e ! k")
  have inv: "ex_inv e" using assms(1) by (simp add: live_inv_def)
  have es: "ex_inv (stream_event now k ev p e)" using inv assms(2,3) by (rule ex_inv_stream)
  have it: "i < length (ex_jobs e)" "stream_follows t"
    using inv k nth_mem [OF assms(2)] by (auto simp: ex_inv_def)
  then obtain c cid where "runs (streamContainerLogs c cid) (th_events t @ [ev]) = Some p"
    using assms(3) k by (auto simp: stream_follows_def intro: runs_snoc)
  then have ev: "only_log_write ev" using stream_only_log_write by fastforce
  have "ex_streams (stream_event now k ev p e) = (ex_streams e)[k := (i, advance p ev t)]"
    by (simp add: stream_event_def k)
  note s = streams_of_update [OF assms(2) k streams_of_le_1 [OF assms(1) it(1)] this]
  have f: "fed (job_buffer e i) (written (th_events t))"
    using assms(1) it(1) s(1) by (auto simp: live_inv_def all_written_def)
  show ?thesis unfolding live_inv_def
  proof (intro conjI allI impI es)
    fix j assume j: "j < length (ex_jobs (stream_event now k ev p e))"
    show "length (streams_of (stream_event now k ev p e) j) = go_streams (th_events (ex_threads (stream_event now k ev p e) ! j))"
      using assms(1) j s by (cases "j = i") (auto simp: live_inv_def stream_event_def k)
    show "fed (job_buffer (stream_event now k ev p e) j) (all_written (streams_of (stream_event now k ev p e) j))"
    proof (cases "j = i")
      case True
      then show ?thesis using stream_event_fed [OF ev f, of now] it(1) s(2)
        by (simp add: all_written_def stream_event_def k advance_def)
    next
      case False
      then show ?thesis using assms(1) j s(3) by (auto simp: live_inv_def stream_event_def k)
    qed
  qed
qed

lemma live_inv_step: "ex_step e e' \<Longrightarrow> live_inv e \<Longrightarrow> live_inv e'"
proof (induction rule: ex_step.induct)
  case (submit e rnd order req)
  then show ?case by (auto simp: Submit_def Let_def live_inv_launch)
next
  case (panic e i)
  then show ?case by (simp add: live_inv_def ex_inv_def streams_of_def)
qed (auto intro: live_inv_job live_inv_stream)

section \<open>Subscribers beside the executor\<close>

definition ws_inv :: "worker_sys \<Rightarrow> bool" where
  "ws_inv s \<longleftrightarrow> live_inv (ws_exec s)
     \<and> list_all (\<lambda>(i, u). i < length (ex_jobs (ws_exec s)) \<and> sub_inv (job_buffer (ws_exec s) i) u) (ws_subs s)"

lemma sub_inv_event: "sub_inv (rj_LogBuffer job) u \<Longrightarrow> sub_inv (rj_LogBuffer (apply_event now ev job)) u"
  by (cases "(now, ev, job)" rule: apply_event.cases;
      cases "(now, case ev of EvDo x \<Rightarrow> x | _ \<Rightarrow> CloseDone, job)" rule: apply_effect.cases)
    (simp_all add: sub_inv_Write sub_inv_Close)

lemma sub_inv_jobs:
  "i < length jobs \<Longrightarrow> sub_inv (rj_LogBuffer (jobs ! i)) u \<Longrightarrow>
     sub_inv (rj_LogBuffer (jobs[j := apply_event now ev (jobs ! j)] ! i)) u"
  by (cases "j = i") (simp_all add: sub_inv_event)

lemma sub_inv_ex_step:
  assumes "ex_step e e'" and "i < length (ex_jobs e)" and "sub_inv (job_buffer e i) u"
  shows "i < length (ex_jobs e') \<and> sub_inv (job_buffer e' i) u"
  using assms
proof (induction rule: ex_step.induct)
  case (submit e rnd order req)
  then show ?case by (auto simp: Submit_def Let_def launch_def nth_append)
qed (auto simp: job_event_def stream_event_def sub_inv_jobs split: prod.splits)

lemma with_buffer_inv:
  assumes "live_inv e" and "i < length (ex_jobs e)" and "b = job_buffer e i \<or> b = (job_buffer e i)\<lparr>lb_notify := False\<rparr>"
  shows "live_inv (with_buffer i b e)"
proof -
  have "job_follows (ex_config e) ((ex_jobs e ! i)\<lparr>rj_LogBuffer := b\<rparr>) t = job_follows (ex_config e) (ex_jobs e ! i) t" for t
    using assms(3) by (auto simp: job_follows_def)
  then have "ex_inv (with_buffer i b e)"
    using assms(1,2) by (auto simp: live_inv_def ex_inv_def with_buffer_def nth_list_update)
  moreover have "streams_of (with_buffer i b e) j = streams_of e j" for j
    by (simp add: streams_of_def with_buffer_def)
  ultimately show ?thesis
    using assms by (auto simp: live_inv_def with_buffer_def nth_list_update)
qed

lemma sub_inv_receive:
  "sub_inv b u \<Longrightarrow> sub_chan u = l # ls \<Longrightarrow> sub_inv b (u\<lparr>sub_chan := ls, sub_got := sub_got u @ [l]\<rparr>)"
  by (simp add: sub_inv_def sub_sent_def split: sub_pc.splits)

lemma sub_inv_cancel: "sub_inv b u \<Longrightarrow> sub_inv b (u\<lparr>sub_cancelled := True\<rparr>)"
  by (auto simp: sub_inv_def sub_sent_def split: sub_pc.splits)

lemma ws_step_inv: "ws_step s t \<Longrightarrow> ws_inv s \<Longrightarrow> ws_inv t"
proof (induction rule: ws_step.induct)
  case (ws_executor s e)
  then show ?case
    by (auto simp: ws_inv_def list_all_iff live_inv_step dest: sub_inv_ex_step)
next
  case (ws_subscribe s jid i)
  then have "i < length (ex_jobs (ws_exec s))"
    by (auto simp: StreamLogs_def ws_inv_def live_inv_def ex_inv_def split: option.splits if_splits)
  with ws_subscribe show ?case by (simp add: ws_inv_def sub_inv_Subscribe)
next
  case (ws_run s k i u b u')
  have i: "i < length (ex_jobs (ws_exec s))" "sub_inv (job_buffer (ws_exec s) i) u"
    using ws_run by (auto simp: ws_inv_def list_all_length)
  have b: "b = job_buffer (ws_exec s) i \<or> b = (job_buffer (ws_exec s) i)\<lparr>lb_notify := False\<rparr>"
    using ws_run by (blast dest: sub_step_buffer)
  have "sub_inv b u'" using ws_run(4) i(2) by (rule sub_step_inv)
  moreover have "live_inv (with_buffer i b (ws_exec s))"
    using ws_run i(1) b by (intro with_buffer_inv) (simp_all add: ws_inv_def)
  moreover have "list_all (\<lambda>(j, v). j < length (ex_jobs (with_buffer i b (ws_exec s)))
      \<and> sub_inv (job_buffer (with_buffer i b (ws_exec s)) j) v) (ws_subs s)"
    using ws_run b i(1) by (auto simp: ws_inv_def with_buffer_def list_all_iff nth_list_update sub_inv_notify)
  ultimately show ?case using i(1)
    by (simp add: ws_inv_def list_all_update) (simp add: with_buffer_def list_all_update)
next
  case (ws_receive k s i u l ls)
  then have "i < length (ex_jobs (ws_exec s))" "sub_inv (job_buffer (ws_exec s) i) u"
    by (auto simp: ws_inv_def list_all_length)
  with ws_receive show ?case by (simp add: ws_inv_def list_all_update sub_inv_receive)
next
  case (ws_cancel k s i u)
  then have "i < length (ex_jobs (ws_exec s))" "sub_inv (job_buffer (ws_exec s) i) u"
    by (auto simp: ws_inv_def list_all_length)
  with ws_cancel show ?case by (simp add: ws_inv_def list_all_update sub_inv_cancel)
qed

interpretation live: invariant_system ws_start ws_step ws_inv
proof unfold_locales
  show "ws_start s \<Longrightarrow> ws_inv s" for s
    by (auto simp: ws_start_def ex_start_def ws_inv_def live_inv_def NewExecutor_def ex_inv_def)
qed (rule ws_step_inv)

section \<open>What a client receives\<close>

lemma chunks_length: "length (chunks out errs) \<le> 2"
  by (simp add: chunks_def)

lemma live_buffer_text:
  assumes "live_inv e" and "i < length (ex_jobs e)"
  shows "\<exists>out errs. prefix (buffer_text (job_buffer e i)) (chunks out errs)
    \<and> (buffer_text (job_buffer e i) \<noteq> [] \<longrightarrow>
         (\<exists>t c cid. (i, t) \<in> set (ex_streams e) \<and> EvLogs c cid out errs None \<in> set (th_events t)))"
proof (cases "streams_of e i")
  case Nil
  have "fed (job_buffer e i) (all_written (streams_of e i))" using assms by (simp add: live_inv_def)
  with Nil have "buffer_text (job_buffer e i) = []" by (simp add: fed_def all_written_def split: if_splits)
  then show ?thesis by simp
next
  case (Cons t ts)
  then have t: "streams_of e i = [t]" using streams_of_le_1 [OF assms] by simp
  then have mem: "(i, t) \<in> set (ex_streams e)" by (auto simp: streams_of_def filter_eq_Cons_iff)
  then have "stream_follows t" using assms(1) by (auto simp: live_inv_def ex_inv_def)
  then obtain c cid where "prefix (written (th_events t)) (chunks_of (th_events t))"
    unfolding stream_follows_def using stream_written by blast
  moreover have "fed (job_buffer e i) (all_written (streams_of e i))" using assms by (simp add: live_inv_def)
  then have "prefix (buffer_text (job_buffer e i)) (written (th_events t))"
    by (simp add: t fed_def all_written_def)
  ultimately have p: "prefix (buffer_text (job_buffer e i)) (chunks_of (th_events t))" by (rule prefix_order.trans [rotated])
  show ?thesis
  proof (cases "th_events t" rule: chunks_of.cases)
    case (1 c cid out errs es)
    then have "EvLogs c cid out errs None \<in> set (th_events t)" by simp
    moreover have "prefix (buffer_text (job_buffer e i)) (chunks out errs)" using p 1 by simp
    ultimately show ?thesis using mem by blast
  qed (use p in simp_all)
qed

text \<open>
  C14: what a client of a log stream receives, in every state the worker can reach with any
  number of jobs and clients: a prefix of at most two chunks, the whole standard output and the
  whole standard error as the runtime returned them to the one reading of the job's streaming
  goroutine, in this order and without loss or repetition. When its channel has been closed
  without a cancellation, the buffer of the job is closed and all its chunks were sent.
\<close>

theorem live_stream_content:
  assumes "ws_reach s" and "(i, u) \<in> set (ws_subs s)"
  shows "\<exists>out errs. prefix (map (\<lambda>l. (ll_Stream l, ll_Data l)) (sub_got u)) (chunks out errs)
    \<and> (sub_got u \<noteq> [] \<longrightarrow>
         (\<exists>t c cid. (i, t) \<in> set (ex_streams (ws_exec s)) \<and> EvLogs c cid out errs None \<in> set (th_events t)))
    \<and> (sub_at u = SubDone \<and> \<not> sub_cancelled u \<longrightarrow>
         lb_closed (job_buffer (ws_exec s) i) \<and> sub_got u @ sub_chan u = lb_lines (job_buffer (ws_exec s) i))"
proof -
  let ?b = "job_buffer (ws_exec s) i"
  have inv: "live_inv (ws_exec s)" "i < length (ex_jobs (ws_exec s))" "sub_inv ?b u"
    using live.reach_inv [OF assms(1)] assms(2) by (auto simp: ws_inv_def list_all_iff)
  have "prefix (sub_got u) (lb_lines ?b)"
    using sub_inv_prefix [OF inv(3)] by (auto simp: sub_sent_def prefix_def)
  then have p: "prefix (map (\<lambda>l. (ll_Stream l, ll_Data l)) (sub_got u)) (buffer_text ?b)"
    unfolding buffer_text_def by (rule map_mono_prefix)
  obtain out errs where o: "prefix (buffer_text ?b) (chunks out errs)"
    "buffer_text ?b \<noteq> [] \<Longrightarrow> \<exists>t c cid. (i, t) \<in> set (ex_streams (ws_exec s)) \<and> EvLogs c cid out errs None \<in> set (th_events t)"
    using live_buffer_text [OF inv(1,2)] by blast
  have "prefix (map (\<lambda>l. (ll_Stream l, ll_Data l)) (sub_got u)) (chunks out errs)"
    using p o(1) by (rule prefix_order.trans)
  moreover have "sub_got u \<noteq> [] \<Longrightarrow> buffer_text ?b \<noteq> []" using p by auto
  moreover have "sub_at u = SubDone \<and> \<not> sub_cancelled u \<Longrightarrow> lb_closed ?b \<and> sub_got u @ sub_chan u = lb_lines ?b"
    using inv(3) by (simp add: sub_inv_def sub_sent_def)
  ultimately show ?thesis using o(2) by blast
qed

lemma ex_reach_ws: "ex_reach e \<Longrightarrow> ws_reach \<lparr>ws_exec = e, ws_subs = []\<rparr>"
proof (induction rule: reach.induct)
  case (reach_start e)
  then show ?case by (intro reach.reach_start) (simp add: ws_start_def)
next
  case (reach_step e e')
  have "ws_step \<lparr>ws_exec = e, ws_subs = []\<rparr> (\<lparr>ws_exec = e, ws_subs = []\<rparr>\<lparr>ws_exec := e'\<rparr>)"
    by (rule ws_executor) (simp add: reach_step.hyps)
  with reach_step.IH show ?case by (simp add: reach.reach_step)
qed

lemma with_buffer_id: "with_buffer i (job_buffer e i) e = e"
proof -
  have "(ex_jobs e ! i)\<lparr>rj_LogBuffer := job_buffer e i\<rparr> = ex_jobs e ! i"
    by (rule RunningJob.equality) simp_all
  then show ?thesis unfolding with_buffer_def by (intro Executor.equality) simp_all
qed

text \<open>A client that gets a line: it subscribes, and its goroutine reads the buffer and sends.\<close>

lemma client_gets_line:
  assumes "ex_reach e" and "\<not> ex_crashed e" and "StreamLogs jid e = Some i"
    and "lb_lines (job_buffer e i) = [l]"
  shows "\<exists>u. ws_reach \<lparr>ws_exec = e, ws_subs = [(i, u)]\<rparr> \<and> sub_got u = [l]"
proof -
  let ?st = "\<lambda>u. \<lparr>ws_exec = e, ws_subs = [(i, u)]\<rparr>"
  let ?u1 = "Subscribe\<lparr>sub_at := SubSend [l] (lb_closed (job_buffer e i))\<rparr>"
  let ?u2 = "?u1\<lparr>sub_chan := [l], sub_pos := 1, sub_at := SubSend [] (lb_closed (job_buffer e i))\<rparr>"
  have run: "sub_step (job_buffer e i) u (job_buffer e i) u' \<Longrightarrow> ws_step (?st u) (?st u')" for u u'
    using ws_run [of "?st u" 0 i u "job_buffer e i" u'] assms(2) by (simp add: with_buffer_id)
  have "ws_step \<lparr>ws_exec = e, ws_subs = []\<rparr> (?st Subscribe)"
    using ws_subscribe [of "\<lparr>ws_exec = e, ws_subs = []\<rparr>"] assms(2,3) by simp
  moreover have "ws_step (?st Subscribe) (?st ?u1)"
    using sub_step.read [of Subscribe "job_buffer e i"] assms(4)
    by (intro run) (simp add: Subscribe_def)
  moreover have "ws_step (?st ?u1) (?st ?u2)"
    using sub_step.send [of ?u1 l] by (intro run) (simp add: Subscribe_def chan_capacity_def)
  moreover have "ws_step (?st ?u2) (?st (?u2\<lparr>sub_chan := [], sub_got := [l]\<rparr>))"
    using ws_receive [of 0 "?st ?u2" i ?u2 l "[]"] by (simp add: Subscribe_def)
  ultimately have "ws_reach (?st (?u2\<lparr>sub_chan := [], sub_got := [l]\<rparr>))"
    using ex_reach_ws [OF assms(1)] by (blast intro: reach.reach_step)
  then show ?thesis by (intro exI [of _ "?u2\<lparr>sub_chan := [], sub_got := [l]\<rparr>"]) simp
qed

theorem live_stream_content_witness:
  "\<exists>s u out errs. ws_reach s \<and> ws_subs s = [(0, u)] \<and> map ll_Data (sub_got u) = [''hi'']
     \<and> prefix (map (\<lambda>l. (ll_Stream l, ll_Data l)) (sub_got u)) (chunks out errs)
     \<and> (\<exists>t c cid. (0, t) \<in> set (ex_streams (ws_exec s)) \<and> EvLogs c cid out errs None \<in> set (th_events t))"
proof -
  have "length sample_bytes = 16" by (simp add: sample_bytes_def)
  moreover have "''hi'' \<noteq> []" by simp
  ultimately obtain e now where e: "ex_reach e" "\<not> ex_crashed e" "StreamLogs (generateJobID sample_bytes) e = Some 0"
    "lb_lines (job_buffer e 0) = [\<lparr>ll_Timestamp = now, ll_Stream = ''stdout'', ll_Data = ''hi''\<rparr>]"
    using stdout_streamed by metis
  then obtain u where u: "ws_reach \<lparr>ws_exec = e, ws_subs = [(0, u)]\<rparr>"
    "sub_got u = [\<lparr>ll_Timestamp = now, ll_Stream = ''stdout'', ll_Data = ''hi''\<rparr>]"
    using client_gets_line by blast
  from live_stream_content [OF this(1), of 0 u] u(2) show ?thesis
    by (intro exI [of _ "\<lparr>ws_exec = e, ws_subs = [(0, u)]\<rparr>"] exI [of _ u]) (simp add: u(1), blast)
qed

end
