(* ===== verification/Json.thy ===== *)
theory Json
  imports Job_Types
begin

text \<open>
  \<^verbatim>\<open>encoding/json\<close> as the worker's replies use it: JSON values and their encoding with Go's
  escapes (HTML characters, control characters, the two Unicode line separators and bytes that
  are not UTF-8), the reply structures with their field tags and \<^verbatim>\<open>omitempty\<close>, and the
  fact that an encoding never contains a line break.
\<close>

section \<open>Values and their encoding\<close>

datatype json =
    JNull
  | JBool bool
  | JNumber string  \<comment> \<open>the literal\<close>
  | JString string
  | JArray "json list"
  | JObject "(string \<times> json) list"

definition escape_ascii :: "char \<Rightarrow> string" where
  "escape_ascii c =
     (if c = dquote \<or> c = backslash then [backslash, c]
      else if byte c = 8 then backslash # ''b''
      else if byte c = 12 then backslash # ''f''
      else if byte c = 10 then backslash # ''n''
      else if byte c = 13 then backslash # ''r''
      else if byte c = 9 then backslash # ''t''
      else if byte c < 0x20 \<or> c = CHR ''<'' \<or> c = CHR ''>'' \<or> c = CHR ''&''
      then backslash # ''u'' @ hex_digits 4 (byte c)
      else [c])"

lemma DecodeRune_pos: "(r, w) = DecodeRune (c # s) \<Longrightarrow> 0 < w"
  using DecodeRune_width [of "c # s"] by (metis list.distinct(1) snd_conv)

function json_escape :: "string \<Rightarrow> string" where
  "json_escape s =
     (case s of
        [] \<Rightarrow> []
      | c # s' \<Rightarrow>
          if byte c < 0x80 then escape_ascii c @ json_escape s'
          else (case DecodeRune s of (r, w) \<Rightarrow>
            (if r = rune_error \<and> w = 1 then backslash # ''ufffd''
             else if r = 0x2028 \<or> r = 0x2029 then backslash # ''u'' @ hex_digits 4 r
             else take w s)
            @ json_escape (drop w s)))"
  by pat_completeness auto
termination
  by (relation "measure length") (auto dest: DecodeRune_pos)

declare json_escape.simps [simp del]

definition json_quote :: "string \<Rightarrow> string" where
  "json_quote s = dquote # json_escape s @ [dquote]"

fun commas :: "string list \<Rightarrow> string" where
  "commas [] = []"
| "commas [s] = s"
| "commas (s # t # ss) = s @ CHR '','' # commas (t # ss)"

fun json_encode :: "json \<Rightarrow> string" where
  "json_encode JNull = ''null''"
| "json_encode (JBool b) = (if b then ''true'' else ''false'')"
| "json_encode (JNumber l) = l"
| "json_encode (JString s) = json_quote s"
| "json_encode (JArray vs) = CHR ''['' # commas (map json_encode vs) @ '']''"
| "json_encode (JObject fs) =
     CHR ''{'' # commas (map (\<lambda>(k, v). json_quote k @ CHR '':'' # json_encode v) fs) @ ''}''"

lemma json_encode_example:
  "json_encode (JObject [(''a<'', JArray [JNumber ''-3'', JBool True]), (''b'', JNull)])
     = CHR ''{'' # dquote # ''a'' @ backslash # ''u003c'' @ dquote # '':[-3,true],''
       @ dquote # ''b'' @ dquote # '':null}''"
  by code_simp

section \<open>The reply structures\<close>

definition JInt :: "i64 \<Rightarrow> json" where
  "JInt i = JNumber (show_int (sint i))"

text \<open>A field that its tag omits when it is empty.\<close>

definition field :: "string \<Rightarrow> json \<Rightarrow> (string \<times> json) list" where
  "field k v = [(k, v)]"

definition omit_empty :: "string \<Rightarrow> string \<Rightarrow> (string \<times> json) list" where
  "omit_empty k v = (if v = [] then [] else [(k, JString v)])"

definition omit_nil :: "string \<Rightarrow> i64 option \<Rightarrow> (string \<times> json) list" where
  "omit_nil k v = (case v of None \<Rightarrow> [] | Some i \<Rightarrow> [(k, JInt i)])"

definition ValidationError_json :: "ValidationError \<Rightarrow> json" where
  "ValidationError_json ve =
     JObject (field ''field'' (JString (ve_Field ve)) @ field ''message'' (JString (ve_Message ve)))"

definition ExecutionResult_json :: "ExecutionResult \<Rightarrow> json" where
  "ExecutionResult_json r =
     JObject (field ''job_id'' (JString (res_JobID r)) @ field ''status'' (JString (res_Status r))
       @ omit_nil ''exit_code'' (res_ExitCode r)
       @ field ''stdout'' (JString (res_Stdout r)) @ field ''stderr'' (JString (res_Stderr r))
       @ field ''stdout_truncated'' (JBool (res_StdoutTruncated r))
       @ field ''stderr_truncated'' (JBool (res_StderrTruncated r))
       @ field ''duration_ms'' (JInt (res_DurationMs r))
       @ omit_empty ''error'' (res_Error r))"

definition HealthStatus_json :: "HealthStatus \<Rightarrow> json" where
  "HealthStatus_json h =
     JObject (field ''status'' (JString (hs_Status h)) @ omit_empty ''runtime'' (hs_Runtime h))"

definition ReadinessStatus_json :: "ReadinessStatus \<Rightarrow> json" where
  "ReadinessStatus_json r =
     JObject (field ''status'' (JString (rs_Status r)) @ omit_empty ''job_id'' (rs_JobID r))"

text \<open>
  The time stamp of a log line is a string that \<^verbatim>\<open>time.Time\<close> prints in the local time zone;
  it fails for years beyond 9999. The zone belongs to the environment: the printed form is
  the result of \<open>print_time\<close>.
\<close>

definition LogLine_json :: "(int \<Rightarrow> string option) \<Rightarrow> LogLine \<Rightarrow> json option" where
  "LogLine_json print_time l =
     map_option (\<lambda>ts. JObject (field ''ts'' (JString ts) @ field ''stream'' (JString (ll_Stream l))
                                @ field ''data'' (JString (ll_Data l))))
       (print_time (ll_Timestamp l))"

section \<open>No line breaks in an encoding\<close>

definition printable :: "string \<Rightarrow> bool" where
  "printable s \<longleftrightarrow> list_all (\<lambda>c. 0x20 \<le> byte c) s"

lemma printable_simps [simp]:
  "printable []" "printable (c # s) \<longleftrightarrow> 0x20 \<le> byte c \<and> printable s"
  "printable (s @ t) \<longleftrightarrow> printable s \<and> printable t"
  by (simp_all add: printable_def)

lemma hex_char_printable: "n < 16 \<Longrightarrow> 0x20 \<le> byte (hex_char n)"
  by (simp add: hex_char_def)

lemma hex_digits_printable: "printable (hex_digits n x)"
  by (induction n arbitrary: x) (simp_all add: hex_char_printable)

lemma escape_ascii_printable: "printable (escape_ascii c)"
  by (simp add: escape_ascii_def backslash_def dquote_def hex_digits_printable)

lemma DecodeRune_rest:
  assumes "0x80 \<le> byte c"
  shows "list_all (\<lambda>d. 0x80 \<le> byte d) (take (snd (DecodeRune (c # s)) - 1) s)"
proof -
  let ?b = "byte c"
  consider (two) "0xC2 \<le> ?b" "?b \<le> 0xDF" | (three) "0xE0 \<le> ?b" "?b \<le> 0xEF"
    | (four) "0xF0 \<le> ?b" "?b \<le> 0xF4" | (bad) "?b < 0xC2 \<or> 0xF4 < ?b" by linarith
  then show ?thesis
  proof cases
    case two
    then show ?thesis
      by (cases s) (simp_all add: DecodeRune_def Let_def cont_in_def)
  next
    case three
    then have n: "\<not> ?b \<le> 0xDF" "\<not> ?b < 0x80" by simp_all
    have "cont_in (if ?b = 0xE0 then 0xA0 else 0x80) (if ?b = 0xED then 0x9F else 0xBF) d \<Longrightarrow> 0x80 \<le> byte d" for d
      by (simp add: cont_in_def split: if_splits)
    note c = this
    show ?thesis
    proof (cases "\<exists>c1 c2 r. s = c1 # c2 # r")
      case True
      then obtain c1 c2 r where s: "s = c1 # c2 # r" by blast
      show ?thesis
      proof (cases "cont_in (if ?b = 0xE0 then 0xA0 else 0x80) (if ?b = 0xED then 0x9F else 0xBF) c1
                    \<and> cont_in 0x80 0xBF c2")
        case True
        then have "snd (DecodeRune (c # s)) = 3"
          using three n by (simp only: s DecodeRune_def Let_def list.case if_True if_False simp_thms snd_conv)
        with c True s show ?thesis by (simp add: cont_in_def [of 128 191])
      next
        case False
        then have "snd (DecodeRune (c # s)) = 1"
          using three n by (simp only: s DecodeRune_def Let_def list.case if_True if_False simp_thms snd_conv)
        then show ?thesis by simp
      qed
    next
      case False
      then have "snd (DecodeRune (c # s)) = 1"
        using three n by (simp add: DecodeRune_def Let_def split: list.split)
      then show ?thesis by simp
    qed
  next
    case four
    then have n: "\<not> ?b \<le> 0xDF" "\<not> ?b < 0x80" "\<not> ?b \<le> 0xEF" by simp_all
    have "cont_in (if ?b = 0xF0 then 0x90 else 0x80) (if ?b = 0xF4 then 0x8F else 0xBF) d \<Longrightarrow> 0x80 \<le> byte d" for d
      by (simp add: cont_in_def split: if_splits)
    note c = this
    show ?thesis
    proof (cases "\<exists>c1 c2 c3 r. s = c1 # c2 # c3 # r")
      case True
      then obtain c1 c2 c3 r where s: "s = c1 # c2 # c3 # r" by blast
      show ?thesis
      proof (cases "cont_in (if ?b = 0xF0 then 0x90 else 0x80) (if ?b = 0xF4 then 0x8F else 0xBF) c1
                    \<and> cont_in 0x80 0xBF c2 \<and> cont_in 0x80 0xBF c3")
        case True
        then have "snd (DecodeRune (c # s)) = 4"
          using four n by (simp only: s DecodeRune_def Let_def list.case if_True if_False simp_thms snd_conv)
        with c True s show ?thesis by (simp add: cont_in_def [of 128 191])
      next
        case False
        then have "snd (DecodeRune (c # s)) = 1"
          using four n by (simp only: s DecodeRune_def Let_def list.case if_True if_False simp_thms snd_conv)
        then show ?thesis by simp
      qed
    next
      case False
      then have "snd (DecodeRune (c # s)) = 1"
        using four n by (simp add: DecodeRune_def Let_def split: list.split)
      then show ?thesis by simp
    qed
  next
    case bad
    then show ?thesis using assms by (auto simp: DecodeRune_def Let_def)
  qed
qed

lemma DecodeRune_printable:
  assumes "0x80 \<le> byte c"
  shows "printable (take (snd (DecodeRune (c # s))) (c # s))"
proof -
  have "list_all (\<lambda>d. 0x20 \<le> byte d) (take (snd (DecodeRune (c # s)) - 1) s)"
    by (rule list.pred_mono_strong [OF DecodeRune_rest [OF assms]]) simp
  with assms show ?thesis by (simp add: printable_def take_Cons')
qed

lemma json_escape_printable: "printable (json_escape s)"
proof (induction s rule: json_escape.induct)
  case (1 s)
  show ?case
  proof (cases s)
    case (Cons c s')
    show ?thesis
    proof (cases "byte c < 0x80")
      case True
      with 1 Cons show ?thesis
        by (subst json_escape.simps) (simp add: escape_ascii_printable)
    next
      case False
      obtain r w where rw: "DecodeRune s = (r, w)" by (cases "DecodeRune s")
      have "printable (take w s)" using DecodeRune_printable [of c s'] False Cons rw by simp
      moreover have "printable (json_escape (drop w s))" using 1 Cons False rw by simp
      ultimately show ?thesis using Cons False rw
        by (subst json_escape.simps) (simp add: hex_digits_printable backslash_def)
    qed
  qed (simp add: json_escape.simps)
qed

lemma commas_printable: "list_all printable ss \<Longrightarrow> printable (commas ss)"
  by (induction ss rule: commas.induct) simp_all

lemma show_nat_printable: "printable (show_nat n)"
  by (induction n rule: show_nat.induct) (subst show_nat.simps, simp add: digit_char_def)

lemma show_int_printable: "printable (show_int i)"
  by (simp add: show_int_def show_nat_printable)

lemma json_quote_printable: "printable (json_quote s)"
  by (simp add: json_quote_def json_escape_printable dquote_def)

text \<open>All number literals of a value satisfy \<open>num\<close>, all strings and keys \<open>str\<close>.\<close>

fun json_all :: "(string \<Rightarrow> bool) \<Rightarrow> (string \<Rightarrow> bool) \<Rightarrow> json \<Rightarrow> bool" where
  "json_all num str JNull \<longleftrightarrow> True"
| "json_all num str (JBool b) \<longleftrightarrow> True"
| "json_all num str (JNumber l) \<longleftrightarrow> num l"
| "json_all num str (JString s) \<longleftrightarrow> str s"
| "json_all num str (JArray vs) \<longleftrightarrow> list_all (json_all num str) vs"
| "json_all num str (JObject fs) \<longleftrightarrow> list_all (\<lambda>(k, v). str k \<and> json_all num str v) fs"

lemma json_encode_printable: "json_all printable str v \<Longrightarrow> printable (json_encode v)"
proof (induction v rule: json_encode.induct)
  case (5 vs)
  then have "list_all printable (map json_encode vs)" by (auto simp: list_all_iff)
  then show ?case by (simp add: commas_printable)
next
  case (6 fs)
  then have "list_all printable (map (\<lambda>(k, v). json_quote k @ CHR '':'' # json_encode v) fs)"
    by (fastforce simp: list_all_iff json_quote_printable)
  then show ?case by (simp add: commas_printable)
qed (simp_all add: json_quote_printable)

lemma JInt_printable [simp]: "json_all printable str (JInt i)"
  by (simp add: JInt_def show_int_printable)

end
