(* ===== verification/Utf8.thy ===== *)
theory Utf8
  imports Go_Strings
begin

text \<open>
  \<^verbatim>\<open>unicode/utf8\<close>: encoding a rune, valid strings, and that decoding and encoding are inverse to
  each other on them.
\<close>

section \<open>Encoding\<close>

text \<open>\<^verbatim>\<open>utf8.EncodeRune\<close>; surrogates and numbers beyond 10FFFF give the replacement character.\<close>

definition EncodeRune :: "nat \<Rightarrow> string" where
  "EncodeRune r =
     (if r < 0x80 then [char_of r]
      else if r < 0x800 then [char_of (0xC0 + r div 64), char_of (0x80 + r mod 64)]
      else if 0xD800 \<le> r \<and> r < 0xE000 \<or> 0x110000 \<le> r
      then [char_of (0xEF :: nat), char_of (0xBF :: nat), char_of (0xBD :: nat)]
      else if r < 0x10000
      then [char_of (0xE0 + r div 4096), char_of (0x80 + r div 64 mod 64), char_of (0x80 + r mod 64)]
      else [char_of (0xF0 + r div 262144), char_of (0x80 + r div 4096 mod 64),
            char_of (0x80 + r div 64 mod 64), char_of (0x80 + r mod 64)])"

text \<open>A decoding that is not the error of a single bad byte.\<close>

definition good_rune :: "nat \<times> nat \<Rightarrow> bool" where
  "good_rune rw \<longleftrightarrow> rw \<noteq> (rune_error, 1)"

function utf8_valid :: "string \<Rightarrow> bool" where
  "utf8_valid s \<longleftrightarrow>
     (if s = [] then True
      else good_rune (DecodeRune s) \<and> utf8_valid (drop (snd (DecodeRune s)) s))"
  by pat_completeness auto
termination
  by (relation "measure length") (auto simp: DecodeRune_width)

declare utf8_valid.simps [simp del]

lemma utf8_valid_Nil [simp]: "utf8_valid []"
  by (simp add: utf8_valid.simps)

lemma DecodeRune_width_le: "s \<noteq> [] \<Longrightarrow> snd (DecodeRune s) \<le> length s"
  by (auto simp: DecodeRune_def Let_def split: list.splits)

section \<open>The shapes of a valid encoding\<close>

abbreviation lead3 :: "char \<Rightarrow> char \<Rightarrow> bool" where
  "lead3 c c1 \<equiv> cont_in (if byte c = 0xE0 then 0xA0 else 0x80) (if byte c = 0xED then 0x9F else 0xBF) c1"

abbreviation lead4 :: "char \<Rightarrow> char \<Rightarrow> bool" where
  "lead4 c c1 \<equiv> cont_in (if byte c = 0xF0 then 0x90 else 0x80) (if byte c = 0xF4 then 0x8F else 0xBF) c1"

lemma DecodeRune_2:
  "0xC2 \<le> byte c \<Longrightarrow> byte c \<le> 0xDF \<Longrightarrow> DecodeRune (c # c1 # s) =
     (if cont_in 0x80 0xBF c1 then ((byte c - 0xC0) * 64 + (byte c1 - 0x80), 2) else (rune_error, 1))"
  by (simp add: DecodeRune_def Let_def)

lemma DecodeRune_3:
  assumes "0xE0 \<le> byte c" and "byte c \<le> 0xEF"
  shows "DecodeRune (c # c1 # c2 # s) =
     (if lead3 c c1 \<and> cont_in 0x80 0xBF c2
      then ((byte c - 0xE0) * 4096 + (byte c1 - 0x80) * 64 + (byte c2 - 0x80), 3)
      else (rune_error, 1))"
proof -
  have "\<not> byte c \<le> 0xDF" "\<not> byte c < 0x80" using assms by simp_all
  with assms show ?thesis by (simp only: DecodeRune_def Let_def list.case if_True if_False simp_thms)
qed

lemma DecodeRune_4:
  assumes "0xF0 \<le> byte c" and "byte c \<le> 0xF4"
  shows "DecodeRune (c # c1 # c2 # c3 # s) =
     (if lead4 c c1 \<and> cont_in 0x80 0xBF c2 \<and> cont_in 0x80 0xBF c3
      then ((byte c - 0xF0) * 262144 + (byte c1 - 0x80) * 4096 + (byte c2 - 0x80) * 64 + (byte c3 - 0x80), 4)
      else (rune_error, 1))"
proof -
  have "\<not> byte c \<le> 0xDF" "\<not> byte c < 0x80" "\<not> byte c \<le> 0xEF" using assms by simp_all
  with assms show ?thesis by (simp only: DecodeRune_def Let_def list.case if_True if_False simp_thms)
qed

lemma DecodeRune_short:
  "0xC2 \<le> byte c \<Longrightarrow> DecodeRune [c] = (rune_error, 1)"
  "0xE0 \<le> byte c \<Longrightarrow> DecodeRune [c, c1] = (rune_error, 1)"
  "0xF0 \<le> byte c \<Longrightarrow> DecodeRune [c, c1, c2] = (rune_error, 1)"
  by (simp_all add: DecodeRune_def Let_def)

lemma DecodeRune_bad:
  "0x80 \<le> byte c \<Longrightarrow> byte c < 0xC2 \<or> 0xF4 < byte c \<Longrightarrow> DecodeRune (c # s) = (rune_error, 1)"
  by (auto simp: DecodeRune_def Let_def)

lemma good_rune_cases:
  assumes "0x80 \<le> byte c" and "good_rune (DecodeRune (c # s))"
  obtains (two) c1 r where "s = c1 # r" "0xC2 \<le> byte c" "byte c \<le> 0xDF" "cont_in 0x80 0xBF c1"
    | (three) c1 c2 r where "s = c1 # c2 # r" "0xE0 \<le> byte c" "byte c \<le> 0xEF" "lead3 c c1" "cont_in 0x80 0xBF c2"
    | (four) c1 c2 c3 r where "s = c1 # c2 # c3 # r" "0xF0 \<le> byte c" "byte c \<le> 0xF4"
        "lead4 c c1" "cont_in 0x80 0xBF c2" "cont_in 0x80 0xBF c3"
proof -
  consider "0xC2 \<le> byte c" "byte c \<le> 0xDF" | "0xE0 \<le> byte c" "byte c \<le> 0xEF" | "0xF0 \<le> byte c" "byte c \<le> 0xF4"
    using assms DecodeRune_bad [of c s] by (fastforce simp: good_rune_def)
  then show thesis
  proof cases
    case 1
    with assms that(1) show thesis
      by (cases s) (auto simp: good_rune_def DecodeRune_2 DecodeRune_short split: if_splits)
  next
    case 2
    with assms(2) have "\<exists>c1 c2 r. s = c1 # c2 # r"
      by (cases s; cases "tl s") (auto simp: good_rune_def DecodeRune_short)
    then obtain c1 c2 r where s: "s = c1 # c2 # r" by blast
    with 2 assms(2) have "lead3 c c1 \<and> cont_in 0x80 0xBF c2"
      by (metis DecodeRune_3 good_rune_def)
    with 2 s that(2) show thesis by blast
  next
    case 3
    with assms(2) have "\<exists>c1 c2 c3 r. s = c1 # c2 # c3 # r"
      by (cases s; cases "tl s"; cases "tl (tl s)") (auto simp: good_rune_def DecodeRune_short)
    then obtain c1 c2 c3 r where s: "s = c1 # c2 # c3 # r" by blast
    with 3 assms(2) have "lead4 c c1 \<and> cont_in 0x80 0xBF c2 \<and> cont_in 0x80 0xBF c3"
      by (metis DecodeRune_4 good_rune_def)
    with 3 s that(3) show thesis by blast
  qed
qed

section \<open>Decoding and encoding\<close>

lemma base64_digits:
  "y < 64 \<Longrightarrow> (x * 64 + y) div 64 = (x :: nat)" "y < 64 \<Longrightarrow> (x * 64 + y) mod 64 = (y :: nat)"
  by simp_all

lemma base64_number:
  assumes "d < 64" and "e < 64"
  shows "(b * 4096 + d * 64 + e) div 4096 = (b :: nat)" "(b * 4096 + d * 64 + e) div 64 = b * 64 + d"
    "(b * 4096 + d * 64 + e) mod 64 = e"
proof -
  have e: "b * 4096 + d * 64 + e = (b * 64 + d) * 64 + e" by simp
  show "(b * 4096 + d * 64 + e) div 64 = b * 64 + d" "(b * 4096 + d * 64 + e) mod 64 = e"
    unfolding e using assms(2) by (rule base64_digits)+
  then have "(b * 4096 + d * 64 + e) div (64 * 64) = b"
    using assms(1) by (simp only: div_mult2_eq base64_digits)
  then show "(b * 4096 + d * 64 + e) div 4096 = b" by simp
qed

lemma cont_in_digit:
  "cont_in lo hi c \<Longrightarrow> 0x80 \<le> lo \<Longrightarrow> hi \<le> 0xBF \<Longrightarrow>
     \<exists>d < 64. byte c = 0x80 + d \<and> lo \<le> 0x80 + d \<and> 0x80 + d \<le> hi \<and> c = char_of (0x80 + d)"
  by (rule exI [of _ "byte c - 0x80"])
    (use char_of_char [of c] in \<open>auto simp: cont_in_def\<close>)

lemma lead3_digit:
  "lead3 c c1 \<Longrightarrow> \<exists>d < 64. byte c1 = 0x80 + d \<and> c1 = char_of (0x80 + d)
     \<and> (byte c = 0xE0 \<longrightarrow> 32 \<le> d) \<and> (byte c = 0xED \<longrightarrow> d < 32)"
  by (rule exI [of _ "byte c1 - 0x80"])
    (use char_of_char [of c1] in \<open>auto simp: cont_in_def split: if_splits\<close>)

lemma lead4_digit:
  "lead4 c c1 \<Longrightarrow> \<exists>d < 64. byte c1 = 0x80 + d \<and> c1 = char_of (0x80 + d)
     \<and> (byte c = 0xF0 \<longrightarrow> 16 \<le> d) \<and> (byte c = 0xF4 \<longrightarrow> d < 16)"
  by (rule exI [of _ "byte c1 - 0x80"])
    (use char_of_char [of c1] in \<open>auto simp: cont_in_def split: if_splits\<close>)

text \<open>A rune that was decoded from a valid encoding is encoded in the same way.\<close>

lemma EncodeRune_2:
  assumes "0xC2 \<le> byte c" and "byte c \<le> 0xDF" and "cont_in 0x80 0xBF c1"
  shows "EncodeRune ((byte c - 0xC0) * 64 + (byte c1 - 0x80)) = [c, c1]"
proof -
  obtain d where d: "d < 64" "byte c1 = 0x80 + d" "c1 = char_of (0x80 + d)"
    using cont_in_digit [OF assms(3)] by auto
  define b where "b = byte c - 0xC0"
  then have b: "byte c = 0xC0 + b" "2 \<le> b" "b < 32" using assms by simp_all
  then have "c = char_of (0xC0 + b)" by (metis char_of_char)
  with b d show ?thesis by (simp add: EncodeRune_def)
qed

lemma EncodeRune_3:
  assumes "0xE0 \<le> byte c" and "byte c \<le> 0xEF" and "lead3 c c1" and "cont_in 0x80 0xBF c2"
  shows "EncodeRune ((byte c - 0xE0) * 4096 + (byte c1 - 0x80) * 64 + (byte c2 - 0x80)) = [c, c1, c2]"
proof -
  obtain d where d: "d < 64" "byte c1 = 0x80 + d" "c1 = char_of (0x80 + d)"
    "byte c = 0xE0 \<longrightarrow> 32 \<le> d" "byte c = 0xED \<longrightarrow> d < 32"
    using lead3_digit [OF assms(3)] by blast
  obtain e where e: "e < 64" "byte c2 = 0x80 + e" "c2 = char_of (0x80 + e)"
    using cont_in_digit [OF assms(4)] by auto
  define b where "b = byte c - 0xE0"
  then have b: "byte c = 0xE0 + b" "b < 16" using assms by simp_all
  then have c: "c = char_of (0xE0 + b)" by (metis char_of_char)
  let ?r = "b * 4096 + d * 64 + e"
  have r: "?r div 4096 = b" "?r div 64 mod 64 = d" "?r mod 64 = e"
    using base64_number [OF d(1) e(1), of b] d(1) by simp_all
  have "0x800 \<le> ?r" using d(4) b(1) by (cases "b = 0") simp_all
  moreover have "?r < 0x10000" using b(2) d(1) e(1) by linarith
  moreover have "\<not> (0xD800 \<le> ?r \<and> ?r < 0xE000)"
  proof (cases "b = 13")
    case True
    then show ?thesis using d(5) b(1) e(1) by simp
  next
    case False
    then have "b \<le> 12 \<or> 14 \<le> b" by linarith
    then show ?thesis using d(1) e(1) by linarith
  qed
  ultimately show ?thesis using r c d e b by (simp add: EncodeRune_def)
qed

lemma EncodeRune_4:
  assumes "0xF0 \<le> byte c" and "byte c \<le> 0xF4" and "lead4 c c1" and "cont_in 0x80 0xBF c2"
    and "cont_in 0x80 0xBF c3"
  shows "EncodeRune ((byte c - 0xF0) * 262144 + (byte c1 - 0x80) * 4096 + (byte c2 - 0x80) * 64
           + (byte c3 - 0x80)) = [c, c1, c2, c3]"
proof -
  obtain d where d: "d < 64" "byte c1 = 0x80 + d" "c1 = char_of (0x80 + d)"
    "byte c = 0xF0 \<longrightarrow> 16 \<le> d" "byte c = 0xF4 \<longrightarrow> d < 16"
    using lead4_digit [OF assms(3)] by blast
  obtain e where e: "e < 64" "byte c2 = 0x80 + e" "c2 = char_of (0x80 + e)"
    using cont_in_digit [OF assms(4)] by auto
  obtain f where f: "f < 64" "byte c3 = 0x80 + f" "c3 = char_of (0x80 + f)"
    using cont_in_digit [OF assms(5)] by auto
  define b where "b = byte c - 0xF0"
  then have b: "byte c = 0xF0 + b" "b \<le> 4" using assms by simp_all
  then have c: "c = char_of (0xF0 + b)" by (metis char_of_char)
  let ?r = "b * 262144 + d * 4096 + e * 64 + f"
  have r: "?r div 262144 = b" "?r div 4096 mod 64 = d" "?r div 64 mod 64 = e" "?r mod 64 = f"
    using base64_number [OF d(1) e(1), of b] base64_number [OF e(1) f(1), of "b * 64 + d"]
      d(1) e(1) f(1) by (simp_all add: algebra_simps div_mult2_eq [of _ 4096 64, simplified])
  have "0x10000 \<le> ?r" using d(4) b(1) by (cases "b = 0") simp_all
  moreover have "?r < 0x110000"
  proof (cases "b = 4")
    case True
    then show ?thesis using d(5) b(1) e(1) f(1) by simp
  next
    case False
    then show ?thesis using b(2) d(1) e(1) f(1) by linarith
  qed
  ultimately show ?thesis using r c d e f b by (simp add: EncodeRune_def)
qed

lemma EncodeRune_DecodeRune:
  assumes "good_rune (DecodeRune (c # s))" and "DecodeRune (c # s) = (r, w)"
  shows "EncodeRune r = take w (c # s)"
proof (cases "byte c < 0x80")
  case True
  with assms(2) show ?thesis by (auto simp: DecodeRune_ascii EncodeRune_def)
next
  case False
  then have "0x80 \<le> byte c" by simp
  then show ?thesis using assms(1)
  proof (cases rule: good_rune_cases)
    case two
    with assms(2) show ?thesis by (auto simp: DecodeRune_2 EncodeRune_2)
  next
    case three
    with assms(2) show ?thesis by (auto simp: DecodeRune_3 EncodeRune_3)
  next
    case four
    with assms(2) show ?thesis by (auto simp: DecodeRune_4 EncodeRune_4)
  qed
qed

text \<open>What follows a valid encoding does not matter to the decoder.\<close>

lemma DecodeRune_take:
  assumes "good_rune (DecodeRune (c # s))" and "DecodeRune (c # s) = (r, w)"
  shows "DecodeRune (take w (c # s) @ t) = (r, w)"
proof (cases "byte c < 0x80")
  case True
  with assms(2) show ?thesis by (auto simp: DecodeRune_ascii)
next
  case False
  then have "0x80 \<le> byte c" by simp
  then show ?thesis using assms(1)
  proof (cases rule: good_rune_cases)
    case two
    with assms(2) show ?thesis by (auto simp: DecodeRune_2)
  next
    case three
    with assms(2) show ?thesis by (auto simp: DecodeRune_3)
  next
    case four
    with assms(2) show ?thesis by (auto simp: DecodeRune_4)
  qed
qed

lemma utf8_valid_ascii: "byte c < 0x80 \<Longrightarrow> utf8_valid (c # s) \<longleftrightarrow> utf8_valid s"
  by (subst utf8_valid.simps) (simp add: DecodeRune_ascii good_rune_def rune_error_def)

lemma utf8_valid_step:
  "utf8_valid (c # s) \<Longrightarrow> good_rune (DecodeRune (c # s)) \<and> utf8_valid (drop (snd (DecodeRune (c # s))) (c # s))"
  by (subst (asm) utf8_valid.simps) simp

lemma utf8_valid_ascii_all: "list_all (\<lambda>c. byte c < 0x80) s \<Longrightarrow> utf8_valid s"
  by (induction s) (simp_all add: utf8_valid_ascii)

section \<open>Replacing what is not UTF-8\<close>

text \<open>
  What becomes of a string that is read rune by rune and written again: every byte that starts
  no valid encoding turns into the replacement character.
\<close>

lemma DecodeRune_width_pos: "0 < snd (DecodeRune (c # s))"
  using DecodeRune_width [of "c # s"] by simp

function ToValid :: "string \<Rightarrow> string" where
  "ToValid [] = []"
| "ToValid (c # s) =
     (if good_rune (DecodeRune (c # s)) then take (snd (DecodeRune (c # s))) (c # s) else EncodeRune rune_error)
     @ ToValid (drop (snd (DecodeRune (c # s))) (c # s))"
  by pat_completeness auto
termination
  by (relation "measure length") (use DecodeRune_width_pos in \<open>auto intro: diff_less\<close>)

declare ToValid.simps(2) [simp del]

lemma ToValid_valid: "utf8_valid s \<Longrightarrow> ToValid s = s"
proof (induction s rule: ToValid.induct)
  case (2 c s)
  with utf8_valid_step [OF 2(2)] show ?case by (subst ToValid.simps) simp
qed simp

lemma ToValid_Nil_iff [simp]: "ToValid s = [] \<longleftrightarrow> s = []"
proof (cases s)
  case (Cons c t)
  have "EncodeRune rune_error \<noteq> []" by (simp add: EncodeRune_def rune_error_def)
  then show ?thesis
    using DecodeRune_width_pos [of c t] unfolding Cons ToValid.simps(2) [of c t] by simp
qed simp

end
