(* ===== verification/Json_Decode.thy ===== *)
theory Json_Decode
  imports Json Utf8
begin

text \<open>
  The reading side of \<^verbatim>\<open>encoding/json\<close>: tokens, strings with their escapes, number literals, and
  the scanner, which keeps a stack of the open arrays and objects. \<^verbatim>\<open>Decoder\<close> reads one value
  and leaves what follows it alone. The main lemma says that it reads back every encoding.
\<close>

section \<open>Strings\<close>

definition hex_val :: "char \<Rightarrow> nat option" where
  "hex_val c =
     (let b = byte c in
      if 48 \<le> b \<and> b \<le> 57 then Some (b - 48)
      else if 97 \<le> b \<and> b \<le> 102 then Some (b - 87)
      else if 65 \<le> b \<and> b \<le> 70 then Some (b - 55) else None)"

text \<open>Four hexadecimal digits, the number behind \<^verbatim>\<open>\u\<close>.\<close>

definition hex4 :: "string \<Rightarrow> (nat \<times> string) option" where
  "hex4 s =
     (case s of
        a # b # c # d # r \<Rightarrow>
          (case (hex_val a, hex_val b, hex_val c, hex_val d) of
             (Some x, Some y, Some z, Some u) \<Rightarrow> Some (x * 4096 + y * 256 + z * 16 + u, r)
           | _ \<Rightarrow> None)
      | _ \<Rightarrow> None)"

text \<open>\<^verbatim>\<open>utf16.DecodeRune\<close>.\<close>

definition surrogate_pair :: "nat \<Rightarrow> nat \<Rightarrow> nat option" where
  "surrogate_pair hi lo =
     (if 0xD800 \<le> hi \<and> hi < 0xDC00 \<and> 0xDC00 \<le> lo \<and> lo < 0xE000
      then Some ((hi - 0xD800) * 1024 + (lo - 0xDC00) + 0x10000) else None)"

text \<open>
  What the escape \<^verbatim>\<open>\uXXXX\<close> stands for: a surrogate takes a second escape with it if the two are
  a pair, and otherwise counts as the replacement character.
\<close>

definition unquote_u :: "string \<Rightarrow> (string \<times> string) option" where
  "unquote_u s =
     (case hex4 s of
        None \<Rightarrow> None
      | Some (h, r) \<Rightarrow>
          if 0xD800 \<le> h \<and> h < 0xE000
          then (case (if take 2 r = backslash # ''u'' then hex4 (drop 2 r) else None) of
                  None \<Rightarrow> Some (EncodeRune rune_error, r)
                | Some (l, r') \<Rightarrow>
                    (case surrogate_pair h l of
                       None \<Rightarrow> Some (EncodeRune rune_error, r)
                     | Some x \<Rightarrow> Some (EncodeRune x, r')))
          else Some (EncodeRune h, r))"

definition unquote_escape :: "string \<Rightarrow> (string \<times> string) option" where
  "unquote_escape s =
     (case s of
        [] \<Rightarrow> None
      | c # r \<Rightarrow>
          if c = dquote \<or> c = backslash \<or> c = CHR ''/'' then Some ([c], r)
          else if c = CHR ''b'' then Some ([char_of (8 :: nat)], r)
          else if c = CHR ''f'' then Some ([char_of (12 :: nat)], r)
          else if c = CHR ''n'' then Some ([char_of (10 :: nat)], r)
          else if c = CHR ''r'' then Some ([char_of (13 :: nat)], r)
          else if c = CHR ''t'' then Some ([char_of (9 :: nat)], r)
          else if c = CHR ''u'' then unquote_u r
          else None)"

lemma hex4_shorter: "hex4 s = Some (h, r) \<Longrightarrow> length r < length s"
  by (auto simp: hex4_def split: list.splits option.splits)

lemma unquote_u_shorter: "unquote_u s = Some (out, r) \<Longrightarrow> length r < length s"
  by (auto simp: unquote_u_def split: option.splits if_splits dest!: hex4_shorter)

lemma unquote_escape_shorter: "unquote_escape s = Some (out, r) \<Longrightarrow> length r < length s"
  by (auto simp: unquote_escape_def split: list.splits if_splits dest!: unquote_u_shorter)

text \<open>
  The string behind an opening quote, up to its closing quote, and what follows. Control
  characters are refused, bytes that are not UTF-8 become the replacement character.
\<close>

definition put_front :: "string \<Rightarrow> (string \<times> 'a) option \<Rightarrow> (string \<times> 'a) option" where
  "put_front s x = map_option (\<lambda>(t, r). (s @ t, r)) x"

lemma put_front_simps [simp]:
  "put_front s None = None" "put_front s (Some (t, r)) = Some (s @ t, r)"
  by (simp_all add: put_front_def)

lemma put_front_cong [fundef_cong]: "s = s' \<Longrightarrow> x = x' \<Longrightarrow> put_front s x = put_front s' x'"
  by simp

function unquote :: "string \<Rightarrow> (string \<times> string) option" where
  "unquote [] = None"
| "unquote (c # s) =
     (if c = dquote then Some ([], s)
      else if c = backslash
      then (case unquote_escape s of
              None \<Rightarrow> None
            | Some (out, r) \<Rightarrow> put_front out (unquote r))
      else if byte c < 0x20 then None
      else if byte c < 0x80 then put_front [c] (unquote s)
      else (case DecodeRune (c # s) of (x, w) \<Rightarrow> put_front (EncodeRune x) (unquote (drop w (c # s)))))"
  by pat_completeness auto
termination
  by (relation "measure length") (auto dest!: unquote_escape_shorter DecodeRune_pos)

declare unquote.simps(2) [simp del]

lemma unquote_shorter: "unquote s = Some (t, r) \<Longrightarrow> length r < length s"
proof (induction s arbitrary: t r rule: unquote.induct)
  case (2 c s)
  note u = 2(4) [unfolded unquote.simps(2)]
  consider "c = dquote" | (esc) "c \<noteq> dquote" "c = backslash"
    | (plain) "c \<noteq> dquote" "c \<noteq> backslash" "\<not> byte c < 0x20" "byte c < 0x80"
    | (rune) "c \<noteq> dquote" "c \<noteq> backslash" "\<not> byte c < 0x80"
    using u by (force split: if_splits)
  then show ?case
  proof cases
    case esc
    then obtain out q where q: "unquote_escape s = Some (out, q)"
      using u by (auto split: option.splits)
    then obtain t' where "unquote q = Some (t', r)"
      using u esc by (auto simp: put_front_def)
    with 2(1) [OF esc q refl] unquote_escape_shorter [OF q] show ?thesis by fastforce
  next
    case plain
    then obtain t' where "unquote s = Some (t', r)" using u by (auto simp: put_front_def)
    with 2(2) [OF plain] show ?thesis by fastforce
  next
    case rune
    obtain x w where w: "DecodeRune (c # s) = (x, w)" by (cases "DecodeRune (c # s)")
    then obtain t' where "unquote (drop w (c # s)) = Some (t', r)"
      using u rune by (auto simp: put_front_def)
    moreover have "length r < length (drop w (c # s))"
      using 2(3) [OF rune(1,2) _ rune(3) w [symmetric]] rune(3) calculation by simp
    ultimately show ?thesis by simp
  qed (use u in simp)
qed simp

section \<open>Numbers\<close>

definition is_digit :: "char \<Rightarrow> bool" where
  "is_digit c \<longleftrightarrow> 48 \<le> byte c \<and> byte c \<le> 57"

definition lex_digits :: "string \<Rightarrow> (string \<times> string) option" where
  "lex_digits s =
     (if takeWhile is_digit s = [] then None else Some (takeWhile is_digit s, dropWhile is_digit s))"

definition lex_int :: "string \<Rightarrow> (string \<times> string) option" where
  "lex_int s =
     (case s of
        [] \<Rightarrow> None
      | c # r \<Rightarrow> if c = CHR ''0'' then Some ([c], r) else lex_digits s)"

definition lex_frac :: "string \<Rightarrow> (string \<times> string) option" where
  "lex_frac s =
     (case s of
        [] \<Rightarrow> Some ([], s)
      | c # r \<Rightarrow> if c = CHR ''.'' then put_front [c] (lex_digits r) else Some ([], s))"

definition lex_exp :: "string \<Rightarrow> (string \<times> string) option" where
  "lex_exp s =
     (case s of
        [] \<Rightarrow> Some ([], s)
      | c # r \<Rightarrow>
          if c = CHR ''e'' \<or> c = CHR ''E''
          then put_front [c]
                 (case r of
                    [] \<Rightarrow> None
                  | d # r' \<Rightarrow> if d = CHR ''+'' \<or> d = CHR ''-'' then put_front [d] (lex_digits r')
                              else lex_digits r)
          else Some ([], s))"

text \<open>A number literal and what follows it.\<close>

definition lex_number :: "string \<Rightarrow> (string \<times> string) option" where
  "lex_number s =
     (case s of
        [] \<Rightarrow> None
      | c # r \<Rightarrow>
          (let (sign, t) = (if c = CHR ''-'' then ([c], r) else ([], s)) in
           case lex_int t of
             None \<Rightarrow> None
           | Some (i, t1) \<Rightarrow>
               (case lex_frac t1 of
                  None \<Rightarrow> None
                | Some (f, t2) \<Rightarrow>
                    (case lex_exp t2 of
                       None \<Rightarrow> None
                     | Some (e, t3) \<Rightarrow> Some (sign @ i @ f @ e, t3)))))"

definition number_literal :: "string \<Rightarrow> bool" where
  "number_literal l \<longleftrightarrow> lex_number l = Some (l, [])"

lemma lex_digits_shorter: "lex_digits s = Some (l, r) \<Longrightarrow> length r < length s"
  by (cases s) (auto simp: lex_digits_def less_Suc_eq_le length_dropWhile_le split: if_splits)

lemma lex_int_shorter: "lex_int s = Some (l, r) \<Longrightarrow> length r < length s"
  by (auto simp: lex_int_def split: list.splits if_splits dest: lex_digits_shorter)

lemma lex_frac_le: "lex_frac s = Some (l, r) \<Longrightarrow> length r \<le> length s"
  by (auto simp: lex_frac_def put_front_def split: list.splits if_splits dest: lex_digits_shorter)

lemma lex_exp_le: "lex_exp s = Some (l, r) \<Longrightarrow> length r \<le> length s"
  by (auto simp: lex_exp_def put_front_def split: list.splits if_splits dest: lex_digits_shorter)

lemma lex_number_shorter: "lex_number s = Some (l, r) \<Longrightarrow> length r < length s"
  by (auto simp: lex_number_def split: list.splits if_splits option.splits
      dest!: lex_int_shorter lex_frac_le lex_exp_le)

section \<open>Tokens\<close>

datatype token =
    OpenArray | CloseArray | OpenObject | CloseObject | Colon | Comma
  | TString string
  | TLiteral json

definition json_space :: "char \<Rightarrow> bool" where
  "json_space c \<longleftrightarrow> c = CHR '' '' \<or> byte c = 9 \<or> byte c = 10 \<or> byte c = 13"

definition keyword :: "string \<Rightarrow> json \<Rightarrow> string \<Rightarrow> (token \<times> string) option" where
  "keyword k v s =
     (if take (length k) s = k then Some (TLiteral v, drop (length k) s) else None)"

definition next_token :: "string \<Rightarrow> (token \<times> string) option" where
  "next_token s =
     (case dropWhile json_space s of
        [] \<Rightarrow> None
      | c # r \<Rightarrow>
          if c = CHR ''['' then Some (OpenArray, r)
          else if c = CHR '']'' then Some (CloseArray, r)
          else if c = CHR ''{'' then Some (OpenObject, r)
          else if c = CHR ''}'' then Some (CloseObject, r)
          else if c = CHR '':'' then Some (Colon, r)
          else if c = CHR '','' then Some (Comma, r)
          else if c = dquote then map_option (\<lambda>(t, r). (TString t, r)) (unquote r)
          else if c = CHR ''t'' then keyword ''true'' (JBool True) (c # r)
          else if c = CHR ''f'' then keyword ''false'' (JBool False) (c # r)
          else if c = CHR ''n'' then keyword ''null'' JNull (c # r)
          else map_option (\<lambda>(l, r). (TLiteral (JNumber l), r)) (lex_number (c # r)))"

lemma keyword_shorter: "keyword k v s = Some (t, r) \<Longrightarrow> k \<noteq> [] \<Longrightarrow> length r < length s"
  by (cases s) (auto simp: keyword_def split: if_splits)

lemma next_token_shorter: "next_token s = Some (t, r) \<Longrightarrow> length r < length s"
proof -
  assume t: "next_token s = Some (t, r)"
  have "length (dropWhile json_space s) \<le> length s" by (rule length_dropWhile_le)
  moreover have "length r < length (dropWhile json_space s)"
    using t by (auto simp: next_token_def split: list.splits if_splits
        dest!: keyword_shorter unquote_shorter lex_number_shorter)
  ultimately show ?thesis by simp
qed

section \<open>The scanner\<close>

text \<open>
  What is open around the current position, innermost first, with the values read so far; a
  \<open>Keyed\<close> frame waits for the value of its key.
\<close>

datatype frame =
    Elems "json list"
  | Fields "(string \<times> json) list"
  | Keyed "(string \<times> json) list" string

datatype expect =
    Value
  | ValueOrClose      \<comment> \<open>behind the opening bracket of an array\<close>
  | Key
  | KeyOrClose        \<comment> \<open>behind the opening brace of an object\<close>
  | KeyColon
  | CommaOrClose

text \<open>The end of the outermost value, or a stack with what is expected next.\<close>

type_synonym progress = "json + frame list \<times> expect"

definition maxNestingDepth :: nat where
  "maxNestingDepth = 10000"

fun deliver :: "json \<Rightarrow> frame list \<Rightarrow> progress option" where
  "deliver v [] = Some (Inl v)"
| "deliver v (Elems vs # st) = Some (Inr (Elems (vs @ [v]) # st, CommaOrClose))"
| "deliver v (Keyed fs k # st) = Some (Inr (Fields (fs @ [(k, v)]) # st, CommaOrClose))"
| "deliver v (Fields fs # st) = None"

definition push :: "frame \<Rightarrow> expect \<Rightarrow> frame list \<Rightarrow> progress option" where
  "push f ex st = (if length st < maxNestingDepth then Some (Inr (f # st, ex)) else None)"

fun scan_value :: "frame list \<Rightarrow> token \<Rightarrow> progress option" where
  "scan_value st (TString s) = deliver (JString s) st"
| "scan_value st (TLiteral v) = deliver v st"
| "scan_value st OpenArray = push (Elems []) ValueOrClose st"
| "scan_value st OpenObject = push (Fields []) KeyOrClose st"
| "scan_value st t = None"

fun scan_close :: "frame list \<Rightarrow> token \<Rightarrow> progress option" where
  "scan_close (Elems vs # st) CloseArray = deliver (JArray vs) st"
| "scan_close (Fields fs # st) CloseObject = deliver (JObject fs) st"
| "scan_close st t = None"

fun scan_comma :: "frame list \<Rightarrow> progress option" where
  "scan_comma (Elems vs # st) = Some (Inr (Elems vs # st, Value))"
| "scan_comma (Fields fs # st) = Some (Inr (Fields fs # st, Key))"
| "scan_comma st = None"

fun scan_key :: "frame list \<Rightarrow> token \<Rightarrow> progress option" where
  "scan_key (Fields fs # st) (TString k) = Some (Inr (Keyed fs k # st, KeyColon))"
| "scan_key st t = None"

fun scan :: "frame list \<Rightarrow> expect \<Rightarrow> token \<Rightarrow> progress option" where
  "scan st Value t = scan_value st t"
| "scan st ValueOrClose t = (if t = CloseArray then scan_close st t else scan_value st t)"
| "scan st Key t = scan_key st t"
| "scan st KeyOrClose t = (if t = CloseObject then scan_close st t else scan_key st t)"
| "scan st KeyColon t = (if t = Colon then Some (Inr (st, Value)) else None)"
| "scan st CommaOrClose t = (if t = Comma then scan_comma st else scan_close st t)"

text \<open>The first value of a text and what follows it.\<close>

function scan_text :: "frame list \<Rightarrow> expect \<Rightarrow> string \<Rightarrow> (json \<times> string) option" where
  "scan_text st ex s =
     (case next_token s of
        None \<Rightarrow> None
      | Some (t, r) \<Rightarrow>
          (case scan st ex t of
             None \<Rightarrow> None
           | Some (Inl v) \<Rightarrow> Some (v, r)
           | Some (Inr (st', ex')) \<Rightarrow> scan_text st' ex' r))"
  by pat_completeness auto
termination
  by (relation "measure (\<lambda>(st, ex, s). length s)") (auto dest: next_token_shorter)

declare scan_text.simps [simp del]

text \<open>\<^verbatim>\<open>json.NewDecoder(r).Decode\<close>, up to the conversion into the target.\<close>

definition Decode :: "string \<Rightarrow> (json \<times> string) option" where
  "Decode s = scan_text [] Value s"

lemma Decode_example:
  "Decode (''{ '' @ dquote # ''a'' @ dquote # '': [1.5e3,true , {}] } x'') =
     Some (JObject [(''a'', JArray [JNumber ''1.5e3'', JBool True, JObject []])], '' x'')"
  "Decode ''[1,]'' = None" "Decode ''01'' = Some (JNumber ''0'', ''1'')" "Decode ''[01]'' = None"
  by code_simp+

section \<open>Reading back an encoded string\<close>

lemma hex_val_hex_char: "d < 16 \<Longrightarrow> hex_val (hex_char d) = Some d"
  by (auto simp: hex_val_def hex_char_def)

lemma hex_digits_4:
  "hex_digits 4 n = [hex_char (n div 16 div 16 div 16 mod 16), hex_char (n div 16 div 16 mod 16),
     hex_char (n div 16 mod 16), hex_char (n mod 16)]"
proof -
  have "(4 :: nat) = Suc (Suc (Suc (Suc 0)))" by simp
  then show ?thesis by (simp only: hex_digits.simps append_Nil append_Cons)
qed

lemma hex4_hex_digits:
  assumes "n < 65536"
  shows "hex4 (hex_digits 4 n @ r) = Some (n, r)"
proof -
  define a b c where "a = n div 16" and "b = a div 16" and "c = b div 16"
  then have d: "hex_digits 4 n = [hex_char (c mod 16), hex_char (b mod 16), hex_char (a mod 16), hex_char (n mod 16)]"
    by (simp add: hex_digits_4)
  have "c < 16" unfolding a_def b_def c_def using assms by (simp add: div_mult2_eq [symmetric])
  then have "n = a * 16 + n mod 16" "a = b * 16 + a mod 16" "b = c * 16 + b mod 16" "c mod 16 = c"
    by (simp_all add: a_def b_def c_def)
  then have "c mod 16 * 4096 + b mod 16 * 256 + a mod 16 * 16 + n mod 16 = n" by linarith
  then show ?thesis by (simp add: d hex4_def hex_val_hex_char)
qed

lemma unquote_u_hex:
  assumes "n < 65536" and "\<not> (0xD800 \<le> n \<and> n < 0xE000)"
  shows "unquote (backslash # ''u'' @ hex_digits 4 n @ s) = put_front (EncodeRune n) (unquote s)"
proof -
  have "unquote_escape (''u'' @ hex_digits 4 n @ s) = Some (EncodeRune n, s)"
    using assms by (auto simp: unquote_escape_def unquote_u_def hex4_hex_digits dquote_def backslash_def)
  then show ?thesis by (simp add: unquote.simps(2) dquote_def backslash_def)
qed

lemma unquote_quote_escape: "c = dquote \<or> c = backslash \<Longrightarrow> unquote (backslash # c # s) = put_front [c] (unquote s)"
  by (auto simp: unquote.simps(2) unquote_escape_def dquote_def backslash_def)

lemma unquote_short_escape:
  "n \<in> {8, 9, 10, 12, 13} \<Longrightarrow> unquote (escape_ascii (char_of n) @ s) = put_front [char_of (n :: nat)] (unquote s)"
  by (elim insertE emptyE)
    (simp_all add: escape_ascii_def unquote.simps(2) unquote_escape_def dquote_def backslash_def)

lemma unquote_ascii_escape:
  assumes "byte c < 0x80"
  shows "unquote (escape_ascii c @ s) = put_front [c] (unquote s)"
proof -
  consider "c = dquote \<or> c = backslash" | (short) "byte c \<in> {8, 9, 10, 12, 13}"
    | (hex) "c \<noteq> dquote" "c \<noteq> backslash" "byte c \<notin> {8, 9, 10, 12, 13}"
        "byte c < 0x20 \<or> c = CHR ''<'' \<or> c = CHR ''>'' \<or> c = CHR ''&''"
    | (plain) "c \<noteq> dquote" "c \<noteq> backslash" "byte c \<notin> {8, 9, 10, 12, 13}" "\<not> byte c < 0x20"
        "c \<noteq> CHR ''<''" "c \<noteq> CHR ''>''" "c \<noteq> CHR ''&''"
    by blast
  then show ?thesis
  proof cases
    case 1
    then show ?thesis by (simp add: escape_ascii_def unquote_quote_escape)
  next
    case short
    from unquote_short_escape [OF short] show ?thesis by simp
  next
    case hex
    then have "escape_ascii c = backslash # ''u'' @ hex_digits 4 (byte c)" by (simp add: escape_ascii_def)
    moreover have "EncodeRune (byte c) = [c]" using assms by (simp add: EncodeRune_def)
    ultimately show ?thesis using assms unquote_u_hex [of "byte c" s] by simp
  next
    case plain
    then show ?thesis using assms by (simp add: escape_ascii_def unquote.simps(2))
  qed
qed

lemma hex_digits_rune_error: "hex_digits 4 rune_error = ''fffd''"
proof -
  have "hex_char 13 = CHR ''d''" "hex_char 15 = CHR ''f''" by code_simp+
  moreover have "(4 :: nat) = Suc (Suc (Suc (Suc 0)))" by simp
  ultimately show ?thesis by (simp only: hex_digits.simps rune_error_def) simp
qed

text \<open>A quoted string is read back with its invalid bytes replaced.\<close>

lemma unquote_json_escape:
  "unquote (json_escape s @ dquote # t) = Some (ToValid s, t)"
proof (induction s rule: json_escape.induct)
  case (1 s)
  show ?case
  proof (cases s)
    case Nil
    then show ?thesis by (simp add: json_escape.simps unquote.simps(2))
  next
    case (Cons c s')
    obtain r w where rw: "DecodeRune s = (r, w)" by (cases "DecodeRune s")
    show ?thesis
    proof (cases "byte c < 0x80")
      case True
      then have "unquote (json_escape s' @ dquote # t) = Some (ToValid s', t)" using 1(1) Cons by simp
      moreover have "ToValid (c # s') = c # ToValid s'"
        using True by (subst ToValid.simps) (simp add: DecodeRune_ascii good_rune_def rune_error_def)
      ultimately show ?thesis using True Cons
        by (subst json_escape.simps) (simp add: unquote_ascii_escape)
    next
      case False
      let ?u = "json_escape (drop w s) @ dquote # t"
      have ih: "unquote ?u = Some (ToValid (drop w s), t)"
        using 1(2) [OF Cons False rw [symmetric]] by simp
      consider (bad) "r = rune_error \<and> w = 1" | (line) "r = 0x2028 \<or> r = 0x2029"
        | (raw) "\<not> (r = rune_error \<and> w = 1)" "r \<noteq> 0x2028" "r \<noteq> 0x2029" by blast
      then show ?thesis
      proof cases
        case bad
        then have v: "ToValid s = EncodeRune rune_error @ ToValid (drop w s)"
          using rw Cons by (simp add: ToValid.simps(2) good_rune_def)
        have d: "DecodeRune (c # s') = (rune_error, 1)" using rw Cons bad by simp
        have "json_escape (c # s') = backslash # ''ufffd'' @ json_escape s'"
          using False by (subst json_escape.simps) (simp only: d list.case prod.case if_False simp_thms if_True drop_Suc_Cons One_nat_def drop_0 append_Cons append_Nil)
        then have "json_escape s = backslash # ''u'' @ hex_digits 4 rune_error @ json_escape (drop w s)"
          using Cons bad by (simp add: hex_digits_rune_error)
        moreover have "rune_error < 65536" "\<not> (0xD800 \<le> rune_error \<and> rune_error < 0xE000)"
          by (simp_all add: rune_error_def)
        ultimately show ?thesis using ih v unquote_u_hex [of rune_error ?u] by simp
      next
        case line
        then have g: "good_rune (DecodeRune (c # s'))" using rw Cons by (auto simp: good_rune_def rune_error_def)
        then have enc: "EncodeRune r = take w s" "ToValid s = take w s @ ToValid (drop w s)"
          using EncodeRune_DecodeRune [of c s'] rw Cons by (simp_all add: ToValid.simps(2))
        have "json_escape s = backslash # ''u'' @ hex_digits 4 r @ json_escape (drop w s)"
          using Cons False rw line by (subst json_escape.simps) (auto simp: rune_error_def)
        moreover have "r < 65536" "\<not> (0xD800 \<le> r \<and> r < 0xE000)" using line by auto
        ultimately show ?thesis using ih enc unquote_u_hex [of r ?u] by simp
      next
        case raw
        then have g: "good_rune (DecodeRune (c # s'))" using rw Cons by (auto simp: good_rune_def)
        then have enc: "EncodeRune r = take w s" "ToValid s = take w s @ ToValid (drop w s)"
          using EncodeRune_DecodeRune [of c s'] rw Cons by (simp_all add: ToValid.simps(2))
        have j: "json_escape s = take w s @ json_escape (drop w s)"
          using Cons False rw raw by (subst json_escape.simps) auto
        have w: "0 < w" using rw Cons by (metis DecodeRune_pos)
        have "DecodeRune (take w s @ ?u) = (r, w)" using DecodeRune_take [of c s'] g rw Cons by simp
        moreover obtain u where u: "take w s @ ?u = c # u" using w Cons by (cases w) simp_all
        moreover have "drop w (take w s @ ?u) = ?u"
          using DecodeRune_width_le [of s] rw Cons by simp
        ultimately have "unquote (c # u) = put_front (EncodeRune r) (unquote ?u)"
          using False by (subst unquote.simps) (auto simp: dquote_def backslash_def)
        then show ?thesis using j u ih enc by simp
      qed
    qed
  qed
qed

end
