(* ===== verification/Parse_Float.thy ===== *)
theory Parse_Float
  imports Json_Decode
begin

text \<open>
  \<^verbatim>\<open>strconv.ParseFloat\<close> on the number literals of JSON: the decimal value rounded to the nearest
  float64, ties to even, with subnormal results and overflow. An exponent counts only until it
  passes 10000, as in the library.
\<close>

section \<open>Rounding a fraction\<close>

text \<open>The numerator and denominator of \<open>num / (den * 2 ^ e)\<close>.\<close>

definition scaled :: "int \<Rightarrow> int \<Rightarrow> int \<Rightarrow> int \<times> int" where
  "scaled num den e = (num * 2 ^ nat (- e), den * 2 ^ nat e)"

text \<open>The quotient to the nearest integer, ties to even.\<close>

definition div_even :: "int \<Rightarrow> int \<Rightarrow> int" where
  "div_even n d =
     (let q = n div d; r = n mod d in if 2 * r > d \<or> (2 * r = d \<and> odd q) then q + 1 else q)"

text \<open>
  The exponent of the last bit of a 53-bit mantissa for \<open>num / den\<close>, not below that of the
  smallest subnormal number.
\<close>

definition float_exponent :: "int \<Rightarrow> int \<Rightarrow> int" where
  "float_exponent num den =
     (let e = bitlen num - bitlen den - 53; (n, d) = scaled num den e
      in max (if 2 ^ 53 \<le> n div d then e + 1 else e) (-1074))"

definition round_fraction :: "int \<Rightarrow> int \<Rightarrow> f64 option" where
  "round_fraction num den =
     (let e = float_exponent num den; (n, d) = scaled num den e; m = div_even n d;
          (m, e) = (if m = 2 ^ 53 then (2 ^ 52, e + 1) else (m, e))
      in if 971 < e then None else Some (F64 m e))"

section \<open>Literals\<close>

definition digits_value :: "string \<Rightarrow> nat" where
  "digits_value s = foldl (\<lambda>n c. n * 10 + (byte c - 48)) 0 s"

definition exponent_value :: "string \<Rightarrow> nat" where
  "exponent_value s = foldl (\<lambda>n c. if n < 10000 then n * 10 + (byte c - 48) else n) 0 s"

definition literal_exponent :: "string \<Rightarrow> int" where
  "literal_exponent s =
     (case s of
        [] \<Rightarrow> 0
      | _ # r \<Rightarrow>
          (case r of
             [] \<Rightarrow> 0
           | c # ds \<Rightarrow> if c = CHR ''-'' then - int (exponent_value ds)
                       else if c = CHR ''+'' then int (exponent_value ds)
                       else int (exponent_value r)))"

fun negate :: "f64 \<Rightarrow> f64" where
  "negate (F64 m e) = F64 (- m) e"

definition decimal :: "nat \<Rightarrow> int \<Rightarrow> f64 option" where
  "decimal n x = (if n = 0 then Some (F64 0 0) else round_fraction (int n * 10 ^ nat x) (10 ^ nat (- x)))"

definition ParseFloat :: "string \<Rightarrow> f64 option" where
  "ParseFloat l =
     (let neg = (take 1 l = ''-''); s = (if neg then tl l else l);
          ip = takeWhile is_digit s; s1 = dropWhile is_digit s;
          point = (take 1 s1 = ''.'');
          fp = (if point then takeWhile is_digit (tl s1) else []);
          s2 = (if point then dropWhile is_digit (tl s1) else s1)
      in map_option (if neg then negate else (\<lambda>x. x))
           (decimal (digits_value (ip @ fp)) (literal_exponent s2 - int (length fp))))"

lemma ParseFloat_examples:
  "ParseFloat ''0.1'' = Some (F64 7205759403792794 (-56))"
  "ParseFloat ''2.50'' = Some (F64 5629499534213120 (-51))"
  "ParseFloat ''-0'' = Some (F64 0 0)"
  by code_simp+

section \<open>The result is the nearest float\<close>

lemma div_even_nearest:
  assumes "0 < d"
  shows "2 * \<bar>n - div_even n d * d\<bar> \<le> d"
proof -
  have r: "0 \<le> n mod d" "n mod d < d" using assms by simp_all
  show ?thesis
  proof (cases "2 * (n mod d) > d \<or> (2 * (n mod d) = d \<and> odd (n div d))")
    case True
    then have "div_even n d = n div d + 1" by (simp add: div_even_def Let_def)
    then have "n - div_even n d * d = n mod d - d" by (simp add: minus_div_mult_eq_mod [symmetric] algebra_simps)
    with True r show ?thesis by auto
  next
    case False
    then have "div_even n d = n div d" by (simp only: div_even_def Let_def if_False)
    then have "n - div_even n d * d = n mod d" by (simp add: minus_div_mult_eq_mod)
    with False r show ?thesis by auto
  qed
qed

definition f64_val :: "f64 \<Rightarrow> real" where
  "f64_val x = mant x * 2 powi expo x"

lemma scaled_real:
  assumes "0 < den" and "scaled num den e = (n, d)"
  shows "0 < d" and "real_of_int n / real_of_int d = real_of_int num / real_of_int den * 2 powi (- e)"
  using assms by (auto simp: scaled_def power_int_def field_simps)

lemma fraction_bits:
  assumes "0 < num" and "0 < den"
  shows "2 ^ 52 \<le> real_of_int num / real_of_int den * 2 powi (- (bitlen num - bitlen den - 53))"
    and "real_of_int num / real_of_int den * 2 powi (- (bitlen num - bitlen den - 53)) < 2 ^ 54"
proof -
  have bits: "2 powi (bitlen x - 1) \<le> real_of_int x" "real_of_int x < 2 powi (bitlen x)" if "0 < x" for x
  proof -
    have "1 \<le> bitlen x" using that by (simp add: bitlen_alt_def)
    then have "real_of_int (2 ^ nat (bitlen x - 1)) = 2 powi (bitlen x - 1)"
      "real_of_int (2 ^ nat (bitlen x)) = 2 powi (bitlen x)"
      by (simp_all add: power_int_def)
    with bitlen_bounds [OF that] show "2 powi (bitlen x - 1) \<le> real_of_int x" "real_of_int x < 2 powi (bitlen x)"
      by (metis of_int_le_iff, metis of_int_less_iff)
  qed
  let ?a = "bitlen num" and ?b = "bitlen den"
  have d: "0 < real_of_int den" using assms(2) by simp
  have "(2 :: real) powi (?a - 1) / 2 powi ?b \<le> real_of_int num / real_of_int den"
    using bits [OF assms(1)] bits [OF assms(2)] d assms(1) by (intro frac_le) simp_all
  then have "(2 :: real) powi (?a - 1) / 2 powi ?b * 2 powi (- (?a - ?b - 53))
      \<le> real_of_int num / real_of_int den * 2 powi (- (?a - ?b - 53))"
    by (rule mult_right_mono) simp
  moreover have "(2 :: real) powi (?a - 1) / 2 powi ?b * 2 powi (- (?a - ?b - 53)) = 2 powi 52"
    by (simp add: power_int_diff [symmetric] power_int_add [symmetric])
  ultimately show "2 ^ 52 \<le> real_of_int num / real_of_int den * 2 powi (- (?a - ?b - 53))"
    by (simp add: power_int_def)
  have "real_of_int num / real_of_int den < (2 :: real) powi ?a / 2 powi (?b - 1)"
    using bits [OF assms(1)] bits [OF assms(2)] assms(1) by (intro frac_less) simp_all
  then have "real_of_int num / real_of_int den * 2 powi (- (?a - ?b - 53))
      < (2 :: real) powi ?a / 2 powi (?b - 1) * 2 powi (- (?a - ?b - 53))"
    by (rule mult_strict_right_mono) simp
  moreover have "(2 :: real) powi ?a / 2 powi (?b - 1) * 2 powi (- (?a - ?b - 53)) = 2 powi 54"
    by (simp add: power_int_diff [symmetric] power_int_add [symmetric])
  ultimately show "real_of_int num / real_of_int den * 2 powi (- (?a - ?b - 53)) < 2 ^ 54"
    by (simp add: power_int_def)
qed

lemma float_exponent_bounds:
  assumes "0 < num" and "0 < den" and "e = float_exponent num den"
  shows "real_of_int num / real_of_int den * 2 powi (- e) < 2 ^ 53"
    and "-1074 \<le> e" and "e = -1074 \<or> 2 ^ 52 \<le> real_of_int num / real_of_int den * 2 powi (- e)"
proof -
  define y where "y = (\<lambda>k. real_of_int num / real_of_int den * 2 powi (- k))"
  define e0 where "e0 = bitlen num - bitlen den - 53"
  obtain n d where nd: "scaled num den e0 = (n, d)" by (cases "scaled num den e0")
  define e2 where "e2 = (if 2 ^ 53 \<le> n div d then e0 + 1 else e0)"
  have e: "e = max e2 (-1074)"
    using assms(3) nd by (simp add: float_exponent_def Let_def e0_def [symmetric] e2_def)
  have b: "2 ^ 52 \<le> y e0" "y e0 < 2 ^ 54" using fraction_bits [OF assms(1,2)] by (simp_all add: y_def e0_def)
  have half: "y (k + 1) = y k / 2" for k by (simp add: y_def power_int_diff)
  have q: "2 ^ 53 \<le> n div d \<longleftrightarrow> 2 ^ 53 \<le> y e0"
  proof -
    have "n div d = \<lfloor>real_of_int n / real_of_int d\<rfloor>" by (simp add: floor_divide_of_int_eq)
    then have "n div d = \<lfloor>y e0\<rfloor>" using scaled_real [OF assms(2) nd] by (simp add: y_def)
    then show ?thesis by (simp add: le_floor_iff)
  qed
  have e2: "2 ^ 52 \<le> y e2" "y e2 < 2 ^ 53"
    using b q half [of e0] by (auto simp: e2_def)
  show "-1074 \<le> e" by (simp add: e)
  have "y e \<le> y e2"
    using assms(1,2) by (auto simp: y_def e intro!: divide_right_mono mult_left_mono power_int_increasing)
  then show "real_of_int num / real_of_int den * 2 powi (- e) < 2 ^ 53" using e2(2) by (simp add: y_def)
  show "e = -1074 \<or> 2 ^ 52 \<le> real_of_int num / real_of_int den * 2 powi (- e)"
    using e2(1) by (auto simp: e y_def max_def)
qed

text \<open>
  A fraction that does not overflow is rounded to a 53-bit mantissa, with an error of at most
  half a unit in the last place; the mantissa has all its bits unless the result is subnormal.
\<close>

lemma round_fraction_nearest:
  assumes "0 < num" and "0 < den" and "round_fraction num den = Some x"
  shows "0 \<le> mant x" and "mant x < 2 ^ 53" and "-1074 \<le> expo x" and "expo x \<le> 971"
    and "\<bar>real_of_int num / real_of_int den - f64_val x\<bar> \<le> 2 powi expo x / 2"
    and "expo x = -1074 \<or> 2 ^ 52 \<le> mant x"
proof -
  define e where "e = float_exponent num den"
  define y where "y = real_of_int num / real_of_int den * 2 powi (- e)"
  obtain n d where nd: "scaled num den e = (n, d)" by (cases "scaled num den e")
  define m where "m = div_even n d"
  have d: "0 < d" and y: "real_of_int n / real_of_int d = y"
    using scaled_real [OF assms(2) nd] by (simp_all add: y_def)
  have b: "y < 2 ^ 53" "-1074 \<le> e" "e = -1074 \<or> 2 ^ 52 \<le> y"
    using float_exponent_bounds [OF assms(1,2) e_def] by (simp_all add: y_def)
  have "0 \<le> y" using assms(1,2) by (simp add: y_def)
  have "real_of_int (2 * \<bar>n - m * d\<bar>) \<le> real_of_int d"
    using div_even_nearest [OF d, of n] unfolding m_def of_int_le_iff .
  then have "2 * \<bar>real_of_int n - real_of_int m * real_of_int d\<bar> \<le> real_of_int d" by simp
  moreover have "real_of_int n = y * real_of_int d" using y d by (simp add: field_simps)
  ultimately have "2 * \<bar>(y - real_of_int m) * real_of_int d\<bar> \<le> real_of_int d" by (simp add: left_diff_distrib)
  then have near: "\<bar>y - real_of_int m\<bar> \<le> 1 / 2" using d by (simp add: abs_mult)
  have "-1 < m" using near \<open>0 \<le> y\<close> by linarith
  moreover have "real_of_int m < real_of_int (2 ^ 53 + 1)"
  proof -
    have "real_of_int m \<le> y + 1 / 2" using near by linarith
    also have "\<dots> < 2 ^ 53 + 1" using b(1) by linarith
    finally show ?thesis by (simp only: of_int_add of_int_power of_int_numeral of_int_1)
  qed
  moreover have "2 ^ 52 \<le> y \<Longrightarrow> real_of_int (2 ^ 52 - 1) < real_of_int m"
  proof -
    assume "2 ^ 52 \<le> y"
    then have "2 ^ 52 - 1 < y - 1 / 2" by linarith
    also have "\<dots> \<le> real_of_int m" using near by linarith
    finally show ?thesis by (simp only: of_int_diff of_int_power of_int_numeral of_int_1)
  qed
  ultimately have m: "0 \<le> m" "m \<le> 2 ^ 53" "2 ^ 52 \<le> y \<Longrightarrow> 2 ^ 52 \<le> m"
    unfolding of_int_less_iff by simp_all
  have x: "x = (if m = 2 ^ 53 then F64 (2 ^ 52) (e + 1) else F64 m e)" "(if m = 2 ^ 53 then e + 1 else e) \<le> 971"
    using assms(3) nd by (auto simp: round_fraction_def Let_def e_def [symmetric] m_def [symmetric] split: if_splits)
  have "real_of_int num / real_of_int den = y * 2 powi e"
    by (simp add: y_def power_int_minus)
  moreover have v: "f64_val x = real_of_int m * 2 powi e"
    by (simp add: x(1) f64_val_def power_int_add)
  ultimately have "\<bar>real_of_int num / real_of_int den - f64_val x\<bar> = \<bar>y - real_of_int m\<bar> * 2 powi e"
    by (simp add: left_diff_distrib [symmetric] abs_mult)
  also have "\<dots> \<le> 1 / 2 * 2 powi e" using near by (intro mult_right_mono) simp_all
  also have "\<dots> \<le> 2 powi expo x / 2" by (simp add: x(1) power_int_add)
  finally show "\<bar>real_of_int num / real_of_int den - f64_val x\<bar> \<le> 2 powi expo x / 2" .
  show "0 \<le> mant x" "mant x < 2 ^ 53" "-1074 \<le> expo x" "expo x \<le> 971"
    using x m b(2) by auto
  show "expo x = -1074 \<or> 2 ^ 52 \<le> mant x" using x m(3) b(3) by auto
qed

text \<open>A decimal number that does not overflow is read as the nearest float64.\<close>

lemma decimal_nearest:
  assumes "decimal n x = Some f"
  shows "\<bar>real n * 10 powi x - f64_val f\<bar> \<le> 2 powi expo f / 2"
proof (cases "n = 0")
  case True
  with assms show ?thesis by (auto simp: decimal_def f64_val_def)
next
  case False
  then have r: "round_fraction (int n * 10 ^ nat x) (10 ^ nat (- x)) = Some f"
    using assms by (simp add: decimal_def)
  have "real_of_int (int n * 10 ^ nat x) / real_of_int (10 ^ nat (- x)) = real n * 10 powi x"
    by (simp add: power_int_def field_simps)
  with round_fraction_nearest(5) [OF _ _ r] False show ?thesis by simp
qed

end
