(* ===== verification/Job_Decode.thy ===== *)
theory Job_Decode
  imports Parse_Float Job_Types
begin

text \<open>
  The body of \<^verbatim>\<open>POST /jobs\<close> as a \<^verbatim>\<open>JobRequest\<close>: \<^verbatim>\<open>json.Decoder.Decode\<close> into the structures of
  \<^verbatim>\<open>pkg/executor/types.go\<close> with their field tags. \<open>None\<close> is an error, of the syntax or of a type; the
  handler treats them alike. Decoding writes into what is already there, which shows when a key
  occurs twice: structures and maps are merged, and the elements of an array are decoded into
  the elements an earlier array left behind.
\<close>

section \<open>Basic types\<close>

text \<open>The second argument is the old value. \<^verbatim>\<open>null\<close> leaves strings and booleans alone.\<close>

definition dec_string :: "json \<Rightarrow> string \<Rightarrow> string option" where
  "dec_string v old = (case v of JNull \<Rightarrow> Some old | JString s \<Rightarrow> Some s | _ \<Rightarrow> None)"

definition dec_bool :: "json \<Rightarrow> bool \<Rightarrow> bool option" where
  "dec_bool v old = (case v of JNull \<Rightarrow> Some old | JBool b \<Rightarrow> Some b | _ \<Rightarrow> None)"

definition dec_int :: "json \<Rightarrow> i64 \<Rightarrow> i64 option" where
  "dec_int v old = (case v of JNull \<Rightarrow> Some old | JNumber l \<Rightarrow> ParseInt l | _ \<Rightarrow> None)"

definition dec_float :: "json \<Rightarrow> f64 \<Rightarrow> f64 option" where
  "dec_float v old = (case v of JNull \<Rightarrow> Some old | JNumber l \<Rightarrow> ParseFloat l | _ \<Rightarrow> None)"

text \<open>A pointer: \<^verbatim>\<open>null\<close> makes it nil, anything else is decoded into its target or a new zero value.\<close>

definition dec_pointer ::
  "(json \<Rightarrow> 'a \<Rightarrow> 'a option) \<Rightarrow> 'a \<Rightarrow> json \<Rightarrow> 'a option \<Rightarrow> 'a option option" where
  "dec_pointer dec zero v old =
     (if v = JNull then Some None
      else map_option Some (dec v (case old of None \<Rightarrow> zero | Some x \<Rightarrow> x)))"

section \<open>Structures\<close>

text \<open>
  A structure is a table of its fields: the name of the tag and how the field is decoded. A key
  finds a field by its exact name or else by a name that differs only in case; other keys are
  skipped.
\<close>

type_synonym 's fields = "(string \<times> (json \<Rightarrow> 's \<Rightarrow> 's option)) list"

definition find_field :: "unicode \<Rightarrow> 's fields \<Rightarrow> string \<Rightarrow> (json \<Rightarrow> 's \<Rightarrow> 's option) option" where
  "find_field uc tab key =
     (case map_of tab key of
        Some dec \<Rightarrow> Some dec
      | None \<Rightarrow> map_option snd (find (\<lambda>(name, dec). EqualFold uc key name) tab))"

fun dec_members :: "unicode \<Rightarrow> 's fields \<Rightarrow> (string \<times> json) list \<Rightarrow> 's \<Rightarrow> 's option" where
  "dec_members uc tab [] s = Some s"
| "dec_members uc tab ((key, v) # kvs) s =
     (case find_field uc tab key of
        None \<Rightarrow> dec_members uc tab kvs s
      | Some dec \<Rightarrow>
          (case dec v s of None \<Rightarrow> None | Some s' \<Rightarrow> dec_members uc tab kvs s'))"

definition dec_struct :: "unicode \<Rightarrow> 's fields \<Rightarrow> json \<Rightarrow> 's \<Rightarrow> 's option" where
  "dec_struct uc tab v old =
     (case v of JNull \<Rightarrow> Some old | JObject kvs \<Rightarrow> dec_members uc tab kvs old | _ \<Rightarrow> None)"

section \<open>The request\<close>

definition zero_secret :: Secret where
  "zero_secret = \<lparr>sec_Name = [], sec_Value = [], sec_FilePath = None\<rparr>"

definition secret_fields :: "Secret fields" where
  "secret_fields =
     [(''name'', \<lambda>v s. map_option (\<lambda>x. s\<lparr>sec_Name := x\<rparr>) (dec_string v (sec_Name s))),
      (''value'', \<lambda>v s. map_option (\<lambda>x. s\<lparr>sec_Value := x\<rparr>) (dec_string v (sec_Value s))),
      (''file_path'', \<lambda>v s. map_option (\<lambda>x. s\<lparr>sec_FilePath := x\<rparr>)
                               (dec_pointer dec_string [] v (sec_FilePath s)))]"

definition auth_fields :: "RegistryAuth fields" where
  "auth_fields =
     [(''username'', \<lambda>v a. map_option (\<lambda>x. a\<lparr>auth_Username := x\<rparr>) (dec_string v (auth_Username a))),
      (''password'', \<lambda>v a. map_option (\<lambda>x. a\<lparr>auth_Password := x\<rparr>) (dec_string v (auth_Password a)))]"

text \<open>The elements of an array, over the backing array of the slice.\<close>

fun dec_elems :: "unicode \<Rightarrow> json list \<Rightarrow> Secret list \<Rightarrow> Secret list option" where
  "dec_elems uc [] backing = Some []"
| "dec_elems uc (v # vs) backing =
     (case dec_struct uc secret_fields v (case backing of [] \<Rightarrow> zero_secret | b # _ \<Rightarrow> b) of
        None \<Rightarrow> None
      | Some x \<Rightarrow> map_option (Cons x) (dec_elems uc vs (tl backing)))"

text \<open>The slice and its backing array.\<close>

definition dec_secrets :: "unicode \<Rightarrow> json \<Rightarrow> Secret list \<Rightarrow> (Secret list \<times> Secret list) option" where
  "dec_secrets uc v backing =
     (case v of
        JNull \<Rightarrow> Some ([], [])
      | JArray vs \<Rightarrow>
          if vs = [] then Some ([], [])
          else map_option (\<lambda>xs. (xs, xs @ drop (length xs) backing)) (dec_elems uc vs backing)
      | _ \<Rightarrow> None)"

fun dec_entries :: "(string \<times> json) list \<Rightarrow> (string \<rightharpoonup> string) \<Rightarrow> (string \<rightharpoonup> string) option" where
  "dec_entries [] m = Some m"
| "dec_entries ((k, v) # kvs) m =
     (case dec_string v [] of None \<Rightarrow> None | Some x \<Rightarrow> dec_entries kvs (m(k \<mapsto> x)))"

definition dec_env :: "json \<Rightarrow> (string \<rightharpoonup> string) \<Rightarrow> (string \<rightharpoonup> string) option" where
  "dec_env v old =
     (case v of JNull \<Rightarrow> Some Map.empty | JObject kvs \<Rightarrow> dec_entries kvs old | _ \<Rightarrow> None)"

text \<open>The request under construction, with the backing array of its secrets.\<close>

type_synonym decoding = "JobRequest \<times> Secret list"

definition set_field :: "('a \<Rightarrow> JobRequest \<Rightarrow> JobRequest) \<Rightarrow> 'a option \<Rightarrow> decoding \<Rightarrow> decoding option" where
  "set_field upd x rb = map_option (\<lambda>y. (upd y (fst rb), snd rb)) x"

definition job_fields :: "unicode \<Rightarrow> decoding fields" where
  "job_fields uc =
     [(''image'', \<lambda>v rb. set_field (\<lambda>x r. r\<lparr>req_Image := x\<rparr>) (dec_string v (req_Image (fst rb))) rb),
      (''command'', \<lambda>v rb. set_field (\<lambda>x r. r\<lparr>req_Command := x\<rparr>) (dec_string v (req_Command (fst rb))) rb),
      (''env'', \<lambda>v rb. set_field (\<lambda>x r. r\<lparr>req_Env := x\<rparr>) (dec_env v (req_Env (fst rb))) rb),
      (''secrets'', \<lambda>v rb. map_option (\<lambda>(xs, b). ((fst rb)\<lparr>req_Secrets := xs\<rparr>, b)) (dec_secrets uc v (snd rb))),
      (''timeout_seconds'', \<lambda>v rb. set_field (\<lambda>x r. r\<lparr>req_TimeoutSeconds := x\<rparr>)
         (dec_pointer dec_int 0 v (req_TimeoutSeconds (fst rb))) rb),
      (''cpu_limit'', \<lambda>v rb. set_field (\<lambda>x r. r\<lparr>req_CPULimit := x\<rparr>)
         (dec_pointer dec_float (F64 0 0) v (req_CPULimit (fst rb))) rb),
      (''memory_limit_mb'', \<lambda>v rb. set_field (\<lambda>x r. r\<lparr>req_MemoryLimitMB := x\<rparr>)
         (dec_pointer dec_int 0 v (req_MemoryLimitMB (fst rb))) rb),
      (''network_access'', \<lambda>v rb. set_field (\<lambda>x r. r\<lparr>req_NetworkAccess := x\<rparr>)
         (dec_bool v (req_NetworkAccess (fst rb))) rb),
      (''stream_logs'', \<lambda>v rb. set_field (\<lambda>x r. r\<lparr>req_StreamLogs := x\<rparr>)
         (dec_bool v (req_StreamLogs (fst rb))) rb),
      (''registry_auth'', \<lambda>v rb. set_field (\<lambda>x r. r\<lparr>req_RegistryAuth := x\<rparr>)
         (dec_pointer (dec_struct uc auth_fields) \<lparr>auth_Username = [], auth_Password = []\<rparr> v
            (req_RegistryAuth (fst rb))) rb)]"

definition zero_request :: JobRequest where
  "zero_request = \<lparr>req_Image = [], req_Command = [], req_Env = Map.empty, req_Secrets = [],
     req_TimeoutSeconds = None, req_CPULimit = None, req_MemoryLimitMB = None,
     req_NetworkAccess = False, req_StreamLogs = False, req_RegistryAuth = None\<rparr>"

definition DecodeJobRequest :: "unicode \<Rightarrow> string \<Rightarrow> JobRequest option" where
  "DecodeJobRequest uc body =
     (case Decode body of
        None \<Rightarrow> None
      | Some (v, _) \<Rightarrow> map_option fst (dec_struct uc (job_fields uc) v (zero_request, [])))"

end
