(* ===== verification/Health.thy ===== *)
theory Health
  imports Worker
begin

text \<open>
  \<^verbatim>\<open>pkg/health/checker.go\<close>: the health check pings the runtime under a timeout, the readiness
  check asks the executor. The latter takes the executor's mutex twice, so it reads two
  states that need not be the same.
\<close>

record 'w Checker =
  chk_runtime :: "'w Runtime"
  chk_timeout :: duration

definition NewChecker :: "'w Runtime \<Rightarrow> duration \<Rightarrow> 'w Checker" where
  "NewChecker rt timeout = \<lparr>chk_runtime = rt, chk_timeout = timeout\<rparr>"

definition Check :: "('w \<Rightarrow> int) \<Rightarrow> 'w Checker \<Rightarrow> Ctx \<Rightarrow> ('w, HealthStatus) io" where
  "Check clock c ctx w =
     (let timeoutCtx = WithTimeout (clock w) ctx (chk_timeout c) in
      case rt_Ping (chk_runtime c) timeoutCtx w of
        (Some err, w') \<Rightarrow>
          (\<lparr>hs_Status = ''unhealthy'', hs_Runtime = ''runtime unavailable: '' @ err\<rparr>, w')
      | (None, w') \<Rightarrow> (\<lparr>hs_Status = ''healthy'', hs_Runtime = ''connected''\<rparr>, w'))"

text \<open>\<open>e1\<close> is the state at the call of \<^verbatim>\<open>IsReady\<close>, \<open>e2\<close> the one at the call of \<^verbatim>\<open>CurrentJobID\<close>.\<close>

definition Checker_IsReady :: "Executor \<Rightarrow> Executor \<Rightarrow> ReadinessStatus" where
  "Checker_IsReady e1 e2 =
     (if IsReady e1 then \<lparr>rs_Status = ''ready'', rs_JobID = []\<rparr>
      else \<lparr>rs_Status = ''busy'', rs_JobID = CurrentJobID e2\<rparr>)"

lemma Check_status:
  "hs_Status (fst (Check clock c ctx w)) = ''healthy'' \<longleftrightarrow>
     fst (rt_Ping (chk_runtime c) (WithTimeout (clock w) ctx (chk_timeout c)) w) = None"
  by (simp add: Check_def Let_def split: prod.splits option.splits)

end
