(* ===== verification/Api.thy ===== *)
theory Api
  imports Job_Decode Validator_Proofs Health
begin

text \<open>
  \<^verbatim>\<open>pkg/api/handlers.go\<close> and the routes of \<^verbatim>\<open>pkg/api/server.go\<close>: what each request makes the
  worker answer, down to the bytes of the body, and what it does to the executor. A handler
  that calls the executor twice gets the state at each call, since other goroutines may act
  in between.
\<close>

section \<open>Replies\<close>

record HttpResponse =
  rsp_Status :: nat
  rsp_ContentType :: string
  rsp_Body :: string

definition newline :: char where
  "newline = CHR 0x0A"

text \<open>\<^verbatim>\<open>json.NewEncoder(w).Encode(v)\<close> ends the encoding with a line break.\<close>

definition json_response :: "nat \<Rightarrow> json \<Rightarrow> HttpResponse" where
  "json_response status v =
     \<lparr>rsp_Status = status, rsp_ContentType = ''application/json'', rsp_Body = json_encode v @ [newline]\<rparr>"

record ErrorBody =
  eb_Code :: string
  eb_Message :: string
  eb_Details :: "ValidationError list"

definition ErrorResponse_json :: "ErrorBody \<Rightarrow> json" where
  "ErrorResponse_json eb =
     JObject (field ''error'' (JObject
       (field ''code'' (JString (eb_Code eb)) @ field ''message'' (JString (eb_Message eb))
        @ (if eb_Details eb = [] then []
           else field ''details'' (JArray (map ValidationError_json (eb_Details eb)))))))"

definition writeError :: "nat \<Rightarrow> string \<Rightarrow> string \<Rightarrow> ValidationError list \<Rightarrow> HttpResponse" where
  "writeError statusCode code message details =
     json_response statusCode
       (ErrorResponse_json \<lparr>eb_Code = code, eb_Message = message, eb_Details = details\<rparr>)"

section \<open>Submitting a job\<close>

definition bad_json :: HttpResponse where
  "bad_json = writeError 400 ''VALIDATION_ERROR'' ''Request body is malformed or not valid JSON'' []"

definition worker_busy :: HttpResponse where
  "worker_busy = writeError 409 ''WORKER_BUSY'' ''Worker is currently executing a job'' []"

definition registry_denied :: "ValidationError list \<Rightarrow> HttpResponse" where
  "registry_denied errs =
     writeError 403 ''REGISTRY_DENIED'' ''Image registry is not in the approved whitelist'' errs"

definition validation_failed :: "ValidationError list \<Rightarrow> HttpResponse" where
  "validation_failed errs = writeError 400 ''VALIDATION_ERROR'' ''Request validation failed'' errs"

text \<open>
  The handler over any executor that offers \<open>ready\<close> and \<open>put\<close>. \<open>body\<close> is what the client sent;
  \<open>s1\<close> is the state when the handler asks whether the
  executor is ready, \<open>s2\<close> the state when it submits.
\<close>

definition handleSubmitJob ::
  "('s \<Rightarrow> bool) \<Rightarrow> (JobRequest \<Rightarrow> 's \<Rightarrow> (go_error + string) \<times> 's) \<Rightarrow> unicode \<Rightarrow> string list \<Rightarrow> string list
     \<Rightarrow> string \<Rightarrow> 's \<Rightarrow> 's \<Rightarrow> HttpResponse \<times> 's" where
  "handleSubmitJob ready put uc order whitelist body s1 s2 =
     (case DecodeJobRequest uc body of
        None \<Rightarrow> (bad_json, s2)
      | Some req \<Rightarrow>
          (let validationErrors = ValidateJobRequest uc order req whitelist in
           if validationErrors \<noteq> []
           then (if list_ex is_registry_rejection validationErrors
                 then (registry_denied validationErrors, s2)
                 else (validation_failed validationErrors, s2))
           else if \<not> ready s1 then (worker_busy, s2)
           else (case put req s2 of
                   (Inl _, s3) \<Rightarrow> (worker_busy, s3)
                 | (Inr jobID, s3) \<Rightarrow>
                     (json_response 202 (JObject (field ''job_id'' (JString jobID))), s3))))"

section \<open>Fetching a result\<close>

definition id_required :: HttpResponse where
  "id_required = writeError 400 ''VALIDATION_ERROR'' ''Job ID is required'' []"

definition handleGetResult :: "unicode \<Rightarrow> string \<Rightarrow> Executor \<Rightarrow> HttpResponse" where
  "handleGetResult uc jid e =
     (if jid = [] then id_required
      else (case GetResult jid e of
              (Some result, True) \<Rightarrow> json_response 200 (ExecutionResult_json result)
            | (None, True) \<Rightarrow> json_response 200 JNull
            | (_, False) \<Rightarrow>
                writeError 404 ''NOT_FOUND'' (''Job '' @ quote uc jid @ '' not found or not yet complete'') []))"

section \<open>Streaming logs\<close>

record EndEvent =
  ee_Status :: string
  ee_ExitCode :: "i64 option"

definition EndEvent_json :: "EndEvent \<Rightarrow> json" where
  "EndEvent_json ev =
     JObject (field ''status'' (JString (ee_Status ev)) @ omit_nil ''exit_code'' (ee_ExitCode ev))"

definition buildEndEvent :: "string \<Rightarrow> Executor \<Rightarrow> EndEvent" where
  "buildEndEvent jid e =
     (case GetResult jid e of
        (Some result, True) \<Rightarrow> \<lparr>ee_Status = res_Status result, ee_ExitCode = res_ExitCode result\<rparr>
      | _ \<Rightarrow> \<lparr>ee_Status = ''unknown'', ee_ExitCode = None\<rparr>)"

definition sse_frame :: "string \<Rightarrow> string \<Rightarrow> string" where
  "sse_frame event data = ''event: '' @ event @ newline # ''data: '' @ data @ [newline, newline]"

text \<open>
  The loop over the subscriber's channel: \<open>lines\<close> is what it delivers until it is closed, \<open>room\<close>
  how many frames can be written before the client is gone. The result is what was written and
  whether the loop ran to its end.
\<close>

fun stream_lines :: "(int \<Rightarrow> string option) \<Rightarrow> nat \<Rightarrow> LogLine list \<Rightarrow> string \<times> nat \<times> bool" where
  "stream_lines print_time room [] = ([], room, True)"
| "stream_lines print_time room (line # lines) =
     (case LogLine_json print_time line of
        None \<Rightarrow> stream_lines print_time room lines
      | Some v \<Rightarrow>
          (case room of
             0 \<Rightarrow> ([], 0, False)
           | Suc room' \<Rightarrow>
               (case stream_lines print_time room' lines of
                  (body, room'', whole) \<Rightarrow>
                    (sse_frame ''log'' (json_encode v) @ body, room'', whole))))"

text \<open>
  \<open>e1\<close> is the state at the subscription, \<open>e2\<close> the one when the end event is built; \<open>flushes\<close>
  says whether the response writer can flush.
\<close>

definition handleStreamLogs ::
  "unicode \<Rightarrow> (int \<Rightarrow> string option) \<Rightarrow> bool \<Rightarrow> nat \<Rightarrow> string \<Rightarrow> Executor \<Rightarrow> LogLine list \<Rightarrow> Executor \<Rightarrow> HttpResponse" where
  "handleStreamLogs uc print_time flushes room jid e1 lines e2 =
     (if jid = [] then id_required
      else if \<not> flushes then writeError 500 ''INTERNAL_ERROR'' ''Streaming not supported'' []
      else (case StreamLogs jid e1 of
              None \<Rightarrow> writeError 404 ''NOT_FOUND'' (''Job '' @ quote uc jid @ '' not found'') []
            | Some _ \<Rightarrow>
                (case stream_lines print_time room lines of
                   (body, room', whole) \<Rightarrow>
                     \<lparr>rsp_Status = 200, rsp_ContentType = ''text/event-stream'',
                      rsp_Body = (if whole \<and> room' > 0
                                  then body @ sse_frame ''end'' (json_encode (EndEvent_json (buildEndEvent jid e2)))
                                  else body)\<rparr>)))"

section \<open>Health and readiness\<close>

definition handleHealth :: "('w \<Rightarrow> int) \<Rightarrow> 'w Checker \<Rightarrow> Ctx \<Rightarrow> ('w, HttpResponse) io" where
  "handleHealth clock health ctx w =
     (case Check clock health ctx w of (status, w') \<Rightarrow> (json_response 200 (HealthStatus_json status), w'))"

definition handleReady :: "Executor \<Rightarrow> Executor \<Rightarrow> HttpResponse" where
  "handleReady e1 e2 = json_response 200 (ReadinessStatus_json (Checker_IsReady e1 e2))"

section \<open>Routing\<close>

text \<open>
  The five patterns of \<^verbatim>\<open>NewServer\<close>, over the segments of a cleaned path (the server redirects
  other paths to their cleaned form before it matches). A pattern with GET also matches HEAD;
  a wildcard matches one segment, which is not empty; a path that matches only under another
  method gets 405, any other path 404.
\<close>

datatype route =
    SubmitRoute
  | ResultRoute string
  | LogsRoute string
  | HealthRoute
  | ReadyRoute
  | MethodNotAllowed
  | NoRoute

definition match_path :: "string list \<Rightarrow> (string \<times> route) option" where
  "match_path segs =
     (case segs of
        [p] \<Rightarrow>
          if p = ''jobs'' then Some (''POST'', SubmitRoute)
          else if p = ''health'' then Some (''GET'', HealthRoute)
          else if p = ''ready'' then Some (''GET'', ReadyRoute) else None
      | [p, jid] \<Rightarrow> if p = ''jobs'' \<and> jid \<noteq> [] then Some (''GET'', ResultRoute jid) else None
      | [p, jid, q] \<Rightarrow>
          if p = ''jobs'' \<and> jid \<noteq> [] \<and> q = ''logs'' then Some (''GET'', LogsRoute jid) else None
      | _ \<Rightarrow> None)"

definition ServeMux :: "string \<Rightarrow> string list \<Rightarrow> route" where
  "ServeMux meth segs =
     (case match_path segs of
        None \<Rightarrow> NoRoute
      | Some (m, r) \<Rightarrow>
          if meth = m \<or> (m = ''GET'' \<and> meth = ''HEAD'') then r else MethodNotAllowed)"

end
