(* ===== verification/Json_Round_Trip.thy ===== *)
theory Json_Round_Trip
  imports Json_Decode
begin

text \<open>
  The decoder reads back what the encoder wrote: every value whose number literals are JSON
  numbers and whose nesting the decoder allows. Strings that are valid UTF-8 come back as they
  were, in others the invalid bytes are replaced.
\<close>

section \<open>Number literals\<close>

text \<open>What follows a number must not continue it.\<close>

definition number_ends :: "string \<Rightarrow> bool" where
  "number_ends s \<longleftrightarrow> s = [] \<or> \<not> is_digit (hd s) \<and> hd s \<noteq> CHR ''.'' \<and> hd s \<noteq> CHR ''e'' \<and> hd s \<noteq> CHR ''E''"

lemma number_ends_simps [simp]:
  "number_ends []" "number_ends (CHR '','' # s)" "number_ends (CHR '']'' # s)" "number_ends (CHR ''}'' # s)"
  by (simp_all add: number_ends_def is_digit_def)

lemma lex_digits_append:
  assumes "lex_digits s = Some (l, r)" and "r \<noteq> [] \<or> number_ends t"
  shows "lex_digits (s @ t) = Some (l, r @ t)"
proof (cases "r = []")
  case True
  then have s: "list_all is_digit s" "s \<noteq> []" "l = s"
    using assms(1) by (auto simp: lex_digits_def dropWhile_eq_Nil_conv list_all_iff split: if_splits)
  moreover have "takeWhile is_digit t = []" "dropWhile is_digit t = t"
    using assms(2) True by (cases t; simp add: number_ends_def)+
  ultimately show ?thesis using True
    by (simp add: lex_digits_def list_all_iff takeWhile_append2 dropWhile_append2)
next
  case False
  then have "dropWhile is_digit s \<noteq> []" using assms(1) by (auto simp: lex_digits_def split: if_splits)
  then obtain c where "c \<in> set s" "\<not> is_digit c" by (auto simp: dropWhile_eq_Nil_conv)
  then show ?thesis using assms(1)
    by (auto simp: lex_digits_def takeWhile_append1 dropWhile_append1 split: if_splits)
qed

lemma lex_int_append:
  "lex_int s = Some (l, r) \<Longrightarrow> r \<noteq> [] \<or> number_ends t \<Longrightarrow> lex_int (s @ t) = Some (l, r @ t)"
  using lex_digits_append [of s l r t] by (auto simp: lex_int_def split: list.splits if_splits)

lemma put_front_append:
  assumes "put_front x (f s) = Some (l, r)" and "\<And>l. f s = Some (l, r) \<Longrightarrow> f' = Some (l, r @ t)"
  shows "put_front x f' = Some (l, r @ t)"
  using assms by (auto simp: put_front_def)

lemma lex_frac_append:
  assumes "lex_frac s = Some (l, r)" and "r \<noteq> [] \<or> number_ends t"
  shows "lex_frac (s @ t) = Some (l, r @ t)"
proof (cases s)
  case Nil
  with assms show ?thesis by (cases t) (auto simp: lex_frac_def number_ends_def)
next
  case (Cons c s')
  with assms show ?thesis
    by (auto simp: lex_frac_def split: if_splits elim!: put_front_append intro: lex_digits_append)
qed

lemma lex_exp_append:
  assumes "lex_exp s = Some (l, r)" and "r \<noteq> [] \<or> number_ends t"
  shows "lex_exp (s @ t) = Some (l, r @ t)"
proof (cases s)
  case Nil
  with assms show ?thesis by (cases t) (auto simp: lex_exp_def number_ends_def)
next
  case (Cons c s')
  show ?thesis
  proof (cases s')
    case Nil
    with Cons assms show ?thesis by (auto simp: lex_exp_def split: if_splits)
  next
    case (Cons d s'')
    have digits: "lex_digits (x @ t) = Some (l', r @ t)" if "lex_digits x = Some (l', r)" for x l'
      using that assms(2) by (rule lex_digits_append)
    show ?thesis
      using assms(1) digits [of s''] digits [of s'] \<open>s = c # s'\<close> Cons
      by (auto simp: lex_exp_def put_front_def split: if_splits)
  qed
qed

lemma lex_number_append:
  assumes "lex_number s = Some (l, r)" and "r \<noteq> [] \<or> number_ends t"
  shows "lex_number (s @ t) = Some (l, r @ t)"
proof -
  define sign where "sign = (if hd s = CHR ''-'' then ([hd s], tl s) else ([], s))"
  obtain c s' where s: "s = c # s'" using assms(1) by (cases s) (auto simp: lex_number_def)
  obtain g u where g: "sign = (g, u)" by (cases sign)
  then obtain i t1 f t2 e where p: "lex_int u = Some (i, t1)" "lex_frac t1 = Some (f, t2)"
    "lex_exp t2 = Some (e, r)" "l = g @ i @ f @ e"
    using assms(1) s by (auto simp: lex_number_def sign_def split: option.splits if_splits)
  have e: "lex_exp (t2 @ t) = Some (e, r @ t)" using p(3) assms(2) by (rule lex_exp_append)
  have t2: "t2 \<noteq> [] \<or> number_ends t" using p(3) assms(2) by (auto simp: lex_exp_def)
  have f: "lex_frac (t1 @ t) = Some (f, t2 @ t)" using p(2) t2 by (rule lex_frac_append)
  have t1: "t1 \<noteq> [] \<or> number_ends t" using p(2) t2 by (auto simp: lex_frac_def)
  have i: "lex_int (u @ t) = Some (i, t1 @ t)" using p(1) t1 by (rule lex_int_append)
  have "(if c = CHR ''-'' then ([c], s' @ t) else ([], c # s' @ t)) = (g, u @ t)"
    using g s by (auto simp: sign_def split: if_splits)
  then show ?thesis using s p(4) i f e by (simp add: lex_number_def Let_def del: append_Nil split del: if_split)
qed

lemma number_literal_lex: "number_literal l \<Longrightarrow> number_ends s \<Longrightarrow> lex_number (l @ s) = Some (l, s)"
  using lex_number_append [of l l "[]" s] by (simp add: number_literal_def)

lemma show_nat_digits: "list_all is_digit (show_nat n)"
proof (induction n rule: show_nat.induct)
  case (1 n)
  have "is_digit (digit_char d)" if "d < 10" for d using that by (simp add: is_digit_def digit_char_def)
  with 1 show ?case by (subst show_nat.simps) auto
qed

lemma show_nat_hd: "0 < n \<Longrightarrow> hd (show_nat n) \<noteq> CHR ''0''"
proof (induction n rule: show_nat.induct)
  case (1 n)
  have "digit_char n \<noteq> CHR ''0''" if "0 < n" "n < 10"
  proof
    assume "digit_char n = CHR ''0''"
    then have "digit_val (digit_char n) = digit_val (CHR ''0'')" by simp
    with that show False by (simp add: digit_val_digit_char) (simp add: digit_val_def)
  qed
  with 1 show ?case by (subst show_nat.simps) auto
qed

lemma show_int_literal: "number_literal (show_int i)"
proof -
  have n: "lex_int (show_nat n) = Some (show_nat n, [])" for n
  proof (cases "n = 0")
    case True
    have "digit_char 0 = CHR ''0''" by code_simp
    with True show ?thesis by (simp add: show_nat.simps lex_int_def)
  next
    case False
    then have "hd (show_nat n) \<noteq> CHR ''0''" by (simp add: show_nat_hd)
    then obtain c s where "show_nat n = c # s" "c \<noteq> CHR ''0''" by (cases "show_nat n") simp_all
    moreover have "takeWhile is_digit (show_nat n) = show_nat n" "dropWhile is_digit (show_nat n) = []"
      using show_nat_digits by (simp_all add: list_all_iff)
    ultimately show ?thesis by (simp add: lex_int_def lex_digits_def)
  qed
  have h: "hd (show_nat n) \<noteq> CHR ''-''" for n
    using show_nat_digits [of n] show_nat_nonempty [of n] by (cases "show_nat n") (auto simp: is_digit_def)
  show ?thesis
  proof (cases "i < 0")
    case True
    with n show ?thesis by (simp add: number_literal_def show_int_def lex_number_def lex_frac_def lex_exp_def)
  next
    case False
    obtain c s where "show_nat (nat i) = c # s" by (cases "show_nat (nat i)") simp_all
    with False n [of "nat i"] h [of "nat i"] show ?thesis
      by (simp add: number_literal_def show_int_def lex_number_def lex_frac_def lex_exp_def)
  qed
qed


section \<open>Tokens of an encoding\<close>

lemma dropWhile_no_space: "\<not> json_space c \<Longrightarrow> dropWhile json_space (c # s) = c # s"
  by simp

lemma next_token_simps [simp]:
  "next_token (CHR ''['' # s) = Some (OpenArray, s)"
  "next_token (CHR '']'' # s) = Some (CloseArray, s)"
  "next_token (CHR ''{'' # s) = Some (OpenObject, s)"
  "next_token (CHR ''}'' # s) = Some (CloseObject, s)"
  "next_token (CHR '':'' # s) = Some (Colon, s)"
  "next_token (CHR '','' # s) = Some (Comma, s)"
  "next_token (CHR ''n'' # CHR ''u'' # CHR ''l'' # CHR ''l'' # s) = Some (TLiteral JNull, s)"
  "next_token (CHR ''t'' # CHR ''r'' # CHR ''u'' # CHR ''e'' # s) = Some (TLiteral (JBool True), s)"
  "next_token (CHR ''f'' # CHR ''a'' # CHR ''l'' # CHR ''s'' # CHR ''e'' # s) = Some (TLiteral (JBool False), s)"
  by (simp_all add: next_token_def json_space_def keyword_def dquote_def)

lemma next_token_string:
  "next_token (json_quote x @ s) = Some (TString (ToValid x), s)"
  by (simp add: next_token_def json_quote_def dropWhile_no_space json_space_def unquote_json_escape)
    (simp add: dquote_def)

lemma number_literal_hd:
  assumes "number_literal l"
  obtains c r where "l = c # r" "c = CHR ''-'' \<or> is_digit c"
proof (cases l)
  case Nil
  with assms show ?thesis by (simp add: number_literal_def lex_number_def)
next
  case (Cons c r)
  have "c = CHR ''-'' \<or> is_digit c"
  proof (rule ccontr)
    assume "\<not> ?thesis"
    then have "lex_int (c # r) = None" by (auto simp: lex_int_def lex_digits_def is_digit_def)
    with \<open>\<not> ?thesis\<close> assms Cons show False by (simp add: number_literal_def lex_number_def)
  qed
  with Cons that show ?thesis by blast
qed

lemma next_token_number:
  assumes "number_literal l" and "number_ends s"
  shows "next_token (l @ s) = Some (TLiteral (JNumber l), s)"
proof -
  obtain c r where l: "l = c # r" "c = CHR ''-'' \<or> is_digit c" using number_literal_hd [OF assms(1)] .
  have "c \<notin> {CHR ''['', CHR '']'', CHR ''{'', CHR ''}'', CHR '':'', CHR '','', CHR ''t'', CHR ''f'', CHR ''n''}"
    "\<not> json_space c" "c \<noteq> dquote"
    using l(2) by (auto simp: is_digit_def json_space_def dquote_def)
  moreover have "lex_number (c # r @ s) = Some (l, s)" using number_literal_lex [OF assms] l(1) by simp
  ultimately show ?thesis using l(1) by (simp add: next_token_def)
qed

section \<open>The scanner on an encoding\<close>

fun resume :: "progress option \<Rightarrow> string \<Rightarrow> (json \<times> string) option" where
  "resume None s = None"
| "resume (Some (Inl v)) s = Some (v, s)"
| "resume (Some (Inr (st, ex))) s = scan_text st ex s"

lemma scan_text_token: "next_token s = Some (t, r) \<Longrightarrow> scan_text st ex s = resume (scan st ex t) r"
  by (subst scan_text.simps) (auto split: option.splits sum.splits)

fun json_depth :: "json \<Rightarrow> nat" where
  "json_depth (JArray vs) = Suc (fold max (map json_depth vs) 0)"
| "json_depth (JObject fs) = Suc (fold max (map (\<lambda>(k, v). json_depth v) fs) 0)"
| "json_depth v = 0"

lemma fold_max_start: "a \<le> fold max xs (a :: nat)"
proof (induction xs arbitrary: a)
  case (Cons y xs)
  have "a \<le> max y a" by simp
  also have "\<dots> \<le> fold max xs (max y a)" by (rule Cons.IH)
  finally show ?case by simp
qed simp

lemma fold_max_ge: "x \<in> set xs \<Longrightarrow> x \<le> fold max xs (a :: nat)"
proof (induction xs arbitrary: a)
  case (Cons y xs)
  show ?case
  proof (cases "x \<in> set xs")
    case False
    then have "x \<le> max y a" using Cons.prems by simp
    also have "\<dots> \<le> fold max xs (max y a)" by (rule fold_max_start)
    finally show ?thesis by simp
  qed (use Cons.IH in simp)
qed simp

text \<open>The value with the invalid bytes of its strings replaced.\<close>

fun json_clean :: "json \<Rightarrow> json" where
  "json_clean (JString s) = JString (ToValid s)"
| "json_clean (JArray vs) = JArray (map json_clean vs)"
| "json_clean (JObject fs) = JObject (map (\<lambda>(k, v). (ToValid k, json_clean v)) fs)"
| "json_clean v = v"

lemma json_clean_valid: "json_all num utf8_valid v \<Longrightarrow> json_clean v = v"
proof (induction v rule: json_clean.induct)
  case (2 vs)
  then show ?case by (simp add: list_all_iff map_idI)
next
  case (3 fs)
  then show ?case by (fastforce simp: list_all_iff ToValid_valid intro!: map_idI)
qed (simp_all add: ToValid_valid)

text \<open>
  The scanner reads \<open>v\<close> off its encoding, under any stack of at most \<open>n\<close> frames. Only what
  follows a number matters.
\<close>

definition scans :: "nat \<Rightarrow> json \<Rightarrow> bool" where
  "scans n v \<longleftrightarrow> (\<forall>st ex s. length st \<le> n \<and> ex \<in> {Value, ValueOrClose} \<and> ((\<exists>l. v = JNumber l) \<longrightarrow> number_ends s) \<longrightarrow>
     scan_text st ex (json_encode v @ s) = resume (deliver (json_clean v) st) s)"

lemma scansI:
  "(\<And>st ex s. length st \<le> n \<Longrightarrow> ex = Value \<or> ex = ValueOrClose \<Longrightarrow>
      scan_text st ex (json_encode v @ s) = resume (deliver (json_clean v) st) s) \<Longrightarrow> scans n v"
  by (auto simp: scans_def)

lemma scansD:
  "scans n v \<Longrightarrow> length st \<le> n \<Longrightarrow> ex = Value \<or> ex = ValueOrClose \<Longrightarrow> number_ends s \<Longrightarrow>
     scan_text st ex (json_encode v @ s) = resume (deliver (json_clean v) st) s"
  by (auto simp: scans_def)

lemma scans_mono: "scans n v \<Longrightarrow> m \<le> n \<Longrightarrow> scans m v"
  by (auto simp: scans_def)

lemma scan_elems:
  assumes "list_all (scans n) (v # vs)" and "length st < n" and "ex = Value \<or> ex = ValueOrClose"
  shows "scan_text (Elems us # st) ex (commas (map json_encode (v # vs)) @ CHR '']'' # s)
     = resume (deliver (JArray (us @ map json_clean (v # vs))) st) s"
  using assms
proof (induction vs arbitrary: v us ex)
  case Nil
  then show ?case by (simp add: scansD scan_text_token)
next
  case (Cons w vs)
  let ?rest = "commas (map json_encode (w # vs)) @ CHR '']'' # s"
  have "scan_text (Elems us # st) ex (json_encode v @ CHR '','' # ?rest)
      = scan_text (Elems (us @ [json_clean v]) # st) CommaOrClose (CHR '','' # ?rest)"
    using Cons.prems by (subst scansD [of n]) simp_all
  also have "\<dots> = scan_text (Elems (us @ [json_clean v]) # st) Value ?rest" by (simp add: scan_text_token)
  also have "\<dots> = resume (deliver (JArray ((us @ [json_clean v]) @ map json_clean (w # vs))) st) s"
    by (rule Cons.IH) (use Cons.prems in simp_all)
  finally show ?case by simp
qed

lemma scan_fields:
  assumes "list_all (\<lambda>(k, v). scans n v) (kv # kvs)" and "length st < n"
    and "ex = Key \<or> ex = KeyOrClose"
  shows "scan_text (Fields fs # st) ex
       (commas (map (\<lambda>(k, v). json_quote k @ CHR '':'' # json_encode v) (kv # kvs)) @ CHR ''}'' # s)
     = resume (deliver (JObject (fs @ map (\<lambda>(k, v). (ToValid k, json_clean v)) (kv # kvs))) st) s"
  using assms
proof (induction kvs arbitrary: kv fs ex)
  case Nil
  obtain k v where kv: "kv = (k, v)" by (cases kv)
  with Nil show ?case
    by (auto simp: next_token_string scan_text_token [of "json_quote k @ _"] scan_text_token [of "_ # _"] scansD)
next
  case (Cons w kvs)
  obtain k v where kv: "kv = (k, v)" by (cases kv)
  let ?rest = "commas (map (\<lambda>(k, v). json_quote k @ CHR '':'' # json_encode v) (w # kvs)) @ CHR ''}'' # s"
  have "scan_text (Fields fs # st) ex (json_quote k @ CHR '':'' # json_encode v @ CHR '','' # ?rest)
      = scan_text (Keyed fs (ToValid k) # st) Value (json_encode v @ CHR '','' # ?rest)"
    using Cons.prems kv
    by (auto simp: next_token_string scan_text_token [of "json_quote k @ _"] scan_text_token [of "CHR '':'' # _"])
  also have "\<dots> = scan_text (Fields (fs @ [(ToValid k, json_clean v)]) # st) CommaOrClose (CHR '','' # ?rest)"
    using Cons.prems kv by (subst scansD [of n]) simp_all
  also have "\<dots> = scan_text (Fields (fs @ [(ToValid k, json_clean v)]) # st) Key ?rest" by (simp add: scan_text_token)
  also have "\<dots> = resume (deliver (JObject ((fs @ [(ToValid k, json_clean v)]) @ map (\<lambda>(k, v). (ToValid k, json_clean v)) (w # kvs))) st) s"
    by (rule Cons.IH) (use Cons.prems in simp_all)
  finally show ?case using kv by simp
qed

lemma scans_encoding:
  assumes "json_all number_literal any_text v" and "n + json_depth v \<le> maxNestingDepth"
  shows "scans n v"
  using assms
proof (induction v arbitrary: n rule: json_encode.induct)
  case 1
  then show ?case by (auto simp: scans_def scan_text_token)
next
  case (2 b)
  then show ?case
    by (cases b) (auto simp: scans_def scan_text_token)
next
  case (3 l)
  then show ?case by (auto simp: scans_def scan_text_token [OF next_token_number])
next
  case (4 s)
  then show ?case by (auto simp: scans_def scan_text_token [OF next_token_string])
next
  case (5 vs)
  have all: "list_all (scans (Suc n)) vs"
  proof (unfold list_all_iff, intro ballI)
    fix v assume v: "v \<in> set vs"
    then have "json_depth v \<le> fold max (map json_depth vs) 0" by (intro fold_max_ge) simp
    with 5(1) [OF v, of "Suc n"] 5(2,3) v show "scans (Suc n) v" by (auto simp: list_all_iff)
  qed
  show ?case
  proof (rule scansI)
    fix st :: "frame list" and ex s
    assume a: "length st \<le> n" "ex = Value \<or> ex = ValueOrClose"
    have "push (Elems []) ValueOrClose st = Some (Inr (Elems [] # st, ValueOrClose))"
      using a 5(3) by (simp add: push_def)
    then have o: "scan_text st ex (json_encode (JArray vs) @ s)
        = scan_text (Elems [] # st) ValueOrClose (commas (map json_encode vs) @ CHR '']'' # s)"
      using a by (auto simp: scan_text_token [OF next_token_simps(1)])
    show "scan_text st ex (json_encode (JArray vs) @ s) = resume (deliver (json_clean (JArray vs)) st) s"
    proof (cases vs)
      case Nil
      with o show ?thesis by (simp add: scan_text_token)
    next
      case (Cons v ws)
      with o all a show ?thesis using scan_elems [of "Suc n" v ws st ValueOrClose "[]" s] by simp
    qed
  qed
next
  case (6 fs)
  have all: "list_all (\<lambda>(k, v). scans (Suc n) v) fs"
  proof (unfold list_all_iff, intro ballI)
    fix kv assume kv: "kv \<in> set fs"
    obtain k v where p: "kv = (k, v)" by (cases kv)
    have "json_depth v \<le> fold max (map (\<lambda>(k, v). json_depth v) fs) 0"
      using kv p by (intro fold_max_ge) force
    with 6(1) [OF kv p [symmetric], of "Suc n"] 6(2,3) kv p
    show "case kv of (k, v) \<Rightarrow> scans (Suc n) v" by (auto simp: list_all_iff)
  qed
  show ?case
  proof (rule scansI)
    fix st :: "frame list" and ex s
    assume a: "length st \<le> n" "ex = Value \<or> ex = ValueOrClose"
    have "push (Fields []) KeyOrClose st = Some (Inr (Fields [] # st, KeyOrClose))"
      using a 6(3) by (simp add: push_def)
    then have o: "scan_text st ex (json_encode (JObject fs) @ s) = scan_text (Fields [] # st) KeyOrClose
        (commas (map (\<lambda>(k, v). json_quote k @ CHR '':'' # json_encode v) fs) @ CHR ''}'' # s)"
      using a by (auto simp: scan_text_token [OF next_token_simps(3)])
    show "scan_text st ex (json_encode (JObject fs) @ s) = resume (deliver (json_clean (JObject fs)) st) s"
    proof (cases fs)
      case Nil
      with o show ?thesis by (simp add: scan_text_token)
    next
      case (Cons kv kvs)
      with o all a show ?thesis using scan_fields [of "Suc n" kv kvs st KeyOrClose "[]" s] by simp
    qed
  qed
qed

text \<open>The value an encoding starts with is read back, and what follows is left.\<close>

lemma Decode_encode_clean:
  assumes "json_all number_literal any_text v" and "json_depth v \<le> maxNestingDepth"
    and "(\<exists>l. v = JNumber l) \<longrightarrow> number_ends s"
  shows "Decode (json_encode v @ s) = Some (json_clean v, s)"
  using scans_encoding [of any_text v 0] assms by (auto simp: Decode_def scans_def)

lemma Decode_encode:
  assumes "json_all number_literal utf8_valid v" and "json_depth v \<le> maxNestingDepth"
    and "(\<exists>l. v = JNumber l) \<longrightarrow> number_ends s"
  shows "Decode (json_encode v @ s) = Some (v, s)"
  using Decode_encode_clean [OF assms] json_clean_valid [OF assms(1)] by simp

end
