(* ===== verification/Job_Decode_Proofs.thy ===== *)
theory Job_Decode_Proofs
  imports Job_Decode Json_Round_Trip
begin

text \<open>
  A request that a client encodes is the request the worker sees, and what the decoder makes
  of keys it does not know, of keys in another case and of keys that occur twice.
\<close>

section \<open>The client's encoding\<close>

text \<open>
  What \<^verbatim>\<open>json.Marshal\<close> makes of the structures: empty maps and slices and nil pointers are left
  out. The order of the environment is an argument, and so is the literal for a float.
\<close>

definition omit_none :: "string \<Rightarrow> ('a \<Rightarrow> json) \<Rightarrow> 'a option \<Rightarrow> (string \<times> json) list" where
  "omit_none k f x = (case x of None \<Rightarrow> [] | Some y \<Rightarrow> [(k, f y)])"

definition Secret_json :: "Secret \<Rightarrow> json" where
  "Secret_json s =
     JObject ([(''name'', JString (sec_Name s)), (''value'', JString (sec_Value s))]
       @ omit_none ''file_path'' JString (sec_FilePath s))"

definition Auth_json :: "RegistryAuth \<Rightarrow> json" where
  "Auth_json a =
     JObject [(''username'', JString (auth_Username a)), (''password'', JString (auth_Password a))]"

definition env_json :: "(string \<times> string) list \<Rightarrow> (string \<times> json) list" where
  "env_json kvs = (if kvs = [] then [] else [(''env'', JObject (map (\<lambda>(k, v). (k, JString v)) kvs))])"

definition secrets_json :: "Secret list \<Rightarrow> (string \<times> json) list" where
  "secrets_json ss = (if ss = [] then [] else [(''secrets'', JArray (map Secret_json ss))])"

definition JobRequest_json :: "string list \<Rightarrow> (f64 \<Rightarrow> string) \<Rightarrow> JobRequest \<Rightarrow> json" where
  "JobRequest_json ks lit req =
     JObject ([(''image'', JString (req_Image req)), (''command'', JString (req_Command req))]
       @ env_json (range_map (req_Env req) ks) @ secrets_json (req_Secrets req)
       @ omit_none ''timeout_seconds'' JInt (req_TimeoutSeconds req)
       @ omit_none ''cpu_limit'' (\<lambda>x. JNumber (lit x)) (req_CPULimit req)
       @ omit_none ''memory_limit_mb'' JInt (req_MemoryLimitMB req)
       @ [(''network_access'', JBool (req_NetworkAccess req)), (''stream_logs'', JBool (req_StreamLogs req))]
       @ omit_none ''registry_auth'' Auth_json (req_RegistryAuth req))"

section \<open>Decoding a structure\<close>

lemma dec_simps [simp]:
  "dec_string (JString x) old = Some x" "dec_bool (JBool b) c = Some b" "dec_int (JInt i) j = Some i"
  "dec_float (JNumber l) y = ParseFloat l"
  "dec_pointer dec zero (JString x) p = map_option Some (dec (JString x) (case p of None \<Rightarrow> zero | Some y \<Rightarrow> y))"
  "dec_pointer dec zero (JNumber l) p = map_option Some (dec (JNumber l) (case p of None \<Rightarrow> zero | Some y \<Rightarrow> y))"
  "dec_pointer dec zero (JObject f) p = map_option Some (dec (JObject f) (case p of None \<Rightarrow> zero | Some y \<Rightarrow> y))"
  by (simp_all add: dec_string_def dec_bool_def dec_int_def dec_float_def dec_pointer_def JInt_def ParseInt_show_int)

lemma dec_pointer_int [simp]: "dec_pointer dec_int zero (JInt i) p = Some (Some i)"
  using dec_simps(3) [of i] by (simp add: dec_pointer_def JInt_def)

lemma dec_members_append:
  "dec_members uc tab (xs @ ys) s =
     (case dec_members uc tab xs s of None \<Rightarrow> None | Some t \<Rightarrow> dec_members uc tab ys t)"
  by (induction uc tab xs s rule: dec_members.induct) (auto split: option.splits)

lemma dec_members_known:
  "map_of tab key = Some dec \<Longrightarrow> dec_members uc tab ((key, v) # kvs) s =
     (case dec v s of None \<Rightarrow> None | Some t \<Rightarrow> dec_members uc tab kvs t)"
  by (simp add: find_field_def)

lemma dec_secret: "dec_struct uc secret_fields (Secret_json x) zero_secret = Some x"
  by (cases "sec_FilePath x")
    (simp_all add: dec_struct_def Secret_json_def omit_none_def secret_fields_def find_field_def zero_secret_def)

lemma dec_elems_secrets: "dec_elems uc (map Secret_json ss) [] = Some ss"
  by (induction ss) (simp_all add: dec_secret)

lemma dec_auth:
  "dec_struct uc auth_fields (Auth_json a) \<lparr>auth_Username = [], auth_Password = []\<rparr> = Some a"
  by (simp add: dec_struct_def Auth_json_def auth_fields_def find_field_def)

lemma dec_entries_range:
  "dec_entries (map (\<lambda>(k, v). (k, JString v)) (range_map env ks)) m =
     Some (\<lambda>k. if k \<in> set ks \<and> env k \<noteq> None then env k else m k)"
  by (induction ks arbitrary: m) (auto simp: fun_eq_iff split: option.splits)

lemma dec_env_range:
  "iteration_order env ks \<Longrightarrow>
     dec_env (JObject (map (\<lambda>(k, v). (k, JString v)) (range_map env ks))) Map.empty = Some env"
  by (auto simp: dec_env_def dec_entries_range iteration_order_def fun_eq_iff)

text \<open>The members of a request, one after the other.\<close>

lemma dec_field:
  assumes "map_of tab key \<noteq> None" and "the (map_of tab key) v s = Some t"
  shows "dec_members uc tab ((key, v) # kvs) s = dec_members uc tab kvs t"
  using assms by (auto simp: find_field_def)

lemmas job_member = job_fields_def set_field_def

lemma request_unchanged:
  "req_Env r = e \<Longrightarrow> r\<lparr>req_Env := e\<rparr> = r" "req_Secrets r = s \<Longrightarrow> r\<lparr>req_Secrets := s\<rparr> = r"
  "req_TimeoutSeconds r = t \<Longrightarrow> r\<lparr>req_TimeoutSeconds := t\<rparr> = r"
  "req_MemoryLimitMB r = m \<Longrightarrow> r\<lparr>req_MemoryLimitMB := m\<rparr> = r"
  "req_CPULimit r = c \<Longrightarrow> r\<lparr>req_CPULimit := c\<rparr> = r"
  "req_RegistryAuth r = a \<Longrightarrow> r\<lparr>req_RegistryAuth := a\<rparr> = r"
  by (cases r; simp)+

lemma dec_plain_members:
  "dec_members uc (job_fields uc) ((''image'', JString x) # kvs) (r, b)
     = dec_members uc (job_fields uc) kvs (r\<lparr>req_Image := x\<rparr>, b)"
  "dec_members uc (job_fields uc) ((''command'', JString x) # kvs) (r, b)
     = dec_members uc (job_fields uc) kvs (r\<lparr>req_Command := x\<rparr>, b)"
  "dec_members uc (job_fields uc) ((''network_access'', JBool y) # kvs) (r, b)
     = dec_members uc (job_fields uc) kvs (r\<lparr>req_NetworkAccess := y\<rparr>, b)"
  "dec_members uc (job_fields uc) ((''stream_logs'', JBool y) # kvs) (r, b)
     = dec_members uc (job_fields uc) kvs (r\<lparr>req_StreamLogs := y\<rparr>, b)"
  by (rule dec_field; simp add: job_member)+

lemma dec_env_member:
  assumes "iteration_order env ks" and "req_Env r = Map.empty"
  shows "dec_members uc (job_fields uc) (env_json (range_map env ks) @ kvs) (r, b)
     = dec_members uc (job_fields uc) kvs (r\<lparr>req_Env := env\<rparr>, b)"
proof (cases "range_map env ks = []")
  case True
  then have "env = Map.empty"
    using set_range_map_order [OF assms(1)] by (fastforce simp: fun_eq_iff)
  with True assms(2) show ?thesis by (simp add: env_json_def request_unchanged)
next
  case False
  then show ?thesis unfolding env_json_def using dec_env_range [OF assms(1)] assms(2)
    by (simp del: dec_members.simps) (rule dec_field; simp add: job_member)
qed

lemma dec_secrets_member:
  assumes "req_Secrets r = []"
  shows "dec_members uc (job_fields uc) (secrets_json ss @ kvs) (r, [])
     = dec_members uc (job_fields uc) kvs (r\<lparr>req_Secrets := ss\<rparr>, ss)"
proof (cases "ss = []")
  case True
  with assms show ?thesis by (simp add: secrets_json_def request_unchanged)
next
  case False
  then show ?thesis unfolding secrets_json_def using dec_elems_secrets [of uc ss]
    by (simp del: dec_members.simps) (rule dec_field; simp add: job_member dec_secrets_def)
qed

lemma dec_omitted:
  assumes "\<And>y. t = Some y \<Longrightarrow> dec_members uc tab ((k, f y) # kvs) s = dec_members uc tab kvs u"
    and "t = None \<Longrightarrow> u = s"
  shows "dec_members uc tab (omit_none k f t @ kvs) s = dec_members uc tab kvs u"
  using assms by (cases t) (simp_all add: omit_none_def del: dec_members.simps)

lemma dec_timeout_member:
  "req_TimeoutSeconds r = None \<Longrightarrow>
     dec_members uc (job_fields uc) (omit_none ''timeout_seconds'' JInt t @ kvs) (r, b)
     = dec_members uc (job_fields uc) kvs (r\<lparr>req_TimeoutSeconds := t\<rparr>, b)"
  by (rule dec_omitted, rule dec_field) (simp_all add: job_member request_unchanged)

lemma dec_memory_member:
  "req_MemoryLimitMB r = None \<Longrightarrow>
     dec_members uc (job_fields uc) (omit_none ''memory_limit_mb'' JInt t @ kvs) (r, b)
     = dec_members uc (job_fields uc) kvs (r\<lparr>req_MemoryLimitMB := t\<rparr>, b)"
  by (rule dec_omitted, rule dec_field) (simp_all add: job_member request_unchanged)

lemma dec_cpu_member:
  "req_CPULimit r = None \<Longrightarrow> (\<And>x. t = Some x \<Longrightarrow> ParseFloat (lit x) = Some x) \<Longrightarrow>
     dec_members uc (job_fields uc) (omit_none ''cpu_limit'' (\<lambda>x. JNumber (lit x)) t @ kvs) (r, b)
     = dec_members uc (job_fields uc) kvs (r\<lparr>req_CPULimit := t\<rparr>, b)"
  by (rule dec_omitted, rule dec_field) (simp_all add: job_member request_unchanged)

lemma dec_auth_member:
  "req_RegistryAuth r = None \<Longrightarrow>
     dec_members uc (job_fields uc) (omit_none ''registry_auth'' Auth_json t @ kvs) (r, b)
     = dec_members uc (job_fields uc) kvs (r\<lparr>req_RegistryAuth := t\<rparr>, b)"
  by (rule dec_omitted, rule dec_field)
    (use dec_auth [of uc] in \<open>simp_all add: job_member request_unchanged Auth_json_def\<close>)

lemma dec_job:
  assumes "iteration_order (req_Env req) ks"
    and "\<And>x. req_CPULimit req = Some x \<Longrightarrow> ParseFloat (lit x) = Some x"
  shows "map_option fst (dec_struct uc (job_fields uc) (JobRequest_json ks lit req) (zero_request, [])) = Some req"
  using assms dec_auth_member [where kvs = "[]"]
  by (simp add: dec_struct_def JobRequest_json_def dec_plain_members dec_env_member
      dec_secrets_member dec_timeout_member dec_memory_member dec_cpu_member zero_request_def del: dec_members.simps(2))

section \<open>The round trip\<close>

lemma fold_max_le: "list_all (\<lambda>x. x \<le> b) xs \<Longrightarrow> a \<le> b \<Longrightarrow> fold max xs a \<le> (b :: nat)"
  by (induction xs arbitrary: a) simp_all

lemma depth_members:
  "list_all (\<lambda>(k, v). json_depth v \<le> n) kvs \<Longrightarrow> json_depth (JObject kvs) \<le> Suc n"
  by (auto simp: list_all_iff intro!: fold_max_le)

lemma JobRequest_depth: "json_depth (JobRequest_json ks lit req) \<le> maxNestingDepth"
proof -
  have secret: "json_depth (Secret_json s) \<le> 1" for s
    by (simp add: Secret_json_def omit_none_def split: option.split)
  have "json_depth (JArray (map Secret_json ss)) \<le> 2" for ss
    using secret by (auto simp: list_all_iff intro!: fold_max_le)
  moreover have "json_depth (JObject (map (\<lambda>(k, v). (k, JString v)) kvs)) \<le> 2" for kvs :: "(string \<times> string) list"
    by (auto simp: list_all_iff intro!: fold_max_le)
  moreover have "json_depth (Auth_json a) \<le> 2" for a by (simp add: Auth_json_def)
  ultimately have "json_depth (JobRequest_json ks lit req) \<le> Suc 2" unfolding JobRequest_json_def
    by (intro depth_members)
      (auto simp: env_json_def secrets_json_def omit_none_def JInt_def simp del: json_depth.simps(1,2)
        split: option.split)
  then show ?thesis by (simp add: maxNestingDepth_def)
qed

lemma DecodeJobRequest_encode:
  assumes "iteration_order (req_Env req) ks"
    and "json_all number_literal utf8_valid (JobRequest_json ks lit req)"
    and "\<And>x. req_CPULimit req = Some x \<Longrightarrow> ParseFloat (lit x) = Some x"
  shows "DecodeJobRequest uc (json_encode (JobRequest_json ks lit req) @ rest) = Some req"
proof -
  have "Decode (json_encode (JobRequest_json ks lit req) @ rest) = Some (JobRequest_json ks lit req, rest)"
    using assms(2) JobRequest_depth by (rule Decode_encode) (simp add: JobRequest_json_def)
  then show ?thesis using dec_job [OF assms(1,3)] by (simp add: DecodeJobRequest_def)
qed

section \<open>What else the decoder accepts\<close>

text \<open>
  Keys of no field are skipped, whatever their values. (The request is the same for every way of
  putting such members in, at any place.)
\<close>

lemma dec_members_unknown:
  assumes "list_all (\<lambda>(k, v). find_field uc tab k = None) xs"
  shows "dec_members uc tab (xs @ ys) s = dec_members uc tab ys s"
  using assms by (induction xs) auto

text \<open>Keys in capitals are found too, and an array decoded twice shows the old elements.\<close>

lemma decode_examples:
  "find_field uc (job_fields uc) ''IMAGE'' = map_of (job_fields uc) ''image''"
  "dec_secrets uc (JArray [JObject [(''name'', JString ''B'')]]) [\<lparr>sec_Name = ''A'', sec_Value = ''x'', sec_FilePath = None\<rparr>]
     = Some ([\<lparr>sec_Name = ''B'', sec_Value = ''x'', sec_FilePath = None\<rparr>], [\<lparr>sec_Name = ''B'', sec_Value = ''x'', sec_FilePath = None\<rparr>])"
  by (simp_all add: find_field_def job_fields_def EqualFold_def runes_ascii fold_rune_def
      dec_secrets_def dec_struct_def secret_fields_def)

text \<open>The decoder fails on a body that is no JSON value, and on one of another type.\<close>

lemma decode_rejects:
  "DecodeJobRequest uc [] = None" "DecodeJobRequest uc ''[]'' = None" "DecodeJobRequest uc ''12'' = None"
  "DecodeJobRequest uc ''{'' = None" "DecodeJobRequest uc ''null'' = Some zero_request"
proof -
  have "Decode [] = None" "Decode ''[]'' = Some (JArray [], [])" "Decode ''12'' = Some (JNumber ''12'', [])"
    "Decode ''{'' = None" "Decode ''null'' = Some (JNull, [])" by code_simp+
  then show "DecodeJobRequest uc [] = None" "DecodeJobRequest uc ''[]'' = None" "DecodeJobRequest uc ''12'' = None"
    "DecodeJobRequest uc ''{'' = None" "DecodeJobRequest uc ''null'' = Some zero_request"
    by (simp_all add: DecodeJobRequest_def dec_struct_def)
qed

section \<open>A sample body\<close>

definition sample_body :: string where
  "sample_body = json_encode (JobRequest_json [] (\<lambda>_. ''1'') sample_request)"

lemma JInt_literal [simp]: "json_all number_literal str (JInt i)"
  by (simp add: JInt_def show_int_literal)

lemma sample_request_ok: "json_all number_literal utf8_valid (JobRequest_json [] (\<lambda>_. ''1'') sample_request)"
  by (simp add: JobRequest_json_def sample_request_def env_json_def secrets_json_def omit_none_def
      utf8_valid_ascii)

lemma sample_body_decodes: "DecodeJobRequest uc sample_body = Some sample_request"
  using DecodeJobRequest_encode [of sample_request "[]" "\<lambda>_. ''1''" uc "[]"] sample_request_ok
  by (simp add: sample_body_def sample_request_def)

end
