(* ===== verification/Api_Proofs.thy ===== *)
theory Api_Proofs
  imports Api Job_Decode_Proofs Worker_Properties
begin

text \<open>
  What the HTTP interface promises: which reply a submission gets, also when other requests act
  between the two calls of its handler, what the result and log handlers answer, how a client
  reads the event stream back, and what the router can deliver to them.
\<close>

section \<open>Submitting a job\<close>

text \<open>The registry of the image is not among those the whitelist names.\<close>

definition registry_not_allowed :: "unicode \<Rightarrow> string list \<Rightarrow> JobRequest \<Rightarrow> bool" where
  "registry_not_allowed uc wl req \<longleftrightarrow> req_Image req \<noteq> [] \<and> wl \<noteq> []
     \<and> \<not> (\<exists>allowed \<in> set wl. EqualFold uc (registry_of (req_Image req)) allowed)"

definition submit_status :: "unicode \<Rightarrow> string list \<Rightarrow> bool \<Rightarrow> JobRequest option \<Rightarrow> nat" where
  "submit_status uc wl free decoded =
     (case decoded of
        None \<Rightarrow> 400
      | Some req \<Rightarrow>
          if valid_request uc wl req then (if free then 202 else 409)
          else if registry_not_allowed uc wl req then 403 else 400)"

lemma writeError_status [simp]: "rsp_Status (writeError n code msg details) = n"
  by (simp add: writeError_def json_response_def)

lemma json_response_status [simp]: "rsp_Status (json_response n v) = n"
  by (simp add: json_response_def)

lemma sample_request_valid: "valid_request plain_unicode [] sample_request"
  by (simp add: valid_request_def image_ok_def command_ok_def env_ok_def timeout_ok_def cpu_ok_def
      memory_ok_def secrets_ok_def sample_request_def)

context job_slot begin

text \<open>
  The reply to a submission over any slot: the state is unchanged unless the reply is 202, and
  then the slot is taken by the job the reply names.
\<close>

lemma submit_reply:
  assumes "\<And>req. DecodeJobRequest uc body = Some req \<Longrightarrow> iteration_order (req_Env req) order"
    and "handleSubmitJob ready put uc order wl body s1 s2 = (rsp, s3)"
  shows "rsp_Status rsp = submit_status uc wl (ready s1 \<and> ready s2) (DecodeJobRequest uc body)"
    and "rsp_Status rsp \<noteq> 202 \<Longrightarrow> s3 = s2"
    and "rsp_Status rsp = 202 \<Longrightarrow> \<not> ready s3 \<and> rsp = json_response 202
           (JObject (field ''job_id'' (JString (holder s3))))"
proof -
  have valid: "DecodeJobRequest uc body = Some req \<Longrightarrow> ValidateJobRequest uc order req wl = [] \<longleftrightarrow> valid_request uc wl req" for req
    using assms(1) by (rule ValidateJobRequest_nil_iff)
  have denied: "list_ex is_registry_rejection (ValidateJobRequest uc order req wl)
      \<longleftrightarrow> registry_not_allowed uc wl req" for req
    unfolding registry_not_allowed_def by (simp only: list_ex_iff registry_rejection_iff)
  have put_ok: "put req s2 = (Inr jid, t) \<Longrightarrow> ready s2 \<and> \<not> ready t \<and> holder t = jid" for req jid t
    using put_holder put_busy by (metis Inl_Inr_False prod.inject)
  have put_no: "put req s2 = (Inl e, t) \<Longrightarrow> t = s2 \<and> \<not> ready s2" for req e t
    using put_fails_id put_ready by (metis Inl_Inr_False prod.inject)
  show "rsp_Status rsp = submit_status uc wl (ready s1 \<and> ready s2) (DecodeJobRequest uc body)"
    using assms(2) valid denied put_ok put_no
    by (auto simp: handleSubmitJob_def submit_status_def bad_json_def worker_busy_def registry_denied_def
        validation_failed_def Let_def split: option.splits if_splits prod.splits sum.splits)
  show "rsp_Status rsp \<noteq> 202 \<Longrightarrow> s3 = s2"
    using assms(2) put_no
    by (auto simp: handleSubmitJob_def Let_def split: option.splits if_splits prod.splits sum.splits)
  show "rsp_Status rsp = 202 \<Longrightarrow> \<not> ready s3 \<and> rsp = json_response 202
           (JObject (field ''job_id'' (JString (holder s3))))"
    using assms(2) put_ok
    by (auto simp: handleSubmitJob_def bad_json_def worker_busy_def registry_denied_def
        validation_failed_def Let_def split: option.splits if_splits prod.splits sum.splits)
qed

end

text \<open>
  C11: a submission is answered with 400 when the body is not a request, 403 when the image's
  registry is not in the whitelist, whatever else is wrong with the request, 400 when the
  request is out of bounds otherwise, 409 when the executor is busy at either of the two calls
  the handler makes, and 202 otherwise. Only a 202 changes the executor; it names the job
  that is current and unfinished from then on. All this holds whatever other goroutines do
  between the two calls.
\<close>

theorem submit_job_reply:
  assumes "\<And>req. DecodeJobRequest uc body = Some req \<Longrightarrow> iteration_order (req_Env req) ord"
    and "handleSubmitJob IsReady (Submit ord' rnd) uc ord wl body e1 e2 = (rsp, e3)"
  shows "rsp_Status rsp = submit_status uc wl (IsReady e1 \<and> IsReady e2) (DecodeJobRequest uc body)
    \<and> (rsp_Status rsp \<noteq> 202 \<longrightarrow> e3 = e2)
    \<and> (rsp_Status rsp = 202 \<longrightarrow> \<not> IsReady e3 \<and> rsp = json_response 202
           (JObject (field ''job_id'' (JString (CurrentJobID e3)))))"
  using slot.submit_reply [OF assms] by blast

theorem submit_job_reply_witness:
  "rsp_Status (fst (handleSubmitJob IsReady (Submit [] sample_bytes) plain_unicode [] []
     sample_body (NewExecutor sample_config) sample_busy)) = 409"
proof -
  obtain rsp e3 where r: "handleSubmitJob IsReady (Submit [] sample_bytes) plain_unicode [] []
     sample_body (NewExecutor sample_config) sample_busy = (rsp, e3)" by (metis surj_pair)
  have "DecodeJobRequest plain_unicode sample_body = Some req \<Longrightarrow> iteration_order (req_Env req) []" for req
    by (auto simp: sample_body_decodes sample_request_def)
  from conjunct1 [OF submit_job_reply [OF this r]]
  have "rsp_Status rsp = submit_status plain_unicode []
     (IsReady (NewExecutor sample_config) \<and> IsReady sample_busy) (Some sample_request)"
    by (simp add: sample_body_decodes)
  moreover have "\<not> IsReady sample_busy"
    by (simp add: sample_busy_def IsReady_def current_job_def launch_def NewExecutor_def new_job_def)
  ultimately show ?thesis using r by (simp add: submit_status_def sample_request_valid)
qed

section \<open>Fetching a result\<close>

lemma generateJobID_nonempty: "generateJobID rnd \<noteq> []"
  by (simp add: generateJobID_def Let_def)

text \<open>
  The result handler answers 200 exactly when the executor hands out a result, with its
  encoding, and otherwise 404, also for the job in progress, or 400 for an empty identifier.
  The 200 of a reachable state carries the requested identifier and one of the four statuses,
  and the router delivers no empty identifier.
\<close>

theorem get_result_reply:
  assumes "ex_reach e" and "ServeMux meth segs = ResultRoute jid"
  shows "jid \<noteq> []
    \<and> (case GetResult jid e of
         (Some r, _) \<Rightarrow> handleGetResult uc jid e = json_response 200 (ExecutionResult_json r)
                        \<and> res_JobID r = jid
                        \<and> res_Status r \<in> {''success'', ''failed'', ''timeout'', ''error''}
       | (None, _) \<Rightarrow> rsp_Status (handleGetResult uc jid e) = 404)"
proof -
  have jid: "jid \<noteq> []"
    using assms(2) by (auto simp: ServeMux_def match_path_def split: list.splits if_splits option.splits)
  obtain x found where g: "GetResult jid e = (x, found)" by (metis surj_pair)
  have found: "found = (x \<noteq> None)" using g by (rule slot.get_found)
  show ?thesis
  proof (cases x)
    case None
    with g found jid show ?thesis by (simp add: handleGetResult_def)
  next
    case (Some r)
    with g found have gr: "GetResult jid e = (Some r, True)" by simp
    from result_of_current [OF assms(1) gr] gr jid show ?thesis by (auto simp: handleGetResult_def)
  qed
qed

theorem get_result_reply_witness:
  "\<exists>e r. handleGetResult plain_unicode sample_id e = json_response 200 (ExecutionResult_json r)
     \<and> res_JobID r = sample_id"
proof -
  obtain e r where e: "ex_reach e" "GetResult sample_id e = (Some r, True)" using sample_finished_result .
  have "sample_id \<noteq> []" by (simp add: sample_id_def generateJobID_nonempty)
  then have "ServeMux ''GET'' [''jobs'', sample_id] = ResultRoute sample_id"
    by (simp add: ServeMux_def match_path_def)
  from get_result_reply [OF e(1) this, of plain_unicode] e(2) show ?thesis by auto
qed

section \<open>The event stream\<close>

text \<open>
  The client's side: an event is a line with its name, a line with its data, and an empty line.
\<close>

fun sse_parse :: "string list \<Rightarrow> (string \<times> string) list" where
  "sse_parse (e # d # b # rest) =
     (if prefix ''event: '' e \<and> prefix ''data: '' d \<and> b = []
      then (drop 7 e, drop 6 d) # sse_parse rest else [])"
| "sse_parse _ = []"

definition sse_events :: "string \<Rightarrow> (string \<times> string) list" where
  "sse_events body = sse_parse (Split body newline)"

lemma Split_newline: "Split (newline # t) newline = [] # Split t newline"
  by simp

lemma Split_line: "newline \<notin> set s \<Longrightarrow> Split (s @ newline # t) newline = s # Split t newline"
  by (induction s) auto

lemma printable_no_newline: "printable s \<Longrightarrow> newline \<notin> set s"
  by (auto simp: printable_def list_all_iff newline_def)

lemma sse_events_frames:
  "list_all (\<lambda>(e, d). printable e \<and> printable d) fs \<Longrightarrow>
     sse_events (concat (map (\<lambda>(e, d). sse_frame e d) fs)) = fs"
proof (induction fs)
  case (Cons f fs)
  obtain e d where f: "f = (e, d)" by (cases f)
  let ?rest = "concat (map (\<lambda>(e, d). sse_frame e d) fs)"
  have "printable (''event: '' @ e)" "printable (''data: '' @ d)" using Cons.prems f by simp_all
  then have n: "newline \<notin> set (''event: '' @ e)" "newline \<notin> set (''data: '' @ d)"
    by (blast dest: printable_no_newline)+
  have "sse_frame e d @ ?rest = (''event: '' @ e) @ newline # (''data: '' @ d) @ newline # newline # ?rest"
    by (simp add: sse_frame_def)
  then have "Split (sse_frame e d @ ?rest) newline
      = (''event: '' @ e) # (''data: '' @ d) # [] # Split ?rest newline"
    by (simp only: Split_line [OF n(1)] Split_line [OF n(2)] Split_newline)
  then have "sse_events (sse_frame e d @ ?rest) = (e, d) # sse_events ?rest"
    by (simp add: sse_events_def)
  with Cons f show ?case by simp
qed (simp add: sse_events_def)

definition log_events :: "(int \<Rightarrow> string option) \<Rightarrow> LogLine list \<Rightarrow> (string \<times> string) list" where
  "log_events print_time lines =
     map (\<lambda>v. (''log'', json_encode v)) (List.map_filter (LogLine_json print_time) lines)"

lemma LogLine_json_printable: "LogLine_json print_time l = Some v \<Longrightarrow> printable (json_encode v)"
  by (rule json_encode_printable [where str = "\<lambda>_. True"]) (auto simp: LogLine_json_def field_def)

lemma EndEvent_json_printable: "printable (json_encode (EndEvent_json ev))"
  by (rule json_encode_printable [where str = "\<lambda>_. True"])
    (simp add: EndEvent_json_def field_def omit_nil_def split: option.splits)

lemmas event_json_printable = LogLine_json_printable EndEvent_json_printable

lemma log_events_printable: "list_all (\<lambda>(e, d). printable e \<and> printable d) (log_events print_time lines)"
  by (induction lines)
    (auto simp: log_events_def map_filter_simps event_json_printable split: option.splits)

lemma stream_lines_eq:
  "stream_lines print_time room lines =
     (concat (map (\<lambda>(e, d). sse_frame e d) (take room (log_events print_time lines))),
      room - length (log_events print_time lines), length (log_events print_time lines) \<le> room)"
proof (induction lines arbitrary: room)
  case (Cons l lines)
  then show ?case
    by (cases room) (auto simp: log_events_def map_filter_simps split: option.splits)
qed (simp add: log_events_def map_filter_simps)

text \<open>
  C17: a client can read the stream back: whatever the lines contain, line breaks and look-alike
  frames included, the events it sees are one log event for each line in order, holding the
  line's encoding, and then the end event, up to the point where the client is gone.
\<close>

theorem stream_reads_back:
  assumes "jid \<noteq> []" and "StreamLogs jid e1 = Some i"
  shows "sse_events (rsp_Body (handleStreamLogs uc print_time True room jid e1 lines e2)) =
     take room (log_events print_time lines
       @ [(''end'', json_encode (EndEvent_json (buildEndEvent jid e2)))])"
proof -
  let ?ev = "log_events print_time lines" and ?closing = "(''end'', json_encode (EndEvent_json (buildEndEvent jid e2)))"
  have body: "rsp_Body (handleStreamLogs uc print_time True room jid e1 lines e2)
      = (if length ?ev \<le> room \<and> room - length ?ev > 0
         then concat (map (\<lambda>(e, d). sse_frame e d) (take room ?ev))
           @ sse_frame ''end'' (json_encode (EndEvent_json (buildEndEvent jid e2)))
         else concat (map (\<lambda>(e, d). sse_frame e d) (take room ?ev)))"
    using assms by (simp only: handleStreamLogs_def stream_lines_eq if_False not_True_eq_False
        option.case prod.case HttpResponse.select_convs)
  have "rsp_Body (handleStreamLogs uc print_time True room jid e1 lines e2)
      = concat (map (\<lambda>(e, d). sse_frame e d) (take room (?ev @ [?closing])))"
  proof (cases "length ?ev < room")
    case True
    then have "take room ?ev = ?ev" "take room (?ev @ [?closing]) = ?ev @ [?closing]" by simp_all
    with True body show ?thesis by (simp del: take_append)
  next
    case False
    then have "take room (?ev @ [?closing]) = take room ?ev" by simp
    with False body show ?thesis by simp
  qed
  moreover have "list_all (\<lambda>(e, d). printable e \<and> printable d) (?ev @ [?closing])"
    by (simp add: log_events_printable event_json_printable)
  then have "list_all (\<lambda>(e, d). printable e \<and> printable d) (take room (?ev @ [?closing]))"
    unfolding list_all_iff by (blast dest: in_set_takeD)
  ultimately show ?thesis by (simp add: sse_events_frames del: take_append)
qed

theorem stream_reads_back_witness:
  "sse_events (rsp_Body (handleStreamLogs plain_unicode (\<lambda>_. Some ''t'') True 5 sample_id sample_busy
       [\<lparr>ll_Timestamp = 0, ll_Stream = ''stdout'', ll_Data = newline # newline # ''event: end''\<rparr>] sample_busy))
   = log_events (\<lambda>_. Some ''t'')
       [\<lparr>ll_Timestamp = 0, ll_Stream = ''stdout'', ll_Data = newline # newline # ''event: end''\<rparr>]
     @ [(''end'', json_encode (EndEvent_json (buildEndEvent sample_id sample_busy)))]"
proof -
  have "sample_id \<noteq> []" by (simp add: sample_id_def generateJobID_nonempty)
  moreover have "StreamLogs sample_id sample_busy = Some 0"
    using sample_busy_simps(2,5) by (simp add: StreamLogs_def)
  ultimately show ?thesis by (subst stream_reads_back) (simp_all add: log_events_def map_filter_simps LogLine_json_def)
qed

text \<open>
  C39: the closing event can withhold the result of a job that has one. From every reachable state
  in which the current job has its result and has not closed \<^verbatim>\<open>Done\<close> yet, the worker can reach
  one in which the job still has this result and its log buffer is closed, so that the stream
  ends, and the end event then says unknown and carries no exit code.
\<close>

theorem end_event_unknown:
  assumes "ex_reach e" and "\<not> ex_crashed e" and "current_job e = Some job"
    and "rj_Result job = Some r" and "\<not> rj_Done job"
  shows "\<exists>e' job'. ex_step\<^sup>*\<^sup>* e e' \<and> current_job e' = Some job' \<and> rj_ID job' = rj_ID job
     \<and> rj_Result job' = Some r \<and> lb_closed (rj_LogBuffer job')
     \<and> buildEndEvent (rj_ID job) e' = \<lparr>ee_Status = ''unknown'', ee_ExitCode = None\<rparr>"
proof -
  obtain e' job' where "ex_step\<^sup>*\<^sup>* e e'" "current_job e' = Some job'" "rj_ID job' = rj_ID job"
    "lb_closed (rj_LogBuffer job')" "GetResult (rj_ID job) e' = (None, False)" "rj_Result job' = Some r"
    using log_end_state [OF assms(1-3,5)] assms(4) by blast
  then show ?thesis by (intro exI [of _ e'] exI [of _ job']) (simp add: buildEndEvent_def)
qed

text \<open>The sample job just after its result, a success, has been set.\<close>

lemma sample_with_result:
  obtains e job r where "ex_reach e" "\<not> ex_crashed e" "current_job e = Some job" "rj_ID job = sample_id"
    "rj_Result job = Some r" "res_Status r = ''success''" "\<not> rj_Done job"
proof -
  define es where "es = take 12 sample_events"
  have es: "results (effects es) \<noteq> []" "res_Status (last (results (effects es))) = ''success''"
    "CloseDone \<notin> set (effects es)"
    by (simp_all add: es_def sample_events_def good_run_def)
  have "runs (th_prog (ex_threads sample_busy ! 0)) (es @ drop 12 sample_events) = Some (Return ())"
    by (simp add: sample_busy_simps sample_events_run es_def)
  then obtain p where "runs (th_prog (ex_threads sample_busy ! 0)) es = Some p"
    by (auto simp: runs_append split: option.splits)
  moreover have "0 < length (ex_threads sample_busy)" by (simp add: sample_busy_simps)
  ultimately obtain e where e: "ex_reach e" "\<not> ex_crashed e" "ex_current e = ex_current sample_busy"
    "length (ex_jobs e) = length (ex_jobs sample_busy)"
    "th_events (ex_threads e ! 0) = th_events (ex_threads sample_busy ! 0) @ es"
    "rj_ID (ex_jobs e ! 0) = rj_ID (ex_jobs sample_busy ! 0)"
    using run_thread [OF sample_busy_reach sample_busy_simps(1)] by (metis thread.select_convs(2))
  have "job_follows (ex_config e) (ex_jobs e ! 0) (ex_threads e ! 0)"
    using executor.reach_inv [OF e(1)] e(4) by (simp add: ex_inv_def sample_busy_simps)
  with es e show thesis
    by (intro that [of e "ex_jobs e ! 0" "last (results (effects es))"])
      (simp_all add: job_follows_def sample_busy_simps current_job_def)
qed

theorem end_event_unknown_witness:
  "\<exists>e job r. ex_reach e \<and> current_job e = Some job \<and> rj_Result job = Some r \<and> res_Status r = ''success''
     \<and> lb_closed (rj_LogBuffer job) \<and> buildEndEvent sample_id e = \<lparr>ee_Status = ''unknown'', ee_ExitCode = None\<rparr>"
proof -
  obtain e job r where e: "ex_reach e" "\<not> ex_crashed e" "current_job e = Some job" "rj_ID job = sample_id"
    "rj_Result job = Some r" "res_Status r = ''success''" "\<not> rj_Done job" using sample_with_result .
  from end_event_unknown [OF e(1-3,5,7)] e(1,4,6) show ?thesis by (metis reach_steps)
qed

section \<open>Readiness and health\<close>

text \<open>
  The readiness reply over the two states it reads: ready, without an identifier, exactly when
  the first was free; busy names the job that is current at the second, an identifier that is
  never empty.
\<close>

theorem readiness_reply:
  assumes "ex_reach e1" and "ex_step\<^sup>*\<^sup>* e1 e2"
  shows "(rs_Status (Checker_IsReady e1 e2) = ''ready'' \<longleftrightarrow> IsReady e1)
    \<and> (rs_Status (Checker_IsReady e1 e2) = ''busy'' \<longleftrightarrow> \<not> IsReady e1)
    \<and> (rs_JobID (Checker_IsReady e1 e2) = [] \<longleftrightarrow> IsReady e1)
    \<and> rsp_Status (handleReady e1 e2) = 200"
proof -
  have "rj_ID job \<noteq> []" if "current_job e2 = Some job" for job
  proof -
    have "ex_reach e2" using assms by (rule reach_steps)
    from current_job_cases [OF executor.reach_inv [OF this] that] obtain i where
      "job_follows (ex_config e2) job (ex_threads e2 ! i)" by metis
    then obtain rnd where "rj_ID job = generateJobID rnd" unfolding job_follows_def by blast
    then show ?thesis by (simp add: generateJobID_nonempty)
  qed
  moreover have "current_job e2 \<noteq> None" if "\<not> IsReady e1"
    using steps_keep_current [OF assms] that by (auto simp: IsReady_def split: option.splits)
  ultimately show ?thesis
    by (cases "IsReady e1")
      (auto simp: Checker_IsReady_def CurrentJobID_def handleReady_def split: option.splits)
qed

theorem readiness_reply_witness:
  "rs_Status (Checker_IsReady sample_busy sample_busy) = ''busy''
   \<and> rs_JobID (Checker_IsReady sample_busy sample_busy) \<noteq> []"
proof -
  have "\<not> IsReady sample_busy"
    by (simp add: sample_busy_def IsReady_def current_job_def launch_def NewExecutor_def new_job_def)
  with readiness_reply [OF sample_busy_reach rtranclp.rtrancl_refl] show ?thesis by blast
qed

end
