(* ===== verification/Api_Clients.thy ===== *)
theory Api_Clients
  imports Api_Proofs
begin

text \<open>
  The interface from the client's side: the request it encodes is the one the worker runs, and
  the result it decodes is the one the worker holds.
\<close>

section \<open>Submitting\<close>

lemma hex_char_ascii: "n < 16 \<Longrightarrow> byte (hex_char n) < 0x80"
  by (simp add: hex_char_def)

lemma hex_Encode_ascii: "list_all (\<lambda>c. byte c < 0x80) (hex_Encode bs)"
proof (induction bs)
  case (Cons b bs)
  have "unat b div 16 < 16" using byte_bound [of b] by simp
  with Cons show ?case by (simp add: hex_Encode_def hex_byte_def hex_char_ascii)
qed (simp add: hex_Encode_def)

lemma generateJobID_utf8: "utf8_valid (generateJobID rnd)"
  by (rule utf8_valid_ascii_all) (simp add: generateJobID_def Let_def hex_Encode_ascii)

lemma job_id_reply:
  assumes "utf8_valid jid"
  shows "Decode (rsp_Body (json_response 202 (JObject (field ''job_id'' (JString jid)))))
     = Some (JObject [(''job_id'', JString jid)], [newline])"
  unfolding json_response_def HttpResponse.select_convs field_def
  by (rule Decode_encode) (use assms in \<open>simp_all add: maxNestingDepth_def utf8_valid_ascii\<close>)

text \<open>
  C12: what the client asks for is what runs. A valid request, encoded by the client with its
  environment in any order and with anything behind it, posted to an idle worker, is answered
  with 202 and an identifier the client can read back, and the job in progress from then on
  under that identifier has exactly this request.
\<close>

theorem client_request_runs:
  assumes "valid_request uc wl req" and "iteration_order (req_Env req) ks" and "iteration_order (req_Env req) ord"
    and "json_all number_literal utf8_valid (JobRequest_json ks lit req)"
    and "\<And>x. req_CPULimit req = Some x \<Longrightarrow> ParseFloat (lit x) = Some x"
    and "IsReady e1" and "IsReady e2"
    and "handleSubmitJob IsReady (Submit ord' rnd) uc ord wl
           (json_encode (JobRequest_json ks lit req) @ rest) e1 e2 = (rsp, e3)"
  shows "\<exists>job. current_job e3 = Some job \<and> rj_Request job = req \<and> \<not> rj_Done job \<and> rsp_Status rsp = 202
     \<and> Decode (rsp_Body rsp) = Some (JObject [(''job_id'', JString (rj_ID job))], [newline])"
proof -
  have "DecodeJobRequest uc (json_encode (JobRequest_json ks lit req) @ rest) = Some req"
    using assms(2,4,5) by (rule DecodeJobRequest_encode)
  moreover have "ValidateJobRequest uc ord req wl = []"
    using assms(1) ValidateJobRequest_nil_iff [OF assms(3)] by simp
  ultimately have "rsp = json_response 202 (JObject (field ''job_id'' (JString (generateJobID rnd))))"
    "e3 = launch ord' (new_job rnd req) e2"
    using assms(6-8) by (simp_all add: handleSubmitJob_def Submit_def Let_def new_job_def)
  then show ?thesis
    by (simp add: current_job_def launch_def new_job_def job_id_reply generateJobID_utf8)
qed

theorem client_request_runs_witness:
  "\<exists>job. current_job (snd (handleSubmitJob IsReady (Submit [] sample_bytes) plain_unicode [] [] sample_body
       (NewExecutor sample_config) (NewExecutor sample_config))) = Some job \<and> rj_Request job = sample_request"
proof -
  let ?e = "NewExecutor sample_config"
  obtain rsp e3 where r: "handleSubmitJob IsReady (Submit [] sample_bytes) plain_unicode [] []
     sample_body ?e ?e = (rsp, e3)" by (metis surj_pair)
  have "IsReady ?e" by (simp add: IsReady_def current_job_def NewExecutor_def)
  moreover have "iteration_order (req_Env sample_request) []" by (simp add: sample_request_def)
  moreover have "req_CPULimit sample_request = Some x \<Longrightarrow> ParseFloat ''1'' = Some x" for x
    by (simp add: sample_request_def)
  ultimately show ?thesis
    using client_request_runs [of plain_unicode "[]" sample_request "[]" "[]" "\<lambda>_. ''1''" ?e ?e "[]" sample_bytes "[]" rsp e3]
      r sample_request_valid sample_request_ok by (auto simp: sample_body_def)
qed

section \<open>Reading the result\<close>

lemma JInt_inject [simp]: "JInt i = JInt j \<longleftrightarrow> i = j"
proof
  assume "JInt i = JInt j"
  then have "ParseInt (show_int (sint i)) = ParseInt (show_int (sint j))" by (simp add: JInt_def)
  then show "i = j" by (simp add: ParseInt_show_int)
qed simp

text \<open>The encoding of a result determines it.\<close>

lemma ExecutionResult_json_inject:
  assumes "ExecutionResult_json r = ExecutionResult_json s"
  shows "r = s"
proof -
  have l: "map_of (field k v @ xs) k' = (if k' = k then Some v else map_of xs k')" for k k' v and xs :: "(string \<times> json) list"
    by (simp add: field_def)
  define kvs where "kvs = (\<lambda>r :: ExecutionResult. field ''job_id'' (JString (res_JobID r)) @ field ''status'' (JString (res_Status r))
       @ omit_nil ''exit_code'' (res_ExitCode r)
       @ field ''stdout'' (JString (res_Stdout r)) @ field ''stderr'' (JString (res_Stderr r))
       @ field ''stdout_truncated'' (JBool (res_StdoutTruncated r))
       @ field ''stderr_truncated'' (JBool (res_StderrTruncated r))
       @ field ''duration_ms'' (JInt (res_DurationMs r))
       @ omit_empty ''error'' (res_Error r))"
  have eq: "map_of (kvs r) k = map_of (kvs s) k" for k
    using assms by (simp add: ExecutionResult_json_def kvs_def)
  have look: "map_of (kvs t) ''job_id'' = Some (JString (res_JobID t))"
    "map_of (kvs t) ''status'' = Some (JString (res_Status t))"
    "map_of (kvs t) ''exit_code'' = map_option JInt (res_ExitCode t)"
    "map_of (kvs t) ''stdout'' = Some (JString (res_Stdout t))"
    "map_of (kvs t) ''stderr'' = Some (JString (res_Stderr t))"
    "map_of (kvs t) ''stdout_truncated'' = Some (JBool (res_StdoutTruncated t))"
    "map_of (kvs t) ''stderr_truncated'' = Some (JBool (res_StderrTruncated t))"
    "map_of (kvs t) ''duration_ms'' = Some (JInt (res_DurationMs t))"
    "map_of (kvs t) ''error'' = (if res_Error t = [] then None else Some (JString (res_Error t)))" for t
    by (auto simp: kvs_def field_def omit_nil_def omit_empty_def map_add_def split: option.split)
  have "inj JInt" by (rule injI) simp
  then have "res_ExitCode r = res_ExitCode s"
    using eq [of "''exit_code''"] by (simp add: look option.inj_map [THEN inj_eq])
  moreover have "res_Error r = res_Error s"
    using eq [of "''error''"] by (simp add: look split: if_splits)
  ultimately show ?thesis
    using eq [of "''job_id''"] eq [of "''status''"] eq [of "''stdout''"] eq [of "''stderr''"]
      eq [of "''stdout_truncated''"] eq [of "''stderr_truncated''"] eq [of "''duration_ms''"]
    by (simp add: look ExecutionResult.equality)
qed


lemma sample_finished_output:
  obtains e r where "ex_reach e" "GetResult sample_id e = (Some r, True)"
    "res_Stdout r = ''hi''" "res_Stderr r = []" "res_Error r = []"
proof -
  obtain e where e: "ex_reach e" "ex_current e = Some 0" "length (ex_jobs e) = 1"
    "th_events (ex_threads e ! 0) = sample_events" "rj_ID (ex_jobs e ! 0) = sample_id"
    using sample_finished by blast
  have f: "job_follows (ex_config e) (ex_jobs e ! 0) (ex_threads e ! 0)"
    using executor.reach_inv [OF e(1)] e(3) by (simp add: ex_inv_def)
  define r where "r = zero_result\<lparr>res_JobID := sample_id, res_Status := ''success'',
        res_ExitCode := Some 0, res_Stdout := ''hi'', res_DurationMs := 1000\<rparr>"
  have "CloseDone \<in> set (effects sample_events)" "results (effects sample_events) = [r]"
    by (simp_all add: sample_events_def good_run_def r_def)
  then have "GetResult sample_id e = (Some r, True)"
    using f e(2,4,5) by (simp add: job_follows_def GetResult_def current_job_def)
  then show thesis by (rule that [OF e(1)]) (simp_all add: r_def zero_result_def)
qed


end
