(* ===== verification/Server.thy ===== *)
theory Server
  imports Api Docker_Proofs Config_Proofs
begin

text \<open>
  The server object of \<^verbatim>\<open>pkg/api/server.go\<close> and \<^verbatim>\<open>cmd/worker/main.go\<close>: start-up in order,
  the two ways \<^verbatim>\<open>Start\<close> ends, and the exit code of the process. The network is part of the
  environment: its operations are the fields of \<open>Net\<close>.
\<close>

section \<open>The server\<close>

record HttpServer =
  srv_Addr :: string
  srv_ReadTimeout :: duration
  srv_WriteTimeout :: duration
  srv_IdleTimeout :: duration

record 'w Server =
  s_executor :: Executor
  s_health :: "'w Checker"
  s_config :: Config
  s_whitelist :: "string list"
  s_server :: HttpServer

definition NewServer :: "Executor \<Rightarrow> 'w Checker \<Rightarrow> Config \<Rightarrow> string list \<Rightarrow> 'w Server" where
  "NewServer exec hc cfg whitelist =
     \<lparr>s_executor = exec, s_health = hc, s_config = cfg, s_whitelist = whitelist,
      s_server = \<lparr>srv_Addr = cfg_ListenAddr cfg, srv_ReadTimeout = 10 * second,
                  srv_WriteTimeout = 0, srv_IdleTimeout = 120 * second\<rparr>\<rparr>"

text \<open>
  \<open>net_Await\<close> is the wait of lines 70 to 75: it ends when the signal context is done or when
  \<^verbatim>\<open>Serve\<close> has returned, whichever the select takes.
\<close>

datatype start_event = SignalReceived | ServeReturned "go_error option"

record 'w Net =
  net_Listen :: "string \<Rightarrow> ('w, go_error option) io"
  net_Await :: "('w, start_event) io"
  net_Shutdown :: "Ctx \<Rightarrow> ('w, go_error option) io"

definition ErrServerClosed :: go_error where
  "ErrServerClosed = ''http: Server closed''"

definition Shutdown :: "('w \<Rightarrow> int) \<Rightarrow> 'w Net \<Rightarrow> Ctx \<Rightarrow> ('w, go_error option) io" where
  "Shutdown clock net ctx w = net_Shutdown net (WithTimeout (clock w) ctx (30 * second)) w"

definition Start :: "('w \<Rightarrow> int) \<Rightarrow> 'w Net \<Rightarrow> 'w Server \<Rightarrow> ('w, go_error option) io" where
  "Start clock net s w =
     (case net_Listen net (srv_Addr (s_server s)) w of
        (Some err, w1) \<Rightarrow> (Some err, w1)
      | (None, w1) \<Rightarrow>
          (case net_Await net w1 of
             (SignalReceived, w2) \<Rightarrow> Shutdown clock net Background w2
           | (ServeReturned err, w2) \<Rightarrow> (if err = Some ErrServerClosed then None else err, w2)))"

section \<open>main\<close>

text \<open>The exit code of the process; the log lines it writes are not modelled.\<close>

definition worker_main ::
  "unicode \<Rightarrow> ('w \<Rightarrow> int) \<Rightarrow> (string \<Rightarrow> go_error + 'w DockerClient) \<Rightarrow> 'w Net \<Rightarrow> environment \<Rightarrow> ('w, nat) io" where
  "worker_main uc clock connect net env w =
     (case Load uc env of
        Inl err \<Rightarrow> (1, w)
      | Inr cfg \<Rightarrow>
          (case New uc clock connect cfg of
             Inl err \<Rightarrow> (1, w)
           | Inr rt \<Rightarrow>
               (let pingCtx = WithTimeout (clock w) Background (5 * second) in
                case rt_Ping rt pingCtx w of
                  (Some err, w1) \<Rightarrow> (1, w1)
                | (None, w1) \<Rightarrow>
                    (let exec = NewExecutor cfg;
                         hc = NewChecker rt (3 * second);
                         server = NewServer exec hc cfg (cfg_RegistryWhitelist cfg)
                     in case Start clock net server w1 of
                          (Some err, w2) \<Rightarrow> (1, w2)
                        | (None, w2) \<Rightarrow> (0, w2)))))"

section \<open>The order of the start-up\<close>

text \<open>The calls \<^verbatim>\<open>main\<close> makes to the outside, in one expression.\<close>

lemma worker_main_calls:
  "worker_main uc clock connect net env w =
     (case Load uc env of
        Inl _ \<Rightarrow> (1, w)
      | Inr cfg \<Rightarrow>
          (case connect (''unix://'' @ cfg_RuntimeSocket cfg) of
             Inl _ \<Rightarrow> (1, w)
           | Inr cli \<Rightarrow>
               (case dc_Ping cli \<lparr>ctx_deadline = Some (clock w + 5000000000), ctx_cancelled = False\<rparr> w of
                  (Some _, w1) \<Rightarrow> (1, w1)
                | (None, w1) \<Rightarrow>
                    (case net_Listen net (cfg_ListenAddr cfg) w1 of
                       (Some _, w2) \<Rightarrow> (1, w2)
                     | (None, w2) \<Rightarrow>
                         (case net_Await net w2 of
                            (ServeReturned err, w3) \<Rightarrow>
                              (if err = None \<or> err = Some ErrServerClosed then 0 else 1, w3)
                          | (SignalReceived, w3) \<Rightarrow>
                              (case net_Shutdown net
                                      \<lparr>ctx_deadline = Some (clock w3 + 30000000000), ctx_cancelled = False\<rparr> w3 of
                                 (None, w4) \<Rightarrow> (0, w4)
                               | (Some _, w4) \<Rightarrow> (1, w4)))))))"
proof -
  have five: "WithTimeout t Background (5 * second) = \<lparr>ctx_deadline = Some (t + 5000000000), ctx_cancelled = False\<rparr>" for t
    by (simp add: WithTimeout_def Background_def second_def)
  have thirty: "WithTimeout t Background (30 * second) = \<lparr>ctx_deadline = Some (t + 30000000000), ctx_cancelled = False\<rparr>" for t
    by (simp add: WithTimeout_def Background_def second_def)
  have new: "Load uc env = Inr cfg \<Longrightarrow> New uc clock connect cfg = (case connect (''unix://'' @ cfg_RuntimeSocket cfg) of
         Inl e \<Rightarrow> Inl e | Inr cli \<Rightarrow> Inr (docker_runtime clock cli))" for cfg
    using loaded_runtime by blast
  show ?thesis
    by (auto simp: worker_main_def new five thirty docker_runtime_def Start_def Shutdown_def NewServer_def
        Let_def split: sum.splits prod.splits option.splits start_event.splits)
qed

text \<open>
  The calls as a log: what was called, with the clock reading before it where it has a deadline,
  and the answer. \<open>records\<close> says that the environment keeps such a log of itself; every
  environment can be made to, by pairing its world with the list.
\<close>

datatype main_call =
    MPing int Ctx "go_error option"
  | MListen string "go_error option"
  | MAwait start_event
  | MShutdown int Ctx "go_error option"

definition records ::
  "('w \<Rightarrow> main_call list) \<Rightarrow> ('w \<Rightarrow> int) \<Rightarrow> (string \<Rightarrow> go_error + 'w DockerClient) \<Rightarrow> 'w Net \<Rightarrow> bool" where
  "records calls clock connect net \<longleftrightarrow>
     (\<forall>addr cli c w err w'. connect addr = Inr cli \<longrightarrow> dc_Ping cli c w = (err, w') \<longrightarrow>
        calls w' = calls w @ [MPing (clock w) c err])
     \<and> (\<forall>addr w err w'. net_Listen net addr w = (err, w') \<longrightarrow> calls w' = calls w @ [MListen addr err])
     \<and> (\<forall>w ev w'. net_Await net w = (ev, w') \<longrightarrow> calls w' = calls w @ [MAwait ev])
     \<and> (\<forall>c w err w'. net_Shutdown net c w = (err, w') \<longrightarrow> calls w' = calls w @ [MShutdown (clock w) c err])"

fun kind :: "main_call \<Rightarrow> string" where
  "kind (MPing t c err) = ''ping''"
| "kind (MListen addr err) = ''listen''"
| "kind (MAwait ev) = ''await''"
| "kind (MShutdown t c err) = ''shutdown''"

text \<open>After which answers the process goes on, and which are the good ends.\<close>

fun goes_on :: "main_call \<Rightarrow> bool" where
  "goes_on (MPing t c err) \<longleftrightarrow> err = None"
| "goes_on (MListen addr err) \<longleftrightarrow> err = None"
| "goes_on (MAwait ev) \<longleftrightarrow> ev = SignalReceived"
| "goes_on (MShutdown t c err) \<longleftrightarrow> False"

fun ends_well :: "main_call \<Rightarrow> bool" where
  "ends_well (MAwait (ServeReturned err)) \<longleftrightarrow> err = None \<or> err = Some ErrServerClosed"
| "ends_well (MShutdown t c err) \<longleftrightarrow> err = None"
| "ends_well _ \<longleftrightarrow> False"

fun as_configured :: "Config \<Rightarrow> main_call \<Rightarrow> bool" where
  "as_configured cfg (MPing t c err) \<longleftrightarrow> c = \<lparr>ctx_deadline = Some (t + 5000000000), ctx_cancelled = False\<rparr>"
| "as_configured cfg (MListen addr err) \<longleftrightarrow> addr = cfg_ListenAddr cfg"
| "as_configured cfg (MAwait ev) \<longleftrightarrow> True"
| "as_configured cfg (MShutdown t c err) \<longleftrightarrow> c = \<lparr>ctx_deadline = Some (t + 30000000000), ctx_cancelled = False\<rparr>"

text \<open>
  C33: the start-up as its calls to the outside show it. They are, in this order and each at most
  once, the ping of the engine, listening, the wait for a signal or the end of the server, and
  the shutdown: the port is never opened before the engine has answered. Each is made if and only
  if the one before went well, and there is none, and nothing is changed, exactly when the
  configuration is rejected or no client can be made. The exit code is 0 if the last call was the
  wait and the server had ended without an error, or a shutdown that succeeded, and 1 otherwise.
  The ping has five seconds and the shutdown thirty from the moment of the call, and the address
  is the configured one.
\<close>

theorem worker_start_order:
  assumes "records calls clock connect net" and "calls w = []"
    and "worker_main uc clock connect net env w = (code, w')"
  shows "map kind (calls w') = take (length (calls w')) [''ping'', ''listen'', ''await'', ''shutdown'']
    \<and> list_all goes_on (butlast (calls w')) \<and> (calls w' \<noteq> [] \<longrightarrow> \<not> goes_on (last (calls w')))
    \<and> (calls w' = [] \<longleftrightarrow> (case Load uc env of Inl _ \<Rightarrow> True
          | Inr cfg \<Rightarrow> \<exists>msg. connect (''unix://'' @ cfg_RuntimeSocket cfg) = Inl msg))
    \<and> (calls w' = [] \<longrightarrow> w' = w)
    \<and> code = (if calls w' \<noteq> [] \<and> ends_well (last (calls w')) then 0 else 1)
    \<and> (\<forall>cfg. Load uc env = Inr cfg \<longrightarrow> list_all (as_configured cfg) (calls w'))"
proof -
  have rec:
    "\<And>addr cli c w err w'. connect addr = Inr cli \<Longrightarrow> dc_Ping cli c w = (err, w') \<Longrightarrow>
       calls w' = calls w @ [MPing (clock w) c err]"
    "\<And>addr w err w'. net_Listen net addr w = (err, w') \<Longrightarrow> calls w' = calls w @ [MListen addr err]"
    "\<And>w ev w'. net_Await net w = (ev, w') \<Longrightarrow> calls w' = calls w @ [MAwait ev]"
    "\<And>c w err w'. net_Shutdown net c w = (err, w') \<Longrightarrow> calls w' = calls w @ [MShutdown (clock w) c err]"
    using assms(1) unfolding records_def by blast+
  show ?thesis
  proof (cases "Load uc env")
    case (Inl msg)
    with assms(2,3) show ?thesis by (auto simp: worker_main_calls)
  next
    case load: (Inr cfg)
    show ?thesis
    proof (cases "connect (''unix://'' @ cfg_RuntimeSocket cfg)")
      case (Inl msg)
      with load assms(2,3) show ?thesis by (auto simp: worker_main_calls)
    next
      case cli: (Inr cli)
      let ?c = "\<lparr>ctx_deadline = Some (clock w + 5000000000), ctx_cancelled = False\<rparr>"
      obtain e1 w1 where p: "dc_Ping cli ?c w = (e1, w1)" by (cases "dc_Ping cli ?c w")
      obtain e2 w2 where l: "net_Listen net (cfg_ListenAddr cfg) w1 = (e2, w2)" by (cases "net_Listen net (cfg_ListenAddr cfg) w1")
      obtain ev w3 where a: "net_Await net w2 = (ev, w3)" by (cases "net_Await net w2")
      let ?d = "\<lparr>ctx_deadline = Some (clock w3 + 30000000000), ctx_cancelled = False\<rparr>"
      obtain e4 w4 where d: "net_Shutdown net ?d w3 = (e4, w4)" by (cases "net_Shutdown net ?d w3")
      note logs = rec(1) [OF cli p] rec(2) [OF l] rec(3) [OF a] rec(4) [OF d]
      from assms(3) load cli p l a d logs assms(2) show ?thesis
        by (auto simp: worker_main_calls split: option.splits start_event.splits if_splits)
    qed
  qed
qed

text \<open>An environment whose world is the log: the server runs until a signal.\<close>

definition quiet_client :: "main_call list DockerClient" where
  "quiet_client =
     \<lparr>dc_Ping = \<lambda>c w. (None, w @ [MPing 0 c None]), dc_ImagePull = \<lambda>c img auth w. ((0, None), w),
      dc_Drain = \<lambda>rd w. (None, w), dc_ImageInspect = \<lambda>c img w. (None, w),
      dc_IsErrNotFound = \<lambda>e. False, dc_ContainerCreate = \<lambda>c cc hc w. ((''c1'', None), w),
      dc_ContainerStart = \<lambda>c cid w. (None, w),
      dc_ContainerWait = \<lambda>c cid w. (WaitResult 0 None, w),
      dc_ContainerStop = \<lambda>c cid n w. (None, w), dc_ContainerKill = \<lambda>c cid sig w. (None, w),
      dc_ContainerLogs = \<lambda>c cid w. ((0, None), w),
      dc_StdCopy = \<lambda>rd w. ((([], []), None), w),
      dc_ContainerRemove = \<lambda>c cid force w. (None, w), dc_MarshalAuth = \<lambda>u p. Inr []\<rparr>"

definition quiet_net :: "main_call list Net" where
  "quiet_net =
     \<lparr>net_Listen = \<lambda>addr w. (None, w @ [MListen addr None]),
      net_Await = \<lambda>w. (SignalReceived, w @ [MAwait SignalReceived]),
      net_Shutdown = \<lambda>c w. (None, w @ [MShutdown 0 c None])\<rparr>"

theorem worker_start_order_witness:
  "\<exists>w'. worker_main plain_unicode (\<lambda>_. 0) (\<lambda>_. Inr quiet_client) quiet_net (\<lambda>_. []) [] = (0, w')
     \<and> map kind w' = [''ping'', ''listen'', ''await'', ''shutdown'']"
proof -
  obtain code w' where m: "worker_main plain_unicode (\<lambda>_. 0) (\<lambda>_. Inr quiet_client) quiet_net (\<lambda>_. []) [] = (code, w')"
    by (cases "worker_main plain_unicode (\<lambda>_. 0) (\<lambda>_. Inr quiet_client) quiet_net (\<lambda>_. []) []")
  have "records (\<lambda>w. w) (\<lambda>_. 0) (\<lambda>_. Inr quiet_client) quiet_net"
    by (simp add: records_def quiet_client_def quiet_net_def)
  note o = worker_start_order [OF this refl m]
  have "length w' = 4" "ends_well (last w')"
    using m by (auto simp: worker_main_calls Load_empty_environment quiet_client_def quiet_net_def)
  with o m show ?thesis by auto
qed

end
