(* ===== verification/Spec2Isabelle.thy ===== *)
theory Spec2Isabelle
  imports Validator_Proofs Redaction_Proofs Config_Proofs Log_Buffer_Proofs Job_Properties
    Docker_Proofs Worker_Properties Job_Time Live_Logs Api_Clients Server
begin

text \<open>
  \<^bold>\<open>The program.\<close> A serverless worker written in Go: an HTTP service that runs one container
  job at a time for an orchestrator. A request (\<^verbatim>\<open>POST /jobs\<close>) is validated
  (\<^verbatim>\<open>pkg/validator\<close>), handed to the executor (\<^verbatim>\<open>pkg/executor\<close>), which pulls the image, creates,
  starts and awaits a container through a runtime (\<^verbatim>\<open>pkg/runtime\<close>: Docker or Podman), cuts and
  redacts its output and removes it. The result is fetched with \<^verbatim>\<open>GET /jobs/{id}\<close>, the log lines
  with \<^verbatim>\<open>GET /jobs/{id}/logs\<close> from a buffer (\<^verbatim>\<open>pkg/stream\<close>) as server-sent events; two more
  routes report health (\<^verbatim>\<open>pkg/health\<close>). \<^verbatim>\<open>cmd/worker/main.go\<close> reads the configuration
  (\<^verbatim>\<open>pkg/config\<close>) and wires the parts together.

  \<^bold>\<open>The theories\<close>, in the order of their imports:

  \<^item> \<open>Go_Base\<close>, \<open>Go_Strings\<close>: what the source uses of Go. 64-bit integers as words, durations,
    conversions that wrap; \<^verbatim>\<open>float64\<close> as mantissa and exponent with rounding to nearest even;
    maps with an iteration order as an argument; decimal printing and parsing; strings as byte
    lists with UTF-8 decoding, \<^verbatim>\<open>strings.ReplaceAll\<close>, \<^verbatim>\<open>EqualFold\<close>, \<^verbatim>\<open>%q\<close>.
  \<^item> \<open>Go_Systems\<close>: step relations, reachability, and the locales \<open>invariant_system\<close> and
    \<open>simulation\<close>, which the log buffer, the executor and their product interpret.
  \<^item> \<open>Config\<close>, \<open>Config_Proofs\<close>: \<^verbatim>\<open>config.Load\<close> over an environment, a function from names to
    values. The socket and runtime it selects, the whitelist as a list printed and read back,
    durations that wrap around, and the whole record from an environment.
  \<^item> \<open>Job_Types\<close>: the structures of the \<^verbatim>\<open>types.go\<close> files.
  \<^item> \<open>Validator\<close>, \<open>Validator_Proofs\<close>: \<^verbatim>\<open>ValidateJobRequest\<close> check by check. It is shown equal to
    a specification of the bounds (in bytes), and the error fields and the registry rejection that the
    HTTP layer looks for are characterised.
  \<^item> \<open>Config_Builder\<close>: \<^verbatim>\<open>config_builder.go\<close>. The command parser with its round trip, the
    environment, mounts and limits of a container, the effective timeout.
  \<^item> \<open>Output_Redaction\<close>, \<open>Redaction_Proofs\<close>: truncation, the in-place sort (equal to a stable
    library sort) and the replacement of secrets, with what redaction guarantees and where it
    does not.
  \<^item> \<open>Log_Buffer\<close>, \<open>Log_Buffer_Proofs\<close>: the buffer and the goroutine of a subscriber as a step
    relation with one step for each critical section and channel operation.
  \<^item> \<open>Container_Runtime\<close>: the interface \<^verbatim>\<open>runtime.Runtime\<close> as a record of operations over a world of
    any type, contexts with deadlines, and the locale \<open>container_runtime\<close> with the one
    convention its callers use (a failed call returns zero values).
  \<^item> \<open>Job_Program\<close>: the language of the executor's goroutines. A program is a tree of the calls it
    makes, each continued by a function of the answer; \<open>deferring\<close> is Go's \<^verbatim>\<open>defer\<close>, run on
    returns and panics. \<open>run\<close> executes a program against a runtime and a clock, \<open>runs\<close> lists its
    event sequences, \<open>wp\<close> quantifies over all of them.
  \<^item> \<open>Docker_Adapter\<close>, \<open>Docker_Proofs\<close>: the Docker and Podman runtimes over the methods of the
    Docker client. They interpret \<open>container_runtime\<close>.
  \<^item> \<open>Executor\<close>, \<open>Executor_Proofs\<close>, \<open>Job_Properties\<close>: \<^verbatim>\<open>executeJob\<close> and what it calls. The
    life cycle is an automaton over the events; from it follow the clean-up (a container is
    removed, or its removal was answered with an error), the deadlines, the one result and its
    agreement with the answers of the runtime, the order of the effects, when the goroutine
    panics, and what truncation before redaction lets through.
  \<^item> \<open>Job_Time\<close>: the same programs read in time: against a runtime that keeps its deadlines a job
    ends within a time that its configuration and request determine.
  \<^item> \<open>Worker\<close>, \<open>Worker_Proofs\<close>, \<open>Worker_Properties\<close>: the state that several goroutines share.
    Jobs live on a heap, \<^verbatim>\<open>e.current\<close> is an address; \<open>ex_step\<close> interleaves submissions with
    the goroutines of all jobs, one call or effect at a time. The invariant \<open>ex_inv\<close> ties every
    job to an event sequence of its program; the goroutine of a job ends within 25 steps,
    whatever is answered; the containers left over are counted as leaked. The locale \<open>job_slot\<close> states what the handlers
    rely on; the worker is shown to implement a three-state slot machine.
  \<^item> \<open>Live_Logs\<close>: the product of that system with the subscribers of the job's buffers, for any
    number of jobs and clients: what a client of \<^verbatim>\<open>GET /jobs/{id}/logs\<close> receives is the output of
    its own job, in order, without loss or repetition.
  \<^item> \<open>Json\<close>, \<open>Utf8\<close>, \<open>Json_Decode\<close>, \<open>Json_Round_Trip\<close>, \<open>Parse_Float\<close>: \<^verbatim>\<open>encoding/json\<close> byte for
    byte. The encoder with its escapes (an encoding contains no line break), the decoder as a
    scanner with a stack of open arrays and objects, which reads back every encoding (bytes
    that are not UTF-8 come back replaced), and the correctly rounded reading of decimal numbers as \<^verbatim>\<open>float64\<close>.
  \<^item> \<open>Job_Decode\<close>, \<open>Job_Decode_Proofs\<close>: the request body as a \<^verbatim>\<open>JobRequest\<close>, field by field as the
    tags say, with Go's rules for \<^verbatim>\<open>null\<close>, unknown and repeated keys and the case of keys.
  \<^item> \<open>Health\<close>, \<open>Api\<close>, \<open>Api_Proofs\<close>, \<open>Api_Clients\<close>: the checker, the five handlers with their
    status codes and bodies, the routing table; the event stream can be parsed back whatever the
    lines contain, the request a client encodes is the one that runs, and the result it decodes
    is the one the worker holds.
  \<^item> \<open>Server\<close>: \<^verbatim>\<open>NewServer\<close>, \<^verbatim>\<open>Start\<close>, \<^verbatim>\<open>Shutdown\<close> and \<^verbatim>\<open>main\<close> up to the exit code, and the order of
    the calls \<^verbatim>\<open>main\<close> makes, stated on a log of them.

  \<^bold>\<open>How the model reads.\<close> Go errors are strings, a result \<^verbatim>\<open>(value, error)\<close> is a pair, a pure
  failure a sum; a slice out of range is \<open>None\<close>, which the executor's program turns into a panic.
  The clock and the answers of the runtime are inputs of every execution, so a property of
  \<open>runs\<close> holds for every timing and every failure. A handler that looks at the executor twice gets
  two states. \<^verbatim>\<open>GetResult\<close> reads \<^verbatim>\<open>Done\<close> of the job it found after it has released the mutex; this is
  one step here, since \<^verbatim>\<open>Done\<close> is only ever closed and a later step of the same reader finds
  what the state just before the next submission offers. The contexts' cancel functions that
  only free timers (\<^verbatim>\<open>pullCancel\<close>, \<^verbatim>\<open>logCancel\<close> and the like) have no counterpart.

  \<^bold>\<open>Bounds.\<close> No definition uses fuel: loops are structural or have a termination proof. The
  argument \<open>room\<close> of the event stream is no fuel but the number of frames the client accepts.

  \<^bold>\<open>Not modelled.\<close> HTTP itself, headers other than the content type, and the
  server's timeouts beyond their values; the log lines written with \<^verbatim>\<open>slog\<close>; the Docker client
  package (a parameter). Outside Go: the deployment scripts, nginx templates, static page and
  documents; \<^verbatim>\<open>tools.go\<close> has no code.
\<close>

end
